(* ===== verification/Py_Base.thy ===== *)
theory Py_Base
  imports Main "HOL-Library.AList" "HOL-Library.List_Lexorder" "HOL-Library.Product_Lexorder"
begin

text \<open>
  The base of the library: Python strings as lists of code points, the exceptions the program
  raises or catches, the result type in which every raise is a value, checked iteration over
  lists, and the list, sorting and dictionary facts that the components share.

  A Python dictionary is an association list with distinct keys in insertion order. Assignment
  is \<open>AList.update\<close> (in place for a present key, at the end for a new one), reading is
  \<open>map_of\<close>. A Python set only ever reaches the output through \<open>sorted\<close>, so it is a list
  read through \<open>set\<close> and emitted through \<open>sorted_set\<close>.
\<close>

named_theorems result_simps "computation rules of the result type"

section \<open>Strings\<close>

type_synonym pystr = "int list"

text \<open>A literal of the source: every character becomes its code point.\<close>

definition lit :: "string \<Rightarrow> pystr" where
  "lit s = map of_char s"

lemma lit_Nil [simp]: "lit [] = []"
  by (simp add: lit_def)

lemma lit_Cons: "lit (c # s) = of_char c # lit s"
  by (simp add: lit_def)

lemma lit_append: "lit (s @ t) = lit s @ lit t"
  by (simp add: lit_def)

lemma lit_eq_iff [simp]: "lit s = lit t \<longleftrightarrow> s = t"
  unfolding lit_def by (rule inj_map_eq_map) (simp add: inj_def)

lemma lit_eq_Nil_iff [simp]: "lit s = [] \<longleftrightarrow> s = []"
  by (simp add: lit_def)

lemma Nil_eq_lit_iff [simp]: "[] = lit s \<longleftrightarrow> s = []"
  by (auto simp add: lit_def)

lemma length_lit [simp]: "length (lit s) = length s"
  by (simp add: lit_def)

section \<open>Exceptions and results\<close>

text \<open>
  The exceptions that occur in the program. Those whose text reaches a record carry it; \<open>WrongKey\<close>
  is the \<open>ValueError\<close> that the baseline store raises for a key of another kind.
  \<open>OutOfContract\<close> is no exception of the source: it marks an input whose JSON type differs from
  the annotation of the dataclass field it is stored into. Python stores such a value unchecked,
  the typed records of this model cannot, so the model stops there.
\<close>

datatype py_error =
    KeyError
  | ValueError
  | TypeError
  | AttributeError
  | IndexError
  | OverflowError
  | StructError
  | Vanished pystr
  | Denied pystr
  | Unreadable pystr
  | ParseError pystr
  | ModuleParseError pystr
  | KernelHookParseError pystr
  | SocketParseError pystr
  | IncompatibleSnapshot pystr
  | OSError int pystr
  | JSONDecodeError
  | UnicodeDecodeError
  | UnicodeEncodeError
  | WrongKey pystr
  | BaselineLoadError
  | BaselineTampered pystr
  | RuntimeError pystr
  | AssertionError
  | OutOfContract

type_synonym 'a result = "py_error + 'a"

definition bindE :: "'a result \<Rightarrow> ('a \<Rightarrow> 'b result) \<Rightarrow> 'b result" where
  "bindE r f = (case r of Inl e \<Rightarrow> Inl e | Inr x \<Rightarrow> f x)"

lemma bindE_Inl [simp, result_simps]: "bindE (Inl e) f = Inl e"
  by (simp add: bindE_def)

lemma bindE_Inr [simp, result_simps]: "bindE (Inr x) f = f x"
  by (simp add: bindE_def)

lemma bindE_eq_Inr_iff: "bindE r f = Inr y \<longleftrightarrow> (\<exists>x. r = Inr x \<and> f x = Inr y)"
  by (cases r) auto

lemma bindE_InrE [elim!]:
  assumes "bindE r f = Inr y"
  obtains x where "r = Inr x" and "f x = Inr y"
  using assms by (cases r) auto

lemma bindE_cong [fundef_cong]:
  assumes "r = r'" and "\<And>x. r' = Inr x \<Longrightarrow> f x = f' x"
  shows "bindE r f = bindE r' f'"
  using assms by (cases r') auto

text \<open>A comprehension \<open>[f(x) for x in xs]\<close> whose body can raise.\<close>

fun mapE :: "('a \<Rightarrow> 'b result) \<Rightarrow> 'a list \<Rightarrow> 'b list result" where
  "mapE f [] = Inr []"
| "mapE f (x # xs) = bindE (f x) (\<lambda>y. bindE (mapE f xs) (\<lambda>ys. Inr (y # ys)))"

lemma mapE_Inr_iff: "mapE f xs = Inr ys \<longleftrightarrow> list_all2 (\<lambda>x y. f x = Inr y) xs ys"
  by (induction xs arbitrary: ys) (auto simp: bindE_eq_Inr_iff list_all2_Cons1)

lemma mapE_total: "(\<And>x. x \<in> set xs \<Longrightarrow> f x = Inr (g x)) \<Longrightarrow> mapE f xs = Inr (map g xs)"
  by (induction xs) auto

lemma mapE_map [simp]: "mapE f (map g xs) = mapE (\<lambda>x. f (g x)) xs"
  by (induction xs) auto

lemma mapE_Inr [simp]: "mapE Inr xs = Inr xs"
  by (induction xs) auto

lemma mapE_cong [fundef_cong]:
  assumes "xs = ys" and "\<And>x. x \<in> set ys \<Longrightarrow> f x = g x"
  shows "mapE f xs = mapE g ys"
  using assms by (induction ys arbitrary: xs) auto

lemma mapE_length: "mapE f xs = Inr ys \<Longrightarrow> length ys = length xs"
  by (simp add: mapE_Inr_iff list_all2_lengthD)

lemma mapE_set: "mapE f xs = Inr ys \<Longrightarrow> y \<in> set ys \<Longrightarrow> \<exists>x \<in> set xs. f x = Inr y"
  by (auto simp: mapE_Inr_iff list_all2_conv_all_nth set_conv_nth)

text \<open>A loop over \<open>xs\<close> that updates a state and can raise.\<close>

fun foldE :: "('a \<Rightarrow> 's \<Rightarrow> 's result) \<Rightarrow> 'a list \<Rightarrow> 's \<Rightarrow> 's result" where
  "foldE f [] s = Inr s"
| "foldE f (x # xs) s = bindE (f x s) (foldE f xs)"

lemma foldE_append [simp]: "foldE f (xs @ ys) s = bindE (foldE f xs s) (foldE f ys)"
  by (induction xs arbitrary: s) (auto simp: bindE_def split: sum.split)

lemma foldE_skip: "list_all (\<lambda>x. \<forall>s. f x s = Inr s) xs \<Longrightarrow> foldE f xs s = Inr s"
  by (induction xs) auto

lemma foldE_error:
  "(\<And>x s e. f x s = Inl e \<Longrightarrow> P e) \<Longrightarrow> foldE f xs s = Inl e \<Longrightarrow> P e"
  by (induction xs arbitrary: s) (auto simp: bindE_def split: sum.splits)

lemma mapE_Inl: "mapE f xs = Inl e \<Longrightarrow> \<exists>x \<in> set xs. f x = Inl e"
  by (induction xs) (auto simp: bindE_def split: sum.splits)

lemma mapE_error: "(\<And>x e. f x = Inl e \<Longrightarrow> P e) \<Longrightarrow> mapE f xs = Inl e \<Longrightarrow> P e"
  by (induction xs) (auto simp: bindE_def split: sum.splits)

section \<open>Sorted sets\<close>

lemma sort_sort [simp]: "sort (sort xs) = sort xs"
  by (simp add: sorted_sort_id)

lemma sort_key_Nil_iff [simp]: "sort_key f xs = [] \<longleftrightarrow> xs = []"
  by (metis length_0_conv length_sort)

text \<open>\<open>sorted(set(xs))\<close>: the distinct elements in ascending order.\<close>

definition sorted_set :: "'a::linorder list \<Rightarrow> 'a list" where
  "sorted_set xs = sort (remdups xs)"

lemma sorted_set_alt: "sorted_set xs = sorted_list_of_set (set xs)"
  by (simp add: sorted_set_def sorted_list_of_set_sort_remdups)

lemma set_sorted_set [simp]: "set (sorted_set xs) = set xs"
  by (simp add: sorted_set_def)

lemma sorted_sorted_set [simp]: "sorted (sorted_set xs)"
  by (simp add: sorted_set_def)

lemma distinct_sorted_set [simp]: "distinct (sorted_set xs)"
  by (simp add: sorted_set_def)

lemma sorted_set_eqI: "set xs = set ys \<Longrightarrow> sorted_set xs = sorted_set ys"
  by (simp add: sorted_set_alt)

lemma sorted_set_eq_iff: "sorted_set xs = sorted_set ys \<longleftrightarrow> set xs = set ys"
  by (metis set_sorted_set sorted_set_eqI)

lemma sorted_set_Nil_iff [simp]: "sorted_set xs = [] \<longleftrightarrow> xs = []"
  by (metis set_empty set_sorted_set)

lemma sorted_set_id: "sorted xs \<Longrightarrow> distinct xs \<Longrightarrow> sorted_set xs = xs"
  by (simp add: sorted_set_def sorted_sort_id distinct_remdups_id)

lemma sorted_set_unique:
  "set ys = set xs \<Longrightarrow> sorted ys \<Longrightarrow> distinct ys \<Longrightarrow> sorted_set xs = ys"
  using sorted_set_eqI [of ys xs] by (simp add: sorted_set_id)

lemma sorted_set_singleton_iff: "sorted_set xs = [x] \<longleftrightarrow> set xs = {x}"
proof
  assume "sorted_set xs = [x]"
  then have "set (sorted_set xs) = {x}" by simp
  then show "set xs = {x}" by simp
next
  assume "set xs = {x}"
  then show "sorted_set xs = [x]" by (simp add: sorted_set_alt)
qed

lemma filter_sorted_set: "filter P (sorted_set xs) = sorted_set (filter P xs)"
  by (rule sorted_distinct_set_unique) (auto intro: sorted_wrt_filter)

text \<open>\<open>len(set(xs))\<close>.\<close>

definition set_size :: "'a list \<Rightarrow> int" where
  "set_size xs = int (length (remdups xs))"

lemma set_size_card: "set_size xs = int (card (set xs))"
  by (simp add: set_size_def length_remdups_card_conv)

end
