(* ===== verification/Py_Num.thy ===== *)
theory Py_Num
  imports Py_Str
begin

text \<open>
  \<open>str()\<close> of an integer, \<open>int()\<close> of a string in bases 10 and 16, fixed-width hexadecimal and
  \<open>repr\<close> of a string, as CPython 3.11 computes them. \<open>int()\<close> strips white space, takes one sign,
  single underscores between digits and the digits of every script, and refuses more than 4300
  decimal digits. The main fact is that \<open>int()\<close> reads back what \<open>str()\<close> printed.
\<close>

section \<open>Printing integers\<close>

fun dec_digits :: "nat \<Rightarrow> pystr" where
  "dec_digits n =
     (if n < 10 then [48 + int n] else dec_digits (n div 10) @ [48 + int (n mod 10)])"

declare dec_digits.simps [simp del]

definition str_int :: "int \<Rightarrow> pystr" where
  "str_int i = (if i < 0 then 45 # dec_digits (nat (- i)) else dec_digits (nat i))"

definition is_ascii_digit :: "int \<Rightarrow> bool" where
  "is_ascii_digit c \<longleftrightarrow> 48 \<le> c \<and> c \<le> 57"

lemma dec_digits_nonempty [simp]: "dec_digits n \<noteq> []"
  by (subst dec_digits.simps) simp

lemma dec_digits_ascii: "list_all is_ascii_digit (dec_digits n)"
proof (induction n rule: dec_digits.induct)
  case (1 n)
  then show ?case
    by (subst dec_digits.simps) (auto simp: is_ascii_digit_def [of "48 + _"])
qed

definition dec_value :: "pystr \<Rightarrow> int" where
  "dec_value s = foldl (\<lambda>a c. 10 * a + (c - 48)) 0 s"

lemma dec_value_snoc: "dec_value (s @ [c]) = 10 * dec_value s + (c - 48)"
  by (simp add: dec_value_def)

lemma dec_value_dec_digits: "dec_value (dec_digits n) = int n"
proof (induction n rule: dec_digits.induct)
  case (1 n)
  show ?case
  proof (cases "n < 10")
    case True
    then show ?thesis by (subst dec_digits.simps) (simp add: dec_value_def)
  next
    case False
    then have "dec_value (dec_digits n) = 10 * int (n div 10) + int (n mod 10)"
      using 1 by (subst dec_digits.simps) (simp add: dec_value_snoc)
    also have "\<dots> = int n" by presburger
    finally show ?thesis .
  qed
qed

lemma dec_digits_inj: "dec_digits m = dec_digits n \<Longrightarrow> m = n"
  by (metis dec_value_dec_digits of_nat_eq_iff)

lemma ascii_digit_not_minus: "list_all is_ascii_digit s \<Longrightarrow> 45 \<notin> set s"
  by (auto simp: list_all_iff is_ascii_digit_def)

lemma str_int_nonempty [simp]: "str_int i \<noteq> []"
  by (simp add: str_int_def)

lemma str_int_inj [simp]: "str_int i = str_int j \<longleftrightarrow> i = j"
proof
  assume eq: "str_int i = str_int j"
  have no45: "45 # a \<noteq> dec_digits n" for a n
    using dec_digits_ascii [of n] by (auto simp: is_ascii_digit_def dest: sym)
  from eq show "i = j"
    using no45 no45 [THEN not_sym] by (auto simp: str_int_def dest: dec_digits_inj split: if_splits)
qed simp

lemma length_dec_digits_Suc: "n < 10 ^ Suc k \<Longrightarrow> length (dec_digits n) \<le> Suc k"
proof (induction k arbitrary: n)
  case 0
  then show ?case by (subst dec_digits.simps) simp
next
  case (Suc k)
  show ?case
  proof (cases "n < 10")
    case True
    then show ?thesis by (subst dec_digits.simps) simp
  next
    case False
    have "n div 10 < 10 ^ Suc k"
      using Suc.prems by (simp add: less_mult_imp_div_less mult.commute)
    then have "length (dec_digits (n div 10)) \<le> Suc k" by (rule Suc.IH)
    with False show ?thesis by (subst dec_digits.simps) simp
  qed
qed

lemma length_dec_digits:
  assumes "n < 10 ^ k" and "0 < k"
  shows "length (dec_digits n) \<le> k"
  using assms length_dec_digits_Suc [of n "k - 1"] by simp

text \<open>Evaluation prints integers by division of integers, and only when their value is known.\<close>

function dec_int :: "int \<Rightarrow> pystr" where
  "dec_int i = (if i < 10 then [48 + i] else dec_int (i div 10) @ [48 + i mod 10])"
  by pat_completeness auto
termination
  by (relation "measure nat") auto

declare dec_int.simps [simp del]

lemma dec_int_dec_digits: "dec_int (int n) = dec_digits n"
proof (induction n rule: dec_digits.induct)
  case (1 n)
  then show ?case
    by (subst dec_int.simps, subst dec_digits.simps) (simp add: zdiv_int zmod_int)
qed

lemma str_int_code [code]:
  "str_int 0 = [48]"
  "str_int (Int.Pos k) = dec_int (Int.Pos k)"
  "str_int (Int.Neg k) = 45 # dec_int (Int.Pos k)"
proof -
  have "dec_int (Int.Pos k) = dec_digits (nat (Int.Pos k))" for k
    using dec_int_dec_digits [of "nat (Int.Pos k)"] by simp
  then show "str_int (Int.Pos k) = dec_int (Int.Pos k)"
    "str_int (Int.Neg k) = 45 # dec_int (Int.Pos k)"
    by (simp_all add: str_int_def)
  show "str_int 0 = [48]" by (simp add: str_int_def dec_digits.simps)
qed

section \<open>Reading integers\<close>

text \<open>Digits with single underscores between them; \<open>None\<close> is a \<open>ValueError\<close>.\<close>

fun us_digits :: "(int \<Rightarrow> int option) \<Rightarrow> pystr \<Rightarrow> int list option" where
  "us_digits dv [] = None"
| "us_digits dv [c] = map_option (\<lambda>d. [d]) (dv c)"
| "us_digits dv (c # c' # cs) =
     (case dv c of
        None \<Rightarrow> None
      | Some d \<Rightarrow> map_option (\<lambda>ds. d # ds) (us_digits dv (if c' = 95 then cs else c' # cs)))"

definition int_strip :: "pystr \<Rightarrow> pystr" where
  "int_strip s = rev (dropWhile int_space (rev (dropWhile int_space s)))"

definition split_sign :: "pystr \<Rightarrow> bool \<times> pystr" where
  "split_sign s =
     (case s of [] \<Rightarrow> (False, []) | c # cs \<Rightarrow>
        if c = 45 then (True, cs) else if c = 43 then (False, cs) else (False, s))"

definition digits_value :: "int \<Rightarrow> int list \<Rightarrow> int" where
  "digits_value b ds = foldl (\<lambda>a d. b * a + d) 0 ds"

definition max_str_digits :: nat where
  "max_str_digits = 4300"

definition py_int :: "pystr \<Rightarrow> int result" where
  "py_int s =
     (let (neg, u) = split_sign (int_strip s) in
      case us_digits decimal_value u of
        None \<Rightarrow> Inl ValueError
      | Some ds \<Rightarrow>
          if length ds > max_str_digits then Inl ValueError
          else Inr (if neg then - digits_value 10 ds else digits_value 10 ds))"

definition hex_value :: "int \<Rightarrow> int option" where
  "hex_value c =
     (if 97 \<le> c \<and> c \<le> 102 then Some (c - 87)
      else if 65 \<le> c \<and> c \<le> 70 then Some (c - 55)
      else decimal_value c)"

text \<open>\<open>int(s, 16)\<close>: a prefix 0x or 0X may follow the sign, with one underscore after it.\<close>

definition drop_hex_prefix :: "pystr \<Rightarrow> pystr" where
  "drop_hex_prefix s =
     (case s of
        z # x # cs \<Rightarrow>
          if z = 48 \<and> (x = 120 \<or> x = 88)
          then (case cs of [] \<Rightarrow> [] | c # cs' \<Rightarrow> if c = 95 then cs' else cs)
          else s
      | _ \<Rightarrow> s)"

definition py_int16 :: "pystr \<Rightarrow> int result" where
  "py_int16 s =
     (let (neg, u) = split_sign (int_strip s) in
      case us_digits hex_value (drop_hex_prefix u) of
        None \<Rightarrow> Inl ValueError
      | Some ds \<Rightarrow> Inr (if neg then - digits_value 16 ds else digits_value 16 ds))"

text \<open>The digits of a number bound its value.\<close>

lemma us_digits_bound:
  "us_digits dv s = Some ds \<Longrightarrow> \<forall>c d. dv c = Some d \<longrightarrow> 0 \<le> d \<and> d < b \<Longrightarrow>
   length ds \<le> length s \<and> list_all (\<lambda>d. 0 \<le> d \<and> d < b) ds"
proof (induction dv s arbitrary: ds rule: us_digits.induct)
  case (3 dv c c' cs)
  from "3.prems"(1) obtain d ds' where d: "dv c = Some d" and ds: "ds = d # ds'"
    and r: "us_digits dv (if c' = 95 then cs else c' # cs) = Some ds'"
    by (auto split: option.splits)
  from "3.IH" [OF d r "3.prems"(2)] d "3.prems"(2) show ?case
    by (auto simp: ds split: if_splits)
qed auto

lemma digits_value_bound:
  assumes "list_all (\<lambda>d. 0 \<le> d \<and> d < b) ds" and "0 < b"
  shows "0 \<le> digits_value b ds \<and> digits_value b ds < b ^ length ds"
  using assms
proof (induction ds rule: rev_induct)
  case (snoc d ds)
  let ?v = "digits_value b ds"
  have v: "0 \<le> ?v" "?v < b ^ length ds" "0 \<le> d" "d < b" using snoc by simp_all
  have "b * ?v + d < b * (?v + 1)" using v by (simp add: distrib_left)
  also have "\<dots> \<le> b * b ^ length ds" using v assms(2) by (intro mult_left_mono) simp_all
  finally have "b * ?v + d < b ^ Suc (length ds)" by simp
  with v assms(2) show ?case by (simp add: digits_value_def)
qed (simp add: digits_value_def)

lemma decimal_value_ascii: "is_ascii_digit c \<Longrightarrow> decimal_value c = Some (c - 48)"
  by (simp add: decimal_value_def decimal_zeros_def is_ascii_digit_def)

lemma us_digits_plain:
  "s \<noteq> [] \<Longrightarrow> list_all (\<lambda>c. dv c = Some (f c) \<and> c \<noteq> 95) s \<Longrightarrow> us_digits dv s = Some (map f s)"
  by (induction dv s rule: us_digits.induct) auto

lemma us_digits_ascii:
  assumes "s \<noteq> []" and "list_all is_ascii_digit s"
  shows "us_digits decimal_value s = Some (map (\<lambda>c. c - 48) s)"
proof (rule us_digits_plain [OF assms(1)])
  show "list_all (\<lambda>c. decimal_value c = Some (c - 48) \<and> c \<noteq> 95) s"
    using assms(2) by (auto simp: list_all_iff decimal_value_ascii is_ascii_digit_def)
qed

lemma ascii_digit_not_space: "is_ascii_digit c \<Longrightarrow> \<not> isspace c"
  by (simp add: is_ascii_digit_def isspace_def)

lemma int_strip_id:
  "s \<noteq> [] \<Longrightarrow> \<not> int_space (hd s) \<Longrightarrow> \<not> int_space (last s) \<Longrightarrow> int_strip s = s"
proof -
  assume s: "s \<noteq> []" "\<not> int_space (hd s)" "\<not> int_space (last s)"
  then have "dropWhile int_space s = s" by (cases s) simp_all
  moreover have "dropWhile int_space (rev s) = rev s"
    using s by (cases s rule: rev_cases) simp_all
  ultimately show ?thesis by (simp add: int_strip_def)
qed

lemma foldl_dec_value: "digits_value 10 (map (\<lambda>c. c - 48) s) = dec_value s"
  by (simp add: digits_value_def dec_value_def foldl_map)

lemma ascii_digits_hd_last:
  assumes "list_all is_ascii_digit s" and "s \<noteq> []"
  shows "is_ascii_digit (hd s)" and "is_ascii_digit (last s)"
  using assms by (auto simp: list_all_iff)

lemma py_int_ascii:
  assumes "s \<noteq> []" and "list_all is_ascii_digit s" and "length s \<le> max_str_digits"
  shows "py_int s = Inr (dec_value s)"
proof -
  have "int_strip s = s"
    using ascii_digits_hd_last [OF assms(2,1)] assms(1)
    by (intro int_strip_id) (simp_all add: int_space_def ascii_digit_not_space)
  moreover have "split_sign s = (False, s)"
    using assms by (cases s) (auto simp: split_sign_def is_ascii_digit_def)
  ultimately show ?thesis
    using assms
    by (simp add: py_int_def us_digits_ascii foldl_dec_value)
qed

lemma py_int_minus:
  assumes "s \<noteq> []" and "list_all is_ascii_digit s" and "length s \<le> max_str_digits"
  shows "py_int (45 # s) = Inr (- dec_value s)"
proof -
  have "int_strip (45 # s) = 45 # s"
    using ascii_digits_hd_last [OF assms(2,1)] assms(1)
    by (intro int_strip_id)
      (simp_all add: int_space_def ascii_digit_not_space isspace_def [of 45])
  then show ?thesis
    using assms
    by (simp add: py_int_def split_sign_def us_digits_ascii foldl_dec_value)
qed

text \<open>The integers that the interpreter converts both ways: at most 4300 decimal digits.\<close>

definition printable_int :: "int \<Rightarrow> bool" where
  "printable_int i \<longleftrightarrow> nat \<bar>i\<bar> < 10 ^ max_str_digits"

lemma length_dec_digits_max:
  "n < 10 ^ max_str_digits \<Longrightarrow> length (dec_digits n) \<le> max_str_digits"
proof (rule length_dec_digits)
  show "0 < max_str_digits" by (simp add: max_str_digits_def)
qed

text \<open>Any integer of up to a hundred digits is one of them.\<close>

lemma printable_intI: "\<bar>i\<bar> < 10 ^ 100 \<Longrightarrow> printable_int i"
proof -
  assume "\<bar>i\<bar> < 10 ^ 100"
  then have "nat \<bar>i\<bar> < 10 ^ 100" by (simp add: nat_less_iff)
  moreover have "(100::nat) \<le> max_str_digits" by (simp add: max_str_digits_def)
  then have "(10::nat) ^ 100 \<le> 10 ^ max_str_digits"
    by (rule power_increasing) (rule one_le_numeral)
  ultimately have "nat \<bar>i\<bar> < 10 ^ max_str_digits" by (rule less_le_trans)
  then show ?thesis by (simp add: printable_int_def)
qed

lemma printable_small: "\<bar>i\<bar> < 1000000000000 \<Longrightarrow> printable_int i"
  by (rule printable_intI) simp

lemma py_int_str_int:
  assumes "printable_int i"
  shows "py_int (str_int i) = Inr i"
proof (cases "i < 0")
  case True
  then have "length (dec_digits (nat (- i))) \<le> max_str_digits"
    using assms by (intro length_dec_digits_max) (simp add: printable_int_def)
  then have "py_int (45 # dec_digits (nat (- i))) = Inr (- dec_value (dec_digits (nat (- i))))"
    by (intro py_int_minus) (simp_all add: dec_digits_ascii)
  with True show ?thesis by (simp add: str_int_def dec_value_dec_digits)
next
  case False
  then have "length (dec_digits (nat i)) \<le> max_str_digits"
    using assms by (intro length_dec_digits_max) (simp add: printable_int_def)
  then have "py_int (dec_digits (nat i)) = Inr (dec_value (dec_digits (nat i)))"
    by (intro py_int_ascii) (simp_all add: dec_digits_ascii)
  with False show ?thesis by (simp add: str_int_def dec_value_dec_digits)
qed

lemma str_int_no_space: "c \<in> set (str_int i) \<Longrightarrow> \<not> isspace c"
  using dec_digits_ascii [of "nat i"] dec_digits_ascii [of "nat (- i)"]
  by (auto simp: str_int_def list_all_iff isspace_def is_ascii_digit_def split: if_splits)

lemma ws_field_str_int [simp]: "ws_field (str_int i)"
  by (auto simp: ws_field_def list_all_iff dest: str_int_no_space)

section \<open>Hexadecimal and \<open>repr\<close>\<close>

definition hex_char :: "int \<Rightarrow> int" where
  "hex_char d = (if d < 10 then 48 + d else 87 + d)"

text \<open>The last \<open>w\<close> hexadecimal digits: \<open>f"{n:02x}"\<close> when \<open>n\<close> fits.\<close>

fun hex_width :: "nat \<Rightarrow> int \<Rightarrow> pystr" where
  "hex_width 0 n = []"
| "hex_width (Suc w) n = hex_width w (n div 16) @ [hex_char (n mod 16)]"

lemma length_hex_width [simp]: "length (hex_width w n) = w"
  by (induction w arbitrary: n) auto

text \<open>One of the sixteen ASCII digits, in either case.\<close>

definition hex_digit :: "int \<Rightarrow> int option" where
  "hex_digit c =
     (if 97 \<le> c \<and> c \<le> 102 then Some (c - 87)
      else if 65 \<le> c \<and> c \<le> 70 then Some (c - 55)
      else if 48 \<le> c \<and> c \<le> 57 then Some (c - 48) else None)"

lemma hex_digit_hex_char: "0 \<le> d \<Longrightarrow> d < 16 \<Longrightarrow> hex_digit (hex_char d) = Some d"
  by (auto simp: hex_char_def hex_digit_def)

lemma hex_value_hex_char: "0 \<le> d \<Longrightarrow> d < 16 \<Longrightarrow> hex_value (hex_char d) = Some d"
  by (auto simp: hex_char_def hex_value_def decimal_value_ascii is_ascii_digit_def)

lemma hex_char_inj: "0 \<le> d \<Longrightarrow> d < 16 \<Longrightarrow> 0 \<le> e \<Longrightarrow> e < 16 \<Longrightarrow> hex_char d = hex_char e \<longleftrightarrow> d = e"
  by (auto simp: hex_char_def)

lemma hex_width_inj:
  "0 \<le> m \<Longrightarrow> m < 16 ^ w \<Longrightarrow> 0 \<le> n \<Longrightarrow> n < 16 ^ w \<Longrightarrow> hex_width w m = hex_width w n \<Longrightarrow> m = n"
proof (induction w arbitrary: m n)
  case (Suc w)
  have "m div 16 = n div 16"
    using Suc.prems by (intro Suc.IH) (auto simp: div_less_iff_less_mult)
  moreover have "m mod 16 = n mod 16"
    using Suc.prems by (auto simp: hex_char_inj)
  ultimately show ?case by (metis div_mult_mod_eq)
qed simp

definition repr_char :: "int \<Rightarrow> int \<Rightarrow> pystr" where
  "repr_char q c =
     (if c = q \<or> c = 92 then [92, c]
      else if c = 9 then [92, 116]
      else if c = 10 then [92, 110]
      else if c = 13 then [92, 114]
      else if isprintable_char c then [c]
      else if c < 256 then [92, 120] @ hex_width 2 c
      else if c < 65536 then [92, 117] @ hex_width 4 c
      else [92, 85] @ hex_width 8 c)"

text \<open>\<open>repr(s)\<close>: single quotes, unless the string holds a single and no double quote.\<close>

definition py_repr :: "pystr \<Rightarrow> pystr" where
  "py_repr s =
     (let q = (if 39 \<in> set s \<and> 34 \<notin> set s then 34 else 39)
      in q # concat (map (repr_char q) s) @ [q])"

end
