(* ===== verification/Py_Dict.thy ===== *)
theory Py_Dict
  imports Py_Base "HOL-Library.Multiset"
begin

text \<open>
  Dictionaries. The interface \<open>ordered_dict\<close> is what the program relies on when it builds a
  dictionary by assignments: what a lookup returns after an assignment and in which order the
  keys come. \<open>grouping\<close> extends it to dictionaries of lists, filled by the idiom
  \<open>d.setdefault(k, []).append(v)\<close>, and proves once what the filled dictionary holds. The model's
  dictionaries are association lists; they interpret both interfaces, and the scorer, the
  socket collector and the decoders use the resulting facts.
\<close>

section \<open>The interface\<close>

locale ordered_dict =
  fixes get :: "'d \<Rightarrow> 'k \<Rightarrow> 'v option"
    and put :: "'k \<Rightarrow> 'v \<Rightarrow> 'd \<Rightarrow> 'd"
    and keys :: "'d \<Rightarrow> 'k list"
    and none :: 'd
  assumes get_none: "get none k = None"
    and get_put: "get (put k v d) = (get d)(k \<mapsto> v)"
    and keys_none: "keys none = []"
    and keys_put: "keys (put k v d) = (if k \<in> set (keys d) then keys d else keys d @ [k])"
begin

definition putall :: "('a \<Rightarrow> 'k) \<Rightarrow> ('a \<Rightarrow> 'v) \<Rightarrow> 'a list \<Rightarrow> 'd \<Rightarrow> 'd" where
  "putall kf vf xs d = fold (\<lambda>x. put (kf x) (vf x)) xs d"

lemma putall_snoc: "putall kf vf (xs @ [x]) d = put (kf x) (vf x) (putall kf vf xs d)"
  by (simp add: putall_def)

text \<open>The last assignment to a key decides its value.\<close>

lemma get_putall:
  "get (putall kf vf xs d) k =
     (case filter (\<lambda>x. kf x = k) xs of [] \<Rightarrow> get d k | ys \<Rightarrow> Some (vf (last ys)))"
proof (induction xs rule: rev_induct)
  case Nil
  show ?case by (simp add: putall_def)
next
  case (snoc x xs)
  then show ?case
    by (cases "filter (\<lambda>x. kf x = k) xs") (auto simp: putall_snoc get_put)
qed

lemma keys_putall_set: "set (keys (putall kf vf xs d)) = set (keys d) \<union> kf ` set xs"
  by (induction xs rule: rev_induct) (auto simp: putall_def keys_put)

lemma keys_putall_distinct: "distinct (keys d) \<Longrightarrow> distinct (keys (putall kf vf xs d))"
  by (induction xs rule: rev_induct) (auto simp: putall_def keys_put)

lemma keys_putall_fresh:
  "distinct (map kf xs) \<Longrightarrow> keys (putall kf vf xs none) = map kf xs"
proof (induction xs rule: rev_induct)
  case (snoc x xs)
  then show ?case by (auto simp: putall_snoc keys_put)
qed (simp add: putall_def keys_none)

end

locale grouping = ordered_dict get put keys none
  for get :: "'d \<Rightarrow> 'k \<Rightarrow> 'w list option"
    and put :: "'k \<Rightarrow> 'w list \<Rightarrow> 'd \<Rightarrow> 'd"
    and keys :: "'d \<Rightarrow> 'k list"
    and none :: 'd
begin

definition push :: "'k \<Rightarrow> 'w \<Rightarrow> 'd \<Rightarrow> 'd" where
  "push k w d = put k ((case get d k of None \<Rightarrow> [] | Some ws \<Rightarrow> ws) @ [w]) d"

definition pushall :: "('a \<Rightarrow> 'k) \<Rightarrow> ('a \<Rightarrow> 'w) \<Rightarrow> 'a list \<Rightarrow> 'd" where
  "pushall kf vf xs = fold (\<lambda>x. push (kf x) (vf x)) xs none"

lemma pushall_snoc: "pushall kf vf (xs @ [x]) = push (kf x) (vf x) (pushall kf vf xs)"
  by (simp add: pushall_def)

text \<open>A key's list holds the values of its elements, in their order.\<close>

lemma get_pushall:
  "get (pushall kf vf xs) k =
     (if k \<in> kf ` set xs then Some (map vf (filter (\<lambda>x. kf x = k) xs)) else None)"
proof (induction xs rule: rev_induct)
  case Nil
  show ?case by (simp add: pushall_def get_none)
next
  case (snoc x xs)
  have "filter (\<lambda>x. kf x = k) xs = []" if "k \<notin> kf ` set xs"
    using that by (auto simp: filter_empty_conv)
  with snoc show ?case by (auto simp: pushall_snoc push_def get_put)
qed

lemma keys_pushall_set: "set (keys (pushall kf vf xs)) = kf ` set xs"
  by (induction xs rule: rev_induct) (auto simp: pushall_def push_def keys_put keys_none)

lemma keys_pushall_distinct: "distinct (keys (pushall kf vf xs))"
  by (induction xs rule: rev_induct) (auto simp: pushall_def push_def keys_put keys_none)

end

section \<open>Association lists\<close>

text \<open>\<open>{k(x): v(x) for x in xs}\<close> and the grouping loop, as the program's loops build them.\<close>

definition dict_of :: "('a \<Rightarrow> 'k) \<Rightarrow> ('a \<Rightarrow> 'v) \<Rightarrow> 'a list \<Rightarrow> ('k \<times> 'v) list" where
  "dict_of kf vf xs = fold (\<lambda>x. AList.update (kf x) (vf x)) xs []"

definition dappend :: "'k \<Rightarrow> 'w \<Rightarrow> ('k \<times> 'w list) list \<Rightarrow> ('k \<times> 'w list) list" where
  "dappend k w d = AList.update k ((case map_of d k of None \<Rightarrow> [] | Some ws \<Rightarrow> ws) @ [w]) d"

definition group_by :: "('a \<Rightarrow> 'k) \<Rightarrow> ('a \<Rightarrow> 'w) \<Rightarrow> 'a list \<Rightarrow> ('k \<times> 'w list) list" where
  "group_by kf vf xs = fold (\<lambda>x. dappend (kf x) (vf x)) xs []"

interpretation alist: ordered_dict map_of AList.update "map fst" "[]"
  by unfold_locales (auto simp: update_conv' update_keys)

interpretation agroup: grouping map_of AList.update "map fst" "[]"
  by unfold_locales

lemma dict_of_putall: "dict_of kf vf xs = alist.putall kf vf xs []"
  by (simp add: dict_of_def alist.putall_def)

lemma dappend_push: "dappend = agroup.push"
  by (intro ext) (simp add: agroup.push_def dappend_def)

lemma group_by_pushall: "group_by kf vf xs = agroup.pushall kf vf xs"
  by (simp add: group_by_def agroup.pushall_def dappend_push)

lemma map_of_dict_of:
  "map_of (dict_of kf vf xs) k =
     (case filter (\<lambda>x. kf x = k) xs of [] \<Rightarrow> None | ys \<Rightarrow> Some (vf (last ys)))"
  by (simp add: dict_of_putall alist.get_putall split: list.split)

lemma fst_dict_of_set: "fst ` set (dict_of kf vf xs) = kf ` set xs"
  using alist.keys_putall_set [of kf vf xs "[]"] by (simp add: dict_of_putall)

lemma distinct_fst_dict_of: "distinct (map fst (dict_of kf vf xs))"
  by (simp add: dict_of_putall alist.keys_putall_distinct)

lemma update_fresh: "k \<notin> fst ` set d \<Longrightarrow> AList.update k v d = d @ [(k, v)]"
  by (induction d) auto

lemma dict_of_fresh: "distinct (map kf xs) \<Longrightarrow> dict_of kf vf xs = map (\<lambda>x. (kf x, vf x)) xs"
proof (induction xs rule: rev_induct)
  case (snoc x xs)
  then have IH: "dict_of kf vf xs = map (\<lambda>x. (kf x, vf x)) xs" by simp
  have "dict_of kf vf (xs @ [x]) = AList.update (kf x) (vf x) (dict_of kf vf xs)"
    by (simp add: dict_of_def)
  also have "\<dots> = dict_of kf vf xs @ [(kf x, vf x)]"
    using snoc.prems by (intro update_fresh) (auto simp: fst_dict_of_set)
  finally show ?case by (simp add: IH)
qed (simp add: dict_of_def)

lemma map_of_group_by:
  "map_of (group_by kf vf xs) k =
     (if k \<in> kf ` set xs then Some (map vf (filter (\<lambda>x. kf x = k) xs)) else None)"
  by (simp only: group_by_pushall agroup.get_pushall)

lemma fst_group_by_set: "fst ` set (group_by kf vf xs) = kf ` set xs"
  using agroup.keys_pushall_set [of kf vf xs] by (simp add: group_by_pushall)

lemma distinct_fst_group_by: "distinct (map fst (group_by kf vf xs))"
  by (simp only: group_by_pushall agroup.keys_pushall_distinct)

lemma group_by_entry:
  assumes "(k, ws) \<in> set (group_by kf vf xs)"
  shows "ws = map vf (filter (\<lambda>x. kf x = k) xs)" and "k \<in> kf ` set xs"
proof -
  have "map_of (group_by kf vf xs) k = Some ws"
    using assms by (simp add: distinct_fst_group_by)
  then show "ws = map vf (filter (\<lambda>x. kf x = k) xs)" and "k \<in> kf ` set xs"
    by (auto simp: map_of_group_by split: if_splits)
qed

lemma group_by_entryI:
  "k \<in> kf ` set xs \<Longrightarrow> (k, map vf (filter (\<lambda>x. kf x = k) xs)) \<in> set (group_by kf vf xs)"
  by (rule map_of_SomeD) (simp add: map_of_group_by)

text \<open>Grouping is a partition: every element lands in one group, once.\<close>

definition ungroup :: "('k \<times> 'w list) list \<Rightarrow> ('k \<times> 'w) list" where
  "ungroup d = concat (map (\<lambda>(k, ws). map (Pair k) ws) d)"

definition dextend :: "'k \<Rightarrow> 'w list \<Rightarrow> ('k \<times> 'w list) list \<Rightarrow> ('k \<times> 'w list) list" where
  "dextend k ws d = AList.update k ((case map_of d k of None \<Rightarrow> [] | Some vs \<Rightarrow> vs) @ ws) d"

lemma mset_ungroup_dextend:
  "mset (ungroup (dextend k ws d)) = mset (ungroup d) + image_mset (Pair k) (mset ws)"
  by (induction d) (auto simp: ungroup_def dextend_def split: if_splits)

lemma dappend_dextend: "dappend k w d = dextend k [w] d"
  by (simp add: dappend_def dextend_def)

lemma mset_ungroup_group_by:
  "mset (ungroup (group_by kf vf xs)) = image_mset (\<lambda>x. (kf x, vf x)) (mset xs)"
proof (induction xs rule: rev_induct)
  case (snoc x xs)
  have "group_by kf vf (xs @ [x]) = dextend (kf x) [vf x] (group_by kf vf xs)"
    by (simp add: group_by_def dappend_dextend)
  with snoc show ?case by (simp add: mset_ungroup_dextend)
qed (simp add: group_by_def ungroup_def)

lemma map_of_dextend: "k \<in> fst ` set d \<Longrightarrow>
    map_of (dextend k ws d) = (map_of d)(k \<mapsto> the (map_of d k) @ ws)"
  by (auto simp: dextend_def update_conv' split: option.split)
    (metis map_of_eq_None_iff imageI fst_conv)

lemma fst_dextend: "k \<in> fst ` set d \<Longrightarrow> map fst (dextend k ws d) = map fst d"
  by (auto simp: dextend_def update_keys)

lemma group_by_Nil [simp]: "group_by kf vf [] = []"
  by (simp add: group_by_def)

lemma map_of_map_inj:
  "(\<And>a b. f a = f b \<Longrightarrow> a = b) \<Longrightarrow>
   map_of (map (\<lambda>(k, v). (f k, g v)) d) (f k) = map_option g (map_of d k)"
  by (induction d) auto

lemma map_of_dict_of_last:
  "kf x \<notin> kf ` set after \<Longrightarrow>
   map_of (dict_of kf vf (before @ x # after)) (kf x) = Some (vf x)"
proof -
  assume "kf x \<notin> kf ` set after"
  then have "filter (\<lambda>y. kf y = kf x) after = []" by (induction after) auto
  then show ?thesis
    by (cases "filter (\<lambda>y. kf y = kf x) before") (simp_all add: map_of_dict_of)
qed

end
