(* ===== verification/Py_Json.thy ===== *)
theory Py_Json
  imports Py_Num Py_Dict
begin

text \<open>
  The values that \<open>json.loads\<close> builds and \<open>json.dumps\<close> writes, and what the program does with
  them: subscripts, \<open>.get\<close>, \<open>list()\<close>, \<open>dict()\<close>, truth, arithmetic. Each operation fails the way
  Python fails on a value of another type. Numbers with a fraction or an exponent are not
  modelled: no field of a snapshot holds one.

  The interface \<open>json_codec\<close> is the contract between a class of \<open>models.py\<close> and the code that
  stores and reloads it: an encoder, a decoder and the normal form that a value has after one
  round trip. Lists of encoded values inherit the contract.
\<close>

datatype json =
    JNull
  | JBool bool
  | JInt int
  | JStr pystr
  | JList "json list"
  | JDict "(pystr \<times> json) list"

section \<open>Operations on values\<close>

text \<open>\<open>d[k]\<close> for a string key.\<close>

fun item :: "json \<Rightarrow> pystr \<Rightarrow> json result" where
  "item (JDict d) k = (case map_of d k of None \<Rightarrow> Inl KeyError | Some v \<Rightarrow> Inr v)"
| "item _ k = Inl TypeError"

text \<open>\<open>d.get(k)\<close>: a missing key gives \<open>JNull\<close>.\<close>

fun get_item :: "json \<Rightarrow> pystr \<Rightarrow> json result" where
  "get_item (JDict d) k = Inr (case map_of d k of None \<Rightarrow> JNull | Some v \<Rightarrow> v)"
| "get_item _ k = Inl AttributeError"

text \<open>\<open>d.items()\<close> and \<open>dict(d)\<close>; \<open>dict()\<close> of a sequence of pairs is outside the contract.\<close>

fun dict_items :: "json \<Rightarrow> (pystr \<times> json) list result" where
  "dict_items (JDict d) = Inr d"
| "dict_items _ = Inl AttributeError"

fun py_dict :: "json \<Rightarrow> (pystr \<times> json) list result" where
  "py_dict (JDict d) = Inr d"
| "py_dict (JList xs) = (if xs = [] then Inr [] else Inl OutOfContract)"
| "py_dict (JStr s) = (if s = [] then Inr [] else Inl ValueError)"
| "py_dict _ = Inl TypeError"

text \<open>\<open>list(v)\<close>: a string gives its characters, a dictionary its keys.\<close>

fun py_list :: "json \<Rightarrow> json list result" where
  "py_list (JList xs) = Inr xs"
| "py_list (JStr s) = Inr (map (\<lambda>c. JStr [c]) s)"
| "py_list (JDict d) = Inr (map (\<lambda>e. JStr (fst e)) d)"
| "py_list _ = Inl TypeError"

fun truthy :: "json \<Rightarrow> bool" where
  "truthy JNull = False"
| "truthy (JBool b) = b"
| "truthy (JInt i) = (i \<noteq> 0)"
| "truthy (JStr s) = (s \<noteq> [])"
| "truthy (JList xs) = (xs \<noteq> [])"
| "truthy (JDict d) = (d \<noteq> [])"

text \<open>An operand of integer arithmetic: \<open>bool\<close> is a subclass of \<open>int\<close>.\<close>

fun as_number :: "json \<Rightarrow> int result" where
  "as_number (JInt i) = Inr i"
| "as_number (JBool b) = Inr (if b then 1 else 0)"
| "as_number _ = Inl TypeError"

text \<open>Values stored into an annotated field: another type is outside the contract.\<close>

fun as_int :: "json \<Rightarrow> int result" where
  "as_int (JInt i) = Inr i"
| "as_int _ = Inl OutOfContract"

fun as_str :: "json \<Rightarrow> pystr result" where
  "as_str (JStr s) = Inr s"
| "as_str _ = Inl OutOfContract"

fun as_bool :: "json \<Rightarrow> bool result" where
  "as_bool (JBool b) = Inr b"
| "as_bool _ = Inl OutOfContract"

definition opt_of :: "(json \<Rightarrow> 'a result) \<Rightarrow> json \<Rightarrow> 'a option result" where
  "opt_of conv v = (if v = JNull then Inr None else bindE (conv v) (\<lambda>x. Inr (Some x)))"

definition list_of :: "(json \<Rightarrow> 'a result) \<Rightarrow> json \<Rightarrow> 'a list result" where
  "list_of conv v = bindE (py_list v) (mapE conv)"

definition fld :: "json \<Rightarrow> string \<Rightarrow> (json \<Rightarrow> 'a result) \<Rightarrow> 'a result" where
  "fld d k conv = bindE (item d (lit k)) conv"

definition opt_json :: "('a \<Rightarrow> json) \<Rightarrow> 'a option \<Rightarrow> json" where
  "opt_json enc x = (case x of None \<Rightarrow> JNull | Some y \<Rightarrow> enc y)"

definition ints_json :: "int list \<Rightarrow> json" where
  "ints_json xs = JList (map JInt xs)"

definition strs_json :: "pystr list \<Rightarrow> json" where
  "strs_json xs = JList (map JStr xs)"

text \<open>A dictionary display of the source, with literal keys.\<close>

definition ldict :: "(string \<times> 'v) list \<Rightarrow> (pystr \<times> 'v) list" where
  "ldict kvs = map (\<lambda>(k, v). (lit k, v)) kvs"

definition jobj :: "(string \<times> json) list \<Rightarrow> json" where
  "jobj kvs = JDict (ldict kvs)"

lemma map_of_ldict [simp]:
  "map_of (ldict []) k = None"
  "map_of (ldict ((k', v) # kvs)) k = (if lit k' = k then Some v else map_of (ldict kvs) k)"
  by (simp_all add: ldict_def)

lemma list_of_ints [simp]: "list_of as_int (ints_json xs) = Inr xs"
  by (simp add: list_of_def ints_json_def)

lemma list_of_strs [simp]: "list_of as_str (strs_json xs) = Inr xs"
  by (simp add: list_of_def strs_json_def)

lemma opt_json_simps [simp]:
  "opt_json enc None = JNull"
  "opt_json enc (Some x) = enc x"
  by (simp_all add: opt_json_def)

lemma opt_of_JNull [simp]: "opt_of conv JNull = Inr None"
  by (simp add: opt_of_def)

lemma opt_of_opt_json:
  "(\<And>y. enc y \<noteq> JNull \<and> conv (enc y) = Inr y) \<Longrightarrow> opt_of conv (opt_json enc x) = Inr x"
  by (cases x) (simp_all add: opt_of_def)

lemma ints_json_not_null [simp]: "ints_json xs \<noteq> JNull"
  by (simp add: ints_json_def)

lemma opt_of_str [simp]: "opt_of as_str (opt_json JStr x) = Inr x"
  by (rule opt_of_opt_json) simp

lemma opt_of_int [simp]: "opt_of as_int (opt_json JInt x) = Inr x"
  by (rule opt_of_opt_json) simp

lemma opt_of_ints [simp]: "opt_of (list_of as_int) (opt_json ints_json x) = Inr x"
  by (rule opt_of_opt_json) simp

lemma item_jobj [simp]:
  "item (jobj []) k = Inl KeyError"
  "item (jobj ((k', v) # kvs)) k = (if lit k' = k then Inr v else item (jobj kvs) k)"
  by (simp_all add: jobj_def)

lemma ldict_eq_Nil_iff [simp]: "ldict kvs = [] \<longleftrightarrow> kvs = []"
  by (simp add: ldict_def)

lemma get_item_jobj [simp]:
  "get_item (jobj []) k = Inr JNull"
  "get_item (jobj ((k', v) # kvs)) k = (if lit k' = k then Inr v else get_item (jobj kvs) k)"
  by (simp_all add: jobj_def)

text \<open>\<open>repr\<close> of a value, as formatting shows a container.\<close>

fun json_repr :: "json \<Rightarrow> pystr" where
  "json_repr JNull = lit ''None''"
| "json_repr (JBool b) = (if b then lit ''True'' else lit ''False'')"
| "json_repr (JInt i) = str_int i"
| "json_repr (JStr s) = py_repr s"
| "json_repr (JList xs) = lit ''['' @ join (lit '', '') (map json_repr xs) @ lit '']''"
| "json_repr (JDict d) =
     lit ''{'' @ join (lit '', '') (map (\<lambda>(k, v). py_repr k @ lit '': '' @ json_repr v) d) @ lit ''}''"

text \<open>\<open>str\<close> of a value: only a string differs from its \<open>repr\<close>.\<close>

definition json_str :: "json \<Rightarrow> pystr" where
  "json_str v = (case v of JStr s \<Rightarrow> s | _ \<Rightarrow> json_repr v)"

section \<open>Encoders and decoders\<close>

locale json_codec =
  fixes enc :: "'a \<Rightarrow> json"
    and dec :: "json \<Rightarrow> 'a result"
    and norm :: "'a \<Rightarrow> 'a"
  assumes dec_enc: "dec (enc x) = Inr (norm x)"
    and enc_norm: "enc (norm x) = enc x"
begin

text \<open>What was reloaded is written as it was written first, and reloads to itself.\<close>

lemma reencode: "dec (enc x) = Inr y \<Longrightarrow> enc y = enc x"
  by (auto simp: dec_enc enc_norm)

lemma norm_idem: "norm (norm x) = norm x"
  using dec_enc [of x] dec_enc [of "norm x"] by (simp add: enc_norm)

lemma dec_list: "mapE dec (map enc xs) = Inr (map norm xs)"
  by (induction xs) (simp_all add: dec_enc)

lemma list_of_dec: "list_of dec (JList (map enc xs)) = Inr (map norm xs)"
  using dec_list [of xs] by (simp add: list_of_def)

end

end
