(* ===== verification/Snapshot_Model.thy ===== *)
theory Snapshot_Model
  imports Py_Json
begin

text \<open>
  \<open>models.py\<close>: the entities of a snapshot with their \<open>to_dict\<close> and \<open>from_dict\<close>.
  A dataclass is a record, a string enumeration a datatype with its value strings. The model
  shows the round trip of every class: reloading what was stored gives the same value, up to
  the two sortings that \<open>to_dict\<close> performs.
\<close>

section \<open>Enumerations\<close>

datatype trust_level = TL_LOW | TL_MEDIUM | TL_HIGH

fun trust_value :: "trust_level \<Rightarrow> pystr" where
  "trust_value TL_LOW = lit ''LOW''"
| "trust_value TL_MEDIUM = lit ''MEDIUM''"
| "trust_value TL_HIGH = lit ''HIGH''"

datatype status = ST_OK | ST_PARTIAL | ST_FAILED

fun status_value :: "status \<Rightarrow> pystr" where
  "status_value ST_OK = lit ''OK''"
| "status_value ST_PARTIAL = lit ''PARTIAL''"
| "status_value ST_FAILED = lit ''FAILED''"

datatype error_kind = EK_VANISHED | EK_DENIED | EK_MALFORMED | EK_IO_ERROR

fun error_kind_value :: "error_kind \<Rightarrow> pystr" where
  "error_kind_value EK_VANISHED = lit ''vanished''"
| "error_kind_value EK_DENIED = lit ''denied''"
| "error_kind_value EK_MALFORMED = lit ''malformed''"
| "error_kind_value EK_IO_ERROR = lit ''io_error''"

text \<open>\<open>Enum(value)\<close>: the member with that value, else \<open>ValueError\<close>.\<close>

definition enum_of :: "('e \<Rightarrow> pystr) \<Rightarrow> 'e list \<Rightarrow> json \<Rightarrow> 'e result" where
  "enum_of val es v =
     (case v of
        JStr s \<Rightarrow> (case find (\<lambda>e. val e = s) es of None \<Rightarrow> Inl ValueError | Some e \<Rightarrow> Inr e)
      | _ \<Rightarrow> Inl ValueError)"

definition trust_of :: "json \<Rightarrow> trust_level result" where
  "trust_of = enum_of trust_value [TL_LOW, TL_MEDIUM, TL_HIGH]"

definition status_of :: "json \<Rightarrow> status result" where
  "status_of = enum_of status_value [ST_OK, ST_PARTIAL, ST_FAILED]"

definition error_kind_of :: "json \<Rightarrow> error_kind result" where
  "error_kind_of = enum_of error_kind_value [EK_VANISHED, EK_DENIED, EK_MALFORMED, EK_IO_ERROR]"

lemma trust_of_value [simp]: "trust_of (JStr (trust_value t)) = Inr t"
  by (cases t) (simp_all add: trust_of_def enum_of_def)

lemma status_of_value [simp]: "status_of (JStr (status_value t)) = Inr t"
  by (cases t) (simp_all add: status_of_def enum_of_def)

lemma error_kind_of_value [simp]: "error_kind_of (JStr (error_kind_value t)) = Inr t"
  by (cases t) (simp_all add: error_kind_of_def enum_of_def)

section \<open>Entities\<close>

record collection_error =
  ce_entity_id :: "int option"
  ce_kind :: error_kind
  ce_detail :: pystr

definition error_to_dict :: "collection_error \<Rightarrow> json" where
  "error_to_dict e = jobj
     [(''entity_id'', opt_json JInt (ce_entity_id e)),
      (''kind'', JStr (error_kind_value (ce_kind e))),
      (''detail'', JStr (ce_detail e))]"

definition error_from_dict :: "json \<Rightarrow> collection_error result" where
  "error_from_dict d =
     bindE (fld d ''entity_id'' (opt_of as_int)) (\<lambda>i.
     bindE (fld d ''kind'' error_kind_of) (\<lambda>k.
     bindE (fld d ''detail'' as_str) (\<lambda>t.
     Inr \<lparr>ce_entity_id = i, ce_kind = k, ce_detail = t\<rparr>)))"

record process_entity =
  pe_pid :: int
  pe_ppid :: int
  pe_comm :: pystr
  pe_state :: pystr
  pe_flags :: int
  pe_num_threads :: int
  pe_starttime_ticks :: int
  pe_cmdline :: "pystr list"
  pe_exe :: "pystr option"
  pe_uid :: "int list option"
  pe_gid :: "int list option"
  pe_partial :: "pystr list"

definition process_to_dict :: "process_entity \<Rightarrow> json" where
  "process_to_dict p = jobj
     [(''pid'', JInt (pe_pid p)),
      (''ppid'', JInt (pe_ppid p)),
      (''comm'', JStr (pe_comm p)),
      (''state'', JStr (pe_state p)),
      (''flags'', JInt (pe_flags p)),
      (''num_threads'', JInt (pe_num_threads p)),
      (''starttime_ticks'', JInt (pe_starttime_ticks p)),
      (''cmdline'', strs_json (pe_cmdline p)),
      (''exe'', opt_json JStr (pe_exe p)),
      (''uid'', opt_json ints_json (pe_uid p)),
      (''gid'', opt_json ints_json (pe_gid p)),
      (''partial'', strs_json (sort (pe_partial p)))]"

definition process_from_dict :: "json \<Rightarrow> process_entity result" where
  "process_from_dict d =
     bindE (fld d ''pid'' as_int) (\<lambda>pid.
     bindE (fld d ''ppid'' as_int) (\<lambda>ppid.
     bindE (fld d ''comm'' as_str) (\<lambda>comm.
     bindE (fld d ''state'' as_str) (\<lambda>state.
     bindE (fld d ''flags'' as_int) (\<lambda>flags.
     bindE (fld d ''num_threads'' as_int) (\<lambda>num_threads.
     bindE (fld d ''starttime_ticks'' as_int) (\<lambda>starttime_ticks.
     bindE (fld d ''cmdline'' (list_of as_str)) (\<lambda>cmdline.
     bindE (fld d ''exe'' (opt_of as_str)) (\<lambda>exe.
     bindE (fld d ''uid'' (opt_of (list_of as_int))) (\<lambda>uid.
     bindE (fld d ''gid'' (opt_of (list_of as_int))) (\<lambda>gid.
     bindE (fld d ''partial'' (list_of as_str)) (\<lambda>partial.
     Inr \<lparr>pe_pid = pid, pe_ppid = ppid, pe_comm = comm, pe_state = state, pe_flags = flags,
          pe_num_threads = num_threads, pe_starttime_ticks = starttime_ticks,
          pe_cmdline = cmdline, pe_exe = exe, pe_uid = uid, pe_gid = gid,
          pe_partial = partial\<rparr>))))))))))))"

record sweep_entity =
  sw_tgid :: int
  sw_status_readable :: bool
  sw_comm :: "pystr option"

definition sweep_to_dict :: "sweep_entity \<Rightarrow> json" where
  "sweep_to_dict e = jobj
     [(''tgid'', JInt (sw_tgid e)),
      (''status_readable'', JBool (sw_status_readable e)),
      (''comm'', opt_json JStr (sw_comm e))]"

text \<open>
  This \<open>from_dict\<close>, like those of the other classes, checks that the keys exist and stores whatever
  value stands there; a task with the \<open>comm\<close> 5 is loaded, and fails where the text is needed. The
  record of the model has only the declared types, so reading stops with \<open>OutOfContract\<close> instead.
\<close>

definition sweep_from_dict :: "json \<Rightarrow> sweep_entity result" where
  "sweep_from_dict d =
     bindE (fld d ''tgid'' as_int) (\<lambda>tgid.
     bindE (fld d ''status_readable'' as_bool) (\<lambda>readable.
     bindE (bindE (get_item d (lit ''comm'')) (opt_of as_str)) (\<lambda>comm.
     Inr \<lparr>sw_tgid = tgid, sw_status_readable = readable, sw_comm = comm\<rparr>)))"

record module_entity =
  mo_name :: pystr
  mo_size :: int
  mo_refcount :: int
  mo_dependents :: "pystr list"
  mo_state :: pystr
  mo_base_addr :: pystr
  mo_taint :: "pystr option"

definition module_to_dict :: "module_entity \<Rightarrow> json" where
  "module_to_dict m = jobj
     [(''name'', JStr (mo_name m)), (''size'', JInt (mo_size m)),
      (''refcount'', JInt (mo_refcount m)),
      (''dependents'', strs_json (mo_dependents m)), (''state'', JStr (mo_state m)),
      (''base_addr'', JStr (mo_base_addr m)), (''taint'', opt_json JStr (mo_taint m))]"

definition module_from_dict :: "json \<Rightarrow> module_entity result" where
  "module_from_dict d =
     bindE (fld d ''name'' as_str) (\<lambda>name.
     bindE (fld d ''size'' as_int) (\<lambda>size.
     bindE (fld d ''refcount'' as_int) (\<lambda>refcount.
     bindE (fld d ''dependents'' (list_of as_str)) (\<lambda>dependents.
     bindE (fld d ''state'' as_str) (\<lambda>state.
     bindE (fld d ''base_addr'' as_str) (\<lambda>base_addr.
     bindE (fld d ''taint'' (opt_of as_str)) (\<lambda>taint.
     Inr \<lparr>mo_name = name, mo_size = size, mo_refcount = refcount, mo_dependents = dependents,
          mo_state = state, mo_base_addr = base_addr, mo_taint = taint\<rparr>)))))))"

record hook_entity =
  hk_function :: pystr
  hk_hook_type :: pystr
  hk_callback :: "pystr option"
  hk_owner_module :: "pystr option"

definition hook_to_dict :: "hook_entity \<Rightarrow> json" where
  "hook_to_dict h = jobj
     [(''function'', JStr (hk_function h)), (''hook_type'', JStr (hk_hook_type h)),
      (''callback'', opt_json JStr (hk_callback h)),
      (''owner_module'', opt_json JStr (hk_owner_module h))]"

definition hook_from_dict :: "json \<Rightarrow> hook_entity result" where
  "hook_from_dict d =
     bindE (fld d ''function'' as_str) (\<lambda>f.
     bindE (fld d ''hook_type'' as_str) (\<lambda>t.
     bindE (fld d ''callback'' (opt_of as_str)) (\<lambda>c.
     bindE (fld d ''owner_module'' (opt_of as_str)) (\<lambda>m.
     Inr \<lparr>hk_function = f, hk_hook_type = t, hk_callback = c, hk_owner_module = m\<rparr>))))"

record socket_entity =
  so_inode :: int
  so_kind :: pystr
  so_state :: "pystr option"
  so_local :: "pystr option"
  so_remote :: "pystr option"
  so_uid :: "int option"
  so_in_table :: bool
  so_owner_pids :: "int list"

definition socket_to_dict :: "socket_entity \<Rightarrow> json" where
  "socket_to_dict e = jobj
     [(''inode'', JInt (so_inode e)), (''kind'', JStr (so_kind e)),
      (''state'', opt_json JStr (so_state e)), (''local'', opt_json JStr (so_local e)),
      (''remote'', opt_json JStr (so_remote e)), (''uid'', opt_json JInt (so_uid e)),
      (''in_table'', JBool (so_in_table e)),
      (''owner_pids'', ints_json (sort (so_owner_pids e)))]"

definition socket_from_dict :: "json \<Rightarrow> socket_entity result" where
  "socket_from_dict d =
     bindE (fld d ''inode'' as_int) (\<lambda>inode.
     bindE (fld d ''kind'' as_str) (\<lambda>kind.
     bindE (fld d ''state'' (opt_of as_str)) (\<lambda>state.
     bindE (fld d ''local'' (opt_of as_str)) (\<lambda>local.
     bindE (fld d ''remote'' (opt_of as_str)) (\<lambda>remote.
     bindE (fld d ''uid'' (opt_of as_int)) (\<lambda>uid.
     bindE (fld d ''in_table'' as_bool) (\<lambda>in_table.
     bindE (fld d ''owner_pids'' (list_of as_int)) (\<lambda>owner_pids.
     Inr \<lparr>so_inode = inode, so_kind = kind, so_state = state, so_local = local,
          so_remote = remote, so_uid = uid, so_in_table = in_table,
          so_owner_pids = owner_pids\<rparr>))))))))"

text \<open>Every class keeps the contract; two of them sort one list on the way out.\<close>

interpretation error_codec: json_codec error_to_dict error_from_dict "\<lambda>e. e"
  by unfold_locales (simp_all add: error_to_dict_def error_from_dict_def fld_def)

interpretation process_codec: json_codec process_to_dict process_from_dict
  "\<lambda>p. p\<lparr>pe_partial := sort (pe_partial p)\<rparr>"
  by unfold_locales (simp_all add: process_to_dict_def process_from_dict_def fld_def)

interpretation sweep_codec: json_codec sweep_to_dict sweep_from_dict "\<lambda>e. e"
  by unfold_locales (simp_all add: sweep_to_dict_def sweep_from_dict_def fld_def)

interpretation module_codec: json_codec module_to_dict module_from_dict "\<lambda>m. m"
  by unfold_locales (simp_all add: module_to_dict_def module_from_dict_def fld_def)

interpretation hook_codec: json_codec hook_to_dict hook_from_dict "\<lambda>h. h"
  by unfold_locales (simp_all add: hook_to_dict_def hook_from_dict_def fld_def)

interpretation socket_codec: json_codec socket_to_dict socket_from_dict
  "\<lambda>e. e\<lparr>so_owner_pids := sort (so_owner_pids e)\<rparr>"
  by unfold_locales (simp_all add: socket_to_dict_def socket_from_dict_def fld_def)

text \<open>What an observation stores per entity: the class depends on the collector.\<close>

datatype entity =
    EProcess process_entity
  | ESweep sweep_entity
  | EModule module_entity
  | EHook hook_entity
  | ESocket socket_entity

datatype entity_class = CProcess | CSweep | CModule | CHook | CSocket

fun entity_class_of :: "entity \<Rightarrow> entity_class" where
  "entity_class_of (EProcess _) = CProcess"
| "entity_class_of (ESweep _) = CSweep"
| "entity_class_of (EModule _) = CModule"
| "entity_class_of (EHook _) = CHook"
| "entity_class_of (ESocket _) = CSocket"

fun entity_to_dict :: "entity \<Rightarrow> json" where
  "entity_to_dict (EProcess p) = process_to_dict p"
| "entity_to_dict (ESweep e) = sweep_to_dict e"
| "entity_to_dict (EModule m) = module_to_dict m"
| "entity_to_dict (EHook h) = hook_to_dict h"
| "entity_to_dict (ESocket e) = socket_to_dict e"

fun entity_from_dict :: "entity_class \<Rightarrow> json \<Rightarrow> entity result" where
  "entity_from_dict CProcess d = bindE (process_from_dict d) (\<lambda>e. Inr (EProcess e))"
| "entity_from_dict CSweep d = bindE (sweep_from_dict d) (\<lambda>e. Inr (ESweep e))"
| "entity_from_dict CModule d = bindE (module_from_dict d) (\<lambda>e. Inr (EModule e))"
| "entity_from_dict CHook d = bindE (hook_from_dict d) (\<lambda>e. Inr (EHook e))"
| "entity_from_dict CSocket d = bindE (socket_from_dict d) (\<lambda>e. Inr (ESocket e))"

fun entity_norm :: "entity \<Rightarrow> entity" where
  "entity_norm (EProcess p) = EProcess (p\<lparr>pe_partial := sort (pe_partial p)\<rparr>)"
| "entity_norm (ESocket e) = ESocket (e\<lparr>so_owner_pids := sort (so_owner_pids e)\<rparr>)"
| "entity_norm e = e"

lemma entity_roundtrip:
  "entity_class_of e = c \<Longrightarrow> entity_from_dict c (entity_to_dict e) = Inr (entity_norm e)"
  by (cases e) (auto simp: process_codec.dec_enc sweep_codec.dec_enc module_codec.dec_enc
      hook_codec.dec_enc socket_codec.dec_enc)

lemma entity_to_dict_norm [simp]: "entity_to_dict (entity_norm e) = entity_to_dict e"
  by (cases e) (simp_all add: process_codec.enc_norm socket_codec.enc_norm)

lemma entity_class_of_norm [simp]: "entity_class_of (entity_norm e) = entity_class_of e"
  by (cases e) simp_all

text \<open>The table from collectors to entity types; \<open>None\<close> where only existence is recorded.\<close>

definition entity_types :: "pystr \<Rightarrow> entity_class option" where
  "entity_types c =
     (if c = lit ''procfs.processes'' then Some CProcess
      else if c = lit ''syscall_sweep.processes'' then Some CSweep
      else if c = lit ''procfs.modules'' then Some CModule
      else if c = lit ''kernel.module_evidence'' then None
      else if c = lit ''kernel.hooks'' then Some CHook
      else if c = lit ''procfs.sockets'' then Some CSocket
      else Some CProcess)"

definition string_id_collectors :: "pystr list" where
  "string_id_collectors =
     [lit ''procfs.modules'', lit ''kernel.hooks'', lit ''procfs.sockets'']"

section \<open>Entity ids\<close>

text \<open>An id is a number or a name. Python compares no number with a name.\<close>

datatype eid = IdInt int | IdStr pystr

instantiation eid :: linorder
begin

fun less_eq_eid :: "eid \<Rightarrow> eid \<Rightarrow> bool" where
  "less_eq_eid (IdInt i) (IdInt j) = (i \<le> j)"
| "less_eq_eid (IdInt i) (IdStr t) = True"
| "less_eq_eid (IdStr s) (IdInt j) = False"
| "less_eq_eid (IdStr s) (IdStr t) = (s \<le> t)"

definition less_eid :: "eid \<Rightarrow> eid \<Rightarrow> bool" where
  "less_eid x y \<longleftrightarrow> x \<le> y \<and> \<not> y \<le> x"

instance
proof
  fix x y z :: eid
  show "(x < y) = (x \<le> y \<and> \<not> y \<le> x)" by (simp add: less_eid_def)
  show "x \<le> x" by (cases x) simp_all
  show "x \<le> y \<Longrightarrow> y \<le> z \<Longrightarrow> x \<le> z" by (cases x; cases y; cases z) simp_all
  show "x \<le> y \<Longrightarrow> y \<le> x \<Longrightarrow> x = y" by (cases x; cases y) simp_all
  show "x \<le> y \<or> y \<le> x" by (cases x; cases y) auto
qed

end

fun is_int_id :: "eid \<Rightarrow> bool" where
  "is_int_id (IdInt _) = True"
| "is_int_id (IdStr _) = False"

text \<open>\<open>sorted\<close> of ids raises on a mixture, \<open>str\<close> prints one, and a stored id is read as it is.\<close>

definition sort_ids :: "eid list \<Rightarrow> eid list result" where
  "sort_ids ids =
     (if list_all is_int_id ids \<or> list_all (\<lambda>i. \<not> is_int_id i) ids then Inr (sort ids)
      else Inl TypeError)"

fun eid_str :: "eid \<Rightarrow> pystr" where
  "eid_str (IdInt i) = str_int i"
| "eid_str (IdStr s) = s"

fun eid_json :: "eid \<Rightarrow> json" where
  "eid_json (IdInt i) = JInt i"
| "eid_json (IdStr s) = JStr s"

fun as_eid :: "json \<Rightarrow> eid result" where
  "as_eid (JInt i) = Inr (IdInt i)"
| "as_eid (JStr s) = Inr (IdStr s)"
| "as_eid _ = Inl OutOfContract"

lemma as_eid_json [simp]: "as_eid (eid_json i) = Inr i"
  by (cases i) simp_all

definition cast_id :: "pystr \<Rightarrow> pystr \<Rightarrow> eid result" where
  "cast_id collector k =
     (if collector \<in> set string_id_collectors then Inr (IdStr k)
      else bindE (py_int k) (\<lambda>i. Inr (IdInt i)))"

end
