(* ===== verification/Snapshot_File.thy ===== *)
theory Snapshot_File
  imports Snapshot_Model
begin

text \<open>
  The upper half of \<open>models.py\<close>: observations, host facts, capture metadata, the snapshot and its
  schema gate. \<open>to_dict\<close> can raise (mixed ids cannot be sorted), \<open>from_dict\<close> raises on every
  missing key. The lemmas give the round trip of an observation and of a snapshot.
\<close>

section \<open>Observations\<close>

text \<open>
  \<open>from_dict\<close> stores every value as it comes, whatever the annotation of the field says. The
  duration is kept as such a raw value, because \<open>analyze\<close> prints it as it is. The model stops with
  \<open>OutOfContract\<close> where another field holds a value of an undeclared type: such a snapshot is not
  described here, and the theorems that need it name the declared types as a hypothesis.
\<close>

record observation =
  ob_collector :: pystr
  ob_collector_version :: pystr
  ob_view :: pystr
  ob_trust_level :: trust_level
  ob_status :: status
  ob_duration_ms :: json
  ob_entity_ids :: "eid list"
  ob_entities :: "(eid \<times> entity) list"
  ob_stats :: "(pystr \<times> json) list"
  ob_errors :: "collection_error list"
  ob_pass :: "pystr option"
  ob_extra :: "(pystr \<times> json) list option"

definition entities_json :: "(eid \<times> entity) list \<Rightarrow> json" where
  "entities_json es =
     JDict (dict_of (\<lambda>e. eid_str (fst e)) (\<lambda>e. entity_to_dict (snd e)) es)"

definition observation_to_dict :: "observation \<Rightarrow> json result" where
  "observation_to_dict o' =
     bindE (sort_ids (ob_entity_ids o')) (\<lambda>ids.
     Inr (jobj (
       [(''collector'', JStr (ob_collector o')),
        (''collector_version'', JStr (ob_collector_version o')),
        (''view'', JStr (ob_view o')),
        (''trust_level'', JStr (trust_value (ob_trust_level o'))),
        (''status'', JStr (status_value (ob_status o'))),
        (''duration_ms'', ob_duration_ms o'),
        (''entity_ids'', JList (map eid_json ids)),
        (''entities'', entities_json (ob_entities o')),
        (''stats'', JDict (ob_stats o')),
        (''errors'', JList (map error_to_dict (ob_errors o')))]
       @ (case ob_pass o' of None \<Rightarrow> [] | Some p \<Rightarrow> [(''pass'', JStr p)])
       @ (case ob_extra o' of None \<Rightarrow> [] | Some x \<Rightarrow> [(''extra'', JDict x)]))))"

definition entities_from_dict :: "pystr \<Rightarrow> json \<Rightarrow> (eid \<times> entity) list result" where
  "entities_from_dict collector v =
     (case entity_types collector of
        None \<Rightarrow> Inr []
      | Some c \<Rightarrow>
          bindE (dict_items v) (\<lambda>kvs.
          bindE (mapE (\<lambda>(k, e). bindE (cast_id collector k) (\<lambda>i.
                   bindE (entity_from_dict c e) (\<lambda>x. Inr (i, x)))) kvs) (\<lambda>es.
          Inr (dict_of fst snd es))))"

fun as_dict :: "json \<Rightarrow> (pystr \<times> json) list result" where
  "as_dict (JDict d) = Inr d"
| "as_dict _ = Inl OutOfContract"

text \<open>
  The source reads \<open>d["entities"]\<close> only for collectors with entities; the reads come in its order.
\<close>

definition observation_from_dict :: "json \<Rightarrow> observation result" where
  "observation_from_dict d =
     bindE (fld d ''collector'' as_str) (\<lambda>collector.
     bindE (if entity_types collector = None then Inr []
            else fld d ''entities'' (entities_from_dict collector)) (\<lambda>entities.
     bindE (fld d ''collector_version'' as_str) (\<lambda>version.
     bindE (fld d ''view'' as_str) (\<lambda>view.
     bindE (fld d ''trust_level'' trust_of) (\<lambda>trust.
     bindE (fld d ''status'' status_of) (\<lambda>status.
     bindE (fld d ''duration_ms'' Inr) (\<lambda>duration.
     bindE (fld d ''entity_ids'' (list_of as_eid)) (\<lambda>ids.
     bindE (fld d ''stats'' py_dict) (\<lambda>stats.
     bindE (fld d ''errors'' (list_of error_from_dict)) (\<lambda>errors.
     bindE (bindE (get_item d (lit ''pass'')) (opt_of as_str)) (\<lambda>pass.
     bindE (bindE (get_item d (lit ''extra'')) (opt_of as_dict)) (\<lambda>extra.
     Inr \<lparr>ob_collector = collector, ob_collector_version = version, ob_view = view,
          ob_trust_level = trust, ob_status = status, ob_duration_ms = duration,
          ob_entity_ids = ids, ob_entities = entities, ob_stats = stats, ob_errors = errors,
          ob_pass = pass, ob_extra = extra\<rparr>))))))))))))"

text \<open>
  What a collector of this program stores: ids of one type, entities of the collector's class
  under distinct keys that the reader's cast gives back. A numeric key is at most 4300 digits
  long, the bound of the interpreter's \<open>int()\<close>.
\<close>

fun key_ok :: "pystr \<Rightarrow> eid \<Rightarrow> bool" where
  "key_ok collector (IdInt i) \<longleftrightarrow> collector \<notin> set string_id_collectors \<and> printable_int i"
| "key_ok collector (IdStr s) \<longleftrightarrow> collector \<in> set string_id_collectors"

definition entities_ok :: "pystr \<Rightarrow> (eid \<times> entity) list \<Rightarrow> bool" where
  "entities_ok collector es \<longleftrightarrow>
     distinct (map fst es) \<and>
     list_all (\<lambda>(k, e). key_ok collector k \<and> entity_types collector = Some (entity_class_of e)) es"

definition observation_ok :: "observation \<Rightarrow> bool" where
  "observation_ok o' \<longleftrightarrow>
     (list_all is_int_id (ob_entity_ids o') \<or> list_all (\<lambda>i. \<not> is_int_id i) (ob_entity_ids o')) \<and>
     entities_ok (ob_collector o') (ob_entities o')"

text \<open>The value after one round trip.\<close>

definition entities_norm :: "(eid \<times> entity) list \<Rightarrow> (eid \<times> entity) list" where
  "entities_norm es = map (\<lambda>(k, e). (k, entity_norm e)) es"

definition observation_norm :: "observation \<Rightarrow> observation" where
  "observation_norm o' =
     o'\<lparr>ob_entity_ids := sort (ob_entity_ids o'),
        ob_entities := entities_norm (ob_entities o')\<rparr>"

lemma cast_id_eid_str: "key_ok collector k \<Longrightarrow> cast_id collector (eid_str k) = Inr k"
  by (cases k) (simp_all add: cast_id_def py_int_str_int)

lemma eid_str_inj_on:
  "key_ok collector a \<Longrightarrow> key_ok collector b \<Longrightarrow> eid_str a = eid_str b \<Longrightarrow> a = b"
  by (cases a; cases b) auto

lemma entities_json_ok:
  assumes "entities_ok collector es"
  shows "entities_json es = JDict (map (\<lambda>(k, e). (eid_str k, entity_to_dict e)) es)"
proof -
  have "inj_on eid_str (fst ` set es)"
  proof (rule inj_onI)
    fix a b
    assume "a \<in> fst ` set es" "b \<in> fst ` set es" "eid_str a = eid_str b"
    moreover from this have "key_ok collector a" "key_ok collector b"
      using assms by (auto simp: entities_ok_def list_all_iff)
    ultimately show "a = b" by (metis eid_str_inj_on)
  qed
  moreover have "distinct (map fst es)"
    using assms by (simp add: entities_ok_def)
  ultimately have "distinct (map eid_str (map fst es))"
    by (simp add: distinct_map del: map_map)
  then have "distinct (map (\<lambda>e. eid_str (fst e)) es)" by (simp add: comp_def)
  then show ?thesis by (simp add: entities_json_def dict_of_fresh case_prod_beta)
qed

lemma entities_roundtrip:
  assumes ok: "entities_ok collector es" and ne: "entity_types collector = Some c"
  shows "entities_from_dict collector (entities_json es) = Inr (entities_norm es)"
proof -
  have "mapE (\<lambda>(k, e). bindE (cast_id collector k) (\<lambda>i.
            bindE (entity_from_dict c e) (\<lambda>x. Inr (i, x))))
          (map (\<lambda>(k, e). (eid_str k, entity_to_dict e)) es)
        = Inr (map (\<lambda>(k, e). (k, entity_norm e)) es)"
    unfolding mapE_map
  proof (rule mapE_total, clarsimp)
    fix k e
    assume "(k, e) \<in> set es"
    then have "key_ok collector k" and "entity_class_of e = c"
      using ok ne by (auto simp: entities_ok_def list_all_iff)
    then show "bindE (cast_id collector (eid_str k))
        (\<lambda>i. bindE (entity_from_dict c (entity_to_dict e)) (\<lambda>x. Inr (i, x))) = Inr (k, entity_norm e)"
      by (simp add: cast_id_eid_str entity_roundtrip)
  qed
  moreover have "dict_of fst snd (entities_norm es) = entities_norm es"
  proof -
    have "distinct (map fst (entities_norm es))"
      using ok by (simp add: entities_norm_def entities_ok_def case_prod_beta comp_def)
    then show ?thesis by (simp add: dict_of_fresh)
  qed
  ultimately show ?thesis
    using ne by (simp add: entities_from_dict_def entities_json_ok [OF ok] entities_norm_def)
qed

lemma entities_ok_none: "entities_ok collector es \<Longrightarrow> entity_types collector = None \<Longrightarrow> es = []"
  by (cases es) (auto simp: entities_ok_def)

lemma list_of_as_eid [simp]: "list_of as_eid (JList (map eid_json ids)) = Inr ids"
  by (simp add: list_of_def)

lemma list_of_errors [simp]:
  "list_of error_from_dict (JList (map error_to_dict es)) = Inr es"
  using error_codec.list_of_dec [of es] by simp

lemma observation_roundtrip:
  assumes "observation_ok o'"
  shows "\<exists>d. observation_to_dict o' = Inr d \<and> observation_from_dict d = Inr (observation_norm o')"
proof -
  have ids: "sort_ids (ob_entity_ids o') = Inr (sort (ob_entity_ids o'))"
    using assms by (simp add: observation_ok_def sort_ids_def)
  have ents: "(if entity_types (ob_collector o') = None then Inr []
      else entities_from_dict (ob_collector o') (entities_json (ob_entities o')))
      = Inr (entities_norm (ob_entities o'))"
    using assms entities_roundtrip entities_ok_none
    by (auto simp: observation_ok_def entities_norm_def)
  show ?thesis
    using ents
    by (cases "ob_pass o'"; cases "ob_extra o'")
      (auto simp: observation_to_dict_def ids observation_from_dict_def fld_def py_dict.simps
        opt_of_def observation_norm_def split: if_splits)
qed

section \<open>Host facts, capture metadata\<close>

text \<open>The effective user id is the raw value of the file: both renderers print it as it is.\<close>

record host_facts =
  hf_hostname :: pystr
  hf_kernel_release :: pystr
  hf_arch :: pystr
  hf_boot_id :: pystr
  hf_btime :: int
  hf_clock_ticks_per_sec :: int

definition host_to_dict :: "host_facts \<Rightarrow> json" where
  "host_to_dict h = jobj
     [(''hostname'', JStr (hf_hostname h)),
      (''kernel_release'', JStr (hf_kernel_release h)),
      (''arch'', JStr (hf_arch h)),
      (''boot_id'', JStr (hf_boot_id h)),
      (''btime'', JInt (hf_btime h)),
      (''clock_ticks_per_sec'', JInt (hf_clock_ticks_per_sec h))]"

text \<open>
  The code stores the six values unchecked: a host name 5 is loaded, \<open>analyze --json\<close> never looks at
  it, and printing it raises \<open>TypeError\<close>. The model reads values of the declared types and stops with
  \<open>OutOfContract\<close> at others.
\<close>

definition host_from_dict :: "json \<Rightarrow> host_facts result" where
  "host_from_dict d =
     bindE (fld d ''hostname'' as_str) (\<lambda>hostname.
     bindE (fld d ''kernel_release'' as_str) (\<lambda>kernel_release.
     bindE (fld d ''arch'' as_str) (\<lambda>arch.
     bindE (fld d ''boot_id'' as_str) (\<lambda>boot_id.
     bindE (fld d ''btime'' as_int) (\<lambda>btime.
     bindE (fld d ''clock_ticks_per_sec'' as_int) (\<lambda>ticks.
     Inr \<lparr>hf_hostname = hostname, hf_kernel_release = kernel_release, hf_arch = arch,
          hf_boot_id = boot_id, hf_btime = btime, hf_clock_ticks_per_sec = ticks\<rparr>))))))"

record capture_meta =
  cm_tool_version :: pystr
  cm_euid :: json

definition capture_to_dict :: "capture_meta \<Rightarrow> json" where
  "capture_to_dict c = jobj
     [(''tool_version'', JStr (cm_tool_version c)), (''euid'', cm_euid c)]"

definition capture_from_dict :: "json \<Rightarrow> capture_meta result" where
  "capture_from_dict d =
     bindE (fld d ''tool_version'' as_str) (\<lambda>v.
     bindE (fld d ''euid'' Inr) (\<lambda>e.
     Inr \<lparr>cm_tool_version = v, cm_euid = e\<rparr>))"

interpretation host_codec: json_codec host_to_dict host_from_dict "\<lambda>h. h"
  by unfold_locales (simp_all add: host_to_dict_def host_from_dict_def fld_def)

interpretation capture_codec: json_codec capture_to_dict capture_from_dict "\<lambda>c. c"
  by unfold_locales (simp_all add: capture_to_dict_def capture_from_dict_def fld_def)

section \<open>The schema gate\<close>

definition schema_version_const :: pystr where
  "schema_version_const = lit ''1.1''"

definition known_top_level_keys :: "pystr list" where
  "known_top_level_keys =
     [lit ''schema_version'', lit ''snapshot_id'', lit ''captured_at'', lit ''host'',
      lit ''capture'', lit ''observations'']"

text \<open>\<open>major, minor = (int(part) for part in s.split("."))\<close>: two parts, both numbers.\<close>

definition parse_version :: "pystr \<Rightarrow> (int \<times> int) result" where
  "parse_version s =
     (case split_on 46 s of
        [a, b] \<Rightarrow> bindE (py_int a) (\<lambda>x. bindE (py_int b) (\<lambda>y. Inr (x, y)))
      | _ \<Rightarrow> Inl ValueError)"

text \<open>
  \<open>str(raw)\<close> of any value is parsed. A number with a fraction, which the value type leaves out,
  would be read as a version too: its text is the argument of \<open>parse_version\<close>.
\<close>

definition version_of :: "json \<Rightarrow> (int \<times> int) result" where
  "version_of raw = parse_version (json_str raw)"

text \<open>The lines the gate prints on standard error, or the exception it raises.\<close>

definition check_schema_version :: "json \<Rightarrow> pystr list result" where
  "check_schema_version d =
     bindE (get_item d (lit ''schema_version'')) (\<lambda>raw.
     if raw = JNull then Inl (IncompatibleSnapshot (lit ''snapshot has no schema_version field''))
     else case version_of raw of
       Inl _ \<Rightarrow> Inl (IncompatibleSnapshot
         (lit ''unparseable schema_version '' @ json_repr raw @ lit '', expected MAJOR.MINOR''))
     | Inr (major, minor) \<Rightarrow>
         bindE (parse_version schema_version_const) (\<lambda>(our_major, our_minor).
         if major \<noteq> our_major then
           Inl (IncompatibleSnapshot
             (lit ''snapshot schema_version '' @ json_str raw @ lit '' is incompatible with '' @
              schema_version_const @ lit '': major versions differ''))
         else if minor > our_minor then
           bindE (dict_items d) (\<lambda>kvs.
           let unknown = sorted_set (filter (\<lambda>k. k \<notin> set known_top_level_keys) (map fst kvs)) in
           Inr [lit ''warning: snapshot schema_version '' @ json_str raw @ lit '' is newer than '' @
                schema_version_const @ lit ''; ignoring unknown keys: '' @ json_repr (strs_json unknown)])
         else Inr []))"

section \<open>Snapshots\<close>

record snapshot =
  sn_schema_version :: pystr
  sn_snapshot_id :: pystr
  sn_captured_at :: pystr
  sn_host :: host_facts
  sn_capture :: capture_meta
  sn_observations :: "observation list"

definition snapshot_to_dict :: "snapshot \<Rightarrow> json result" where
  "snapshot_to_dict s =
     bindE (mapE observation_to_dict (sn_observations s)) (\<lambda>obs.
     Inr (jobj
       [(''schema_version'', JStr (sn_schema_version s)),
        (''snapshot_id'', JStr (sn_snapshot_id s)),
        (''captured_at'', JStr (sn_captured_at s)),
        (''host'', host_to_dict (sn_host s)),
        (''capture'', capture_to_dict (sn_capture s)),
        (''observations'', JList obs)]))"

definition snapshot_from_dict :: "json \<Rightarrow> snapshot result" where
  "snapshot_from_dict d =
     bindE (check_schema_version d) (\<lambda>_.
     bindE (fld d ''schema_version'' as_str) (\<lambda>version.
     bindE (fld d ''snapshot_id'' as_str) (\<lambda>sid.
     bindE (fld d ''captured_at'' as_str) (\<lambda>at.
     bindE (fld d ''host'' host_from_dict) (\<lambda>host.
     bindE (fld d ''capture'' capture_from_dict) (\<lambda>capture.
     bindE (fld d ''observations'' (list_of observation_from_dict)) (\<lambda>obs.
     Inr \<lparr>sn_schema_version = version, sn_snapshot_id = sid, sn_captured_at = at,
          sn_host = host, sn_capture = capture, sn_observations = obs\<rparr>)))))))"

definition snapshot_norm :: "snapshot \<Rightarrow> snapshot" where
  "snapshot_norm s = s\<lparr>sn_observations := map observation_norm (sn_observations s)\<rparr>"

text \<open>A version this build reads without or with a warning.\<close>

definition version_readable :: "pystr \<Rightarrow> bool" where
  "version_readable v \<longleftrightarrow> (\<exists>minor. parse_version v = Inr (1, minor))"

definition snapshot_ok :: "snapshot \<Rightarrow> bool" where
  "snapshot_ok s \<longleftrightarrow>
     version_readable (sn_schema_version s) \<and> list_all observation_ok (sn_observations s)"

lemma parse_schema_version_const [simp]: "parse_version schema_version_const = Inr (1, 1)"
  by (simp add: parse_version_def schema_version_const_def split_on_def lit_def py_int_ascii
      is_ascii_digit_def max_str_digits_def dec_value_def)

lemma check_schema_readable:
  assumes "version_readable v"
  shows "\<exists>ls. check_schema_version (jobj ((''schema_version'', JStr v) # kvs)) = Inr ls"
proof -
  obtain minor where "parse_version v = Inr (1, minor)"
    using assms by (auto simp: version_readable_def)
  then show ?thesis
    by (simp add: check_schema_version_def version_of_def json_str_def) (simp add: jobj_def Let_def)
qed

lemma snapshot_roundtrip:
  assumes "snapshot_ok s"
  shows "\<exists>d. snapshot_to_dict s = Inr d \<and> snapshot_from_dict d = Inr (snapshot_norm s)"
proof -
  let ?enc = "\<lambda>o'. case observation_to_dict o' of Inr d \<Rightarrow> d"
  let ?obs = "map ?enc (sn_observations s)"
  have each: "observation_to_dict o' = Inr (?enc o') \<and>
      observation_from_dict (?enc o') = Inr (observation_norm o')"
    if "o' \<in> set (sn_observations s)" for o'
    using that assms observation_roundtrip [of o'] by (auto simp: snapshot_ok_def list_all_iff)
  have enc: "mapE observation_to_dict (sn_observations s) = Inr ?obs"
    by (rule mapE_total) (use each in blast)
  have dec: "list_of observation_from_dict (JList ?obs)
      = Inr (map observation_norm (sn_observations s))"
    unfolding list_of_def py_list.simps bindE_Inr mapE_map
    by (rule mapE_total) (use each in blast)
  obtain d where d: "snapshot_to_dict s = Inr d"
    by (simp add: snapshot_to_dict_def enc)
  have ro: "version_readable (sn_schema_version s)"
    using assms by (simp add: snapshot_ok_def)
  have "\<exists>ls. check_schema_version d = Inr ls"
    using d by (auto simp: snapshot_to_dict_def enc intro!: check_schema_readable [OF ro])
  then obtain ls where "check_schema_version d = Inr ls" by blast
  then have "snapshot_from_dict d = Inr (snapshot_norm s)"
    using d
    by (auto simp: snapshot_to_dict_def enc snapshot_from_dict_def fld_def dec snapshot_norm_def
        host_codec.dec_enc capture_codec.dec_enc)
  with d show ?thesis by blast
qed

end
