(* ===== verification/Taint.thy ===== *)
theory Taint
  imports Py_Json
begin

text \<open>
  \<open>analysis/taint.py\<close>: the reconciliation of the kernel's taint word with the markers of the
  listed modules. A set bit with a letter in the table is explained when a listed module carries
  the letter. The lemmas characterise both parts of the result bit by bit.
\<close>

unbundle bit_operations_syntax

text \<open>Bit 12 is accounted for by O, bit 13 by E.\<close>

definition taint_bit_letter :: "(nat \<times> int) list" where
  "taint_bit_letter = [(12, 79), (13, 69)]"

record taint_reconciliation =
  tr_unexplained :: "int list"
  tr_explained_by :: "(int \<times> pystr list) list"

definition saturated :: "taint_reconciliation \<Rightarrow> bool" where
  "saturated r \<longleftrightarrow> \<not> tr_unexplained r \<noteq> [] \<and> tr_explained_by r \<noteq> []"

text \<open>\<open>marker and letter in marker\<close>.\<close>

definition carries :: "int \<Rightarrow> pystr option \<Rightarrow> bool" where
  "carries letter marker \<longleftrightarrow>
     (case marker of None \<Rightarrow> False | Some m \<Rightarrow> m \<noteq> [] \<and> letter \<in> set m)"

definition owners_of :: "int \<Rightarrow> (pystr \<times> pystr option) list \<Rightarrow> pystr list" where
  "owners_of letter listed = sort (map fst (filter (\<lambda>(n, marker). carries letter marker) listed))"

fun reconcile_loop ::
  "(nat \<times> int) list \<Rightarrow> int \<Rightarrow> (pystr \<times> pystr option) list \<Rightarrow> taint_reconciliation \<Rightarrow>
   taint_reconciliation" where
  "reconcile_loop [] taint listed r = r"
| "reconcile_loop ((b, letter) # bits) taint listed r =
     (if taint AND push_bit b 1 = 0 then reconcile_loop bits taint listed r
      else let owners = owners_of letter listed in
        if owners \<noteq> []
        then reconcile_loop bits taint listed
          (r\<lparr>tr_explained_by := AList.update (int b) owners (tr_explained_by r)\<rparr>)
        else reconcile_loop bits taint listed
          (r\<lparr>tr_unexplained := tr_unexplained r @ [int b]\<rparr>))"

definition reconcile :: "int \<Rightarrow> (pystr \<times> pystr option) list \<Rightarrow> taint_reconciliation" where
  "reconcile taint listed =
     reconcile_loop (sort taint_bit_letter) taint listed
       \<lparr>tr_unexplained = [], tr_explained_by = []\<rparr>"

text \<open>A bit is named exactly when it is set; it is explained exactly when some marker has it.\<close>

lemma reconcile_simps:
  "tr_unexplained (reconcile taint listed) =
     (if bit taint 12 \<and> owners_of 79 listed = [] then [12] else []) @
     (if bit taint 13 \<and> owners_of 69 listed = [] then [13] else [])"
  "tr_explained_by (reconcile taint listed) =
     (if bit taint 12 \<and> owners_of 79 listed \<noteq> [] then [(12, owners_of 79 listed)] else []) @
     (if bit taint 13 \<and> owners_of 69 listed \<noteq> [] then [(13, owners_of 69 listed)] else [])"
  by (simp_all add: reconcile_def taint_bit_letter_def Let_def bit_iff_and_push_bit_not_eq_0)

lemma owners_of_Nil_iff:
  "owners_of letter listed = [] \<longleftrightarrow> list_all (\<lambda>(n, marker). \<not> carries letter marker) listed"
  by (auto simp: owners_of_def filter_empty_conv list_all_iff)

lemma set_owners_of:
  "set (owners_of letter listed) = {n. \<exists>marker. (n, marker) \<in> set listed \<and> carries letter marker}"
  by (force simp: owners_of_def)

end
