(* ===== verification/Signals.thy ===== *)
theory Signals
  imports Snapshot_File Taint
begin

text \<open>
  \<open>analysis/models.py\<close> (suspects, signals, channel notes) and \<open>analysis/signals.py\<close>: the detectors,
  from a snapshot to its signals. Each detector is one definition with the branches, the order
  and the failures of its source; a loop with a local set is a recursion that carries the set.
\<close>

section \<open>Suspects, signals, notes\<close>

record suspect =
  su_kind :: pystr
  su_name :: "pystr option"

record signal =
  sg_channel :: pystr
  sg_suspect :: suspect
  sg_dissent :: pystr
  sg_evidence :: "(pystr \<times> json) list"

record channel_note =
  cn_channel :: pystr
  cn_reason :: pystr
  cn_detail :: "(pystr \<times> json) list"

abbreviation module_kind :: pystr where "module_kind \<equiv> lit ''module''"
abbreviation process_kind :: pystr where "process_kind \<equiv> lit ''process''"

definition mk_signal :: "string \<Rightarrow> pystr \<Rightarrow> pystr option \<Rightarrow> pystr \<Rightarrow> (string \<times> json) list \<Rightarrow> signal"
  where
  "mk_signal channel kind name dissent evidence =
     \<lparr>sg_channel = lit channel, sg_suspect = \<lparr>su_kind = kind, su_name = name\<rparr>,
      sg_dissent = dissent, sg_evidence = ldict evidence\<rparr>"

definition module_dissent :: pystr where
  "module_dissent = lit ''procfs.modules listing''"

definition process_dissent :: pystr where
  "process_dissent = lit ''procfs readdir (all passes)''"

definition baseline_dissent :: pystr where
  "baseline_dissent = lit ''signed baseline''"

definition listing_dissent :: pystr where
  "listing_dissent = lit ''every corroborating channel''"

section \<open>Reading a snapshot\<close>

definition observations :: "snapshot \<Rightarrow> string \<Rightarrow> observation list" where
  "observations s collector =
     filter (\<lambda>o'. ob_collector o' = lit collector) (sn_observations s)"

text \<open>\<open>o.entities[key]\<close>, and the attributes a class has: any other class raises.\<close>

definition entity_at :: "observation \<Rightarrow> eid \<Rightarrow> entity result" where
  "entity_at o' key = (case map_of (ob_entities o') key of None \<Rightarrow> Inl KeyError | Some e \<Rightarrow> Inr e)"

fun as_module :: "entity \<Rightarrow> module_entity result" where
  "as_module (EModule m) = Inr m"
| "as_module _ = Inl AttributeError"

fun as_hook :: "entity \<Rightarrow> hook_entity result" where
  "as_hook (EHook h) = Inr h"
| "as_hook _ = Inl AttributeError"

fun as_sweep :: "entity \<Rightarrow> sweep_entity result" where
  "as_sweep (ESweep e) = Inr e"
| "as_sweep _ = Inl AttributeError"

fun as_socket :: "entity \<Rightarrow> socket_entity result" where
  "as_socket (ESocket e) = Inr e"
| "as_socket _ = Inl AttributeError"

text \<open>A module id is a name by the type of \<open>_module_ids\<close>.\<close>

fun id_name :: "eid \<Rightarrow> pystr result" where
  "id_name (IdStr s) = Inr s"
| "id_name (IdInt _) = Inl OutOfContract"

definition module_ids :: "snapshot \<Rightarrow> eid list" where
  "module_ids s =
     (case observations s ''procfs.modules'' of [] \<Rightarrow> [] | o' # _ \<Rightarrow> ob_entity_ids o')"

definition listed_markers :: "snapshot \<Rightarrow> (pystr \<times> pystr option) list result" where
  "listed_markers s =
     (case observations s ''procfs.modules'' of
        [] \<Rightarrow> Inr []
      | o' # _ \<Rightarrow>
          mapE (\<lambda>(k, e). bindE (as_module e) (\<lambda>m.
                 bindE (id_name k) (\<lambda>n. Inr (n, mo_taint m)))) (ob_entities o'))"

text \<open>\<open>o.stats.get(k, default)\<close> and \<open>(o.extra or {}).get(k)\<close>.\<close>

definition stat_get :: "observation \<Rightarrow> string \<Rightarrow> json \<Rightarrow> json" where
  "stat_get o' k dflt =
     (case map_of (ob_stats o') (lit k) of None \<Rightarrow> dflt | Some v \<Rightarrow> v)"

definition extra_get :: "observation \<Rightarrow> string \<Rightarrow> json" where
  "extra_get o' k =
     (case ob_extra o' of
        None \<Rightarrow> JNull
      | Some d \<Rightarrow> (case map_of d (lit k) of None \<Rightarrow> JNull | Some v \<Rightarrow> v))"

section \<open>Detectors\<close>

definition explained_json :: "taint_reconciliation \<Rightarrow> json" where
  "explained_json r = JDict (dict_of (\<lambda>(b, v). str_int b) (\<lambda>(b, v). strs_json v) (tr_explained_by r))"

definition taint_signals :: "json \<Rightarrow> (pystr \<times> pystr option) list \<Rightarrow> signal list result" where
  "taint_signals taint markers =
     bindE (as_number taint) (\<lambda>t.
     let r = reconcile t markers in
     Inr (if tr_unexplained r \<noteq> []
          then [mk_signal ''taint'' module_kind None module_dissent
                  [(''taint'', taint), (''bits'', ints_json (tr_unexplained r)),
                   (''explained_by'', explained_json r)]]
          else []))"

definition region_signals :: "json \<Rightarrow> eid list \<Rightarrow> signal list result" where
  "region_signals regions listed =
     (if regions = JNull then Inr []
      else bindE (as_number regions) (\<lambda>n.
        Inr (if n > set_size listed
             then [mk_signal ''vmalloc_region'' module_kind None module_dissent
                     [(''load_module_regions'', regions), (''listed'', JInt (set_size listed)),
                      (''unaccounted'', JInt (n - set_size listed))]]
             else [])))"

definition ftrace_signals :: "json \<Rightarrow> eid list \<Rightarrow> signal list result" where
  "ftrace_signals ftrace listed =
     (if ftrace = JNull then Inr []
      else bindE (list_of as_str ftrace) (\<lambda>names.
        Inr (map (\<lambda>name. mk_signal ''ftrace_orphan'' module_kind (Some name) module_dissent
                    [(''ftrace_module'', JStr name), (''in_listing'', JBool False)])
             (sorted_set (filter (\<lambda>n. IdStr n \<notin> set listed) names)))))"

definition signals_modules :: "snapshot \<Rightarrow> signal list result" where
  "signals_modules s =
     (case (observations s ''procfs.modules'', observations s ''kernel.module_evidence'') of
        (listing # _, ev # _) \<Rightarrow>
          let listed = ob_entity_ids listing in
          bindE (listed_markers s) (\<lambda>markers.
          bindE (taint_signals (stat_get ev ''taint'' (JInt 0)) markers) (\<lambda>sigs1.
          bindE (region_signals (stat_get ev ''load_module_regions'' JNull) listed) (\<lambda>sigs2.
          bindE (ftrace_signals (extra_get ev ''ftrace_modules'') listed) (\<lambda>sigs3.
          Inr (sigs1 @ sigs2 @ sigs3)))))
      | _ \<Rightarrow> Inr [])"

definition hook_signals :: "eid list \<Rightarrow> hook_entity \<Rightarrow> signal list" where
  "hook_signals listed ent =
     (case hk_owner_module ent of
        None \<Rightarrow> []
      | Some m \<Rightarrow>
          if IdStr m \<notin> set listed
          then [mk_signal ''unexpected_hook'' module_kind (Some m) module_dissent
                  [(''function'', JStr (hk_function ent)), (''hook_type'', JStr (hk_hook_type ent)),
                   (''callback'', opt_json JStr (hk_callback ent)),
                   (''owner_module'', JStr m)]]
          else [])"

definition name_or_empty :: "suspect \<Rightarrow> pystr" where
  "name_or_empty u = (case su_name u of None \<Rightarrow> [] | Some n \<Rightarrow> n)"

text \<open>\<open>s.evidence["function"]\<close>: \<open>hook_signals\<close> always stores a string under that key.\<close>

definition evidence_str :: "signal \<Rightarrow> string \<Rightarrow> pystr" where
  "evidence_str s k = (case map_of (sg_evidence s) (lit k) of Some (JStr v) \<Rightarrow> v | _ \<Rightarrow> [])"

definition signals_hooks :: "snapshot \<Rightarrow> signal list result" where
  "signals_hooks s =
     (case observations s ''kernel.hooks'' of
        [] \<Rightarrow> Inr []
      | hooks # _ \<Rightarrow>
          bindE (mapE (\<lambda>key. bindE (entity_at hooks key) (\<lambda>e.
                   bindE (as_hook e) (\<lambda>ent. Inr (hook_signals (module_ids s) ent))))
                 (ob_entity_ids hooks)) (\<lambda>out.
          Inr (sort_key (\<lambda>g. (name_or_empty (sg_suspect g), evidence_str g ''function''))
                 (concat out))))"

text \<open>\<open>o.pass_ or "?"\<close>.\<close>

definition pass_or_unknown :: "observation \<Rightarrow> pystr" where
  "pass_or_unknown o' =
     (case ob_pass o' of None \<Rightarrow> lit ''?'' | Some p \<Rightarrow> if p = [] then lit ''?'' else p)"

definition process_evidence :: "observation list \<Rightarrow> sweep_entity \<Rightarrow> (string \<times> json) list" where
  "process_evidence procfs ent =
     [(''tgid'', JInt (sw_tgid ent)), (''seen_by_sweep'', JBool True),
      (''status_readable'', JBool True), (''comm'', opt_json JStr (sw_comm ent)),
      (''in_procfs_passes'',
       strs_json (sort (map pass_or_unknown
         (filter (\<lambda>o'. IdInt (sw_tgid ent) \<in> set (ob_entity_ids o')) procfs))))]"

definition process_signals :: "observation list \<Rightarrow> sweep_entity \<Rightarrow> signal list" where
  "process_signals procfs ent =
     (let evidence = process_evidence procfs ent; name = Some (str_int (sw_tgid ent)) in
      [mk_signal ''syscall_kill'' process_kind name process_dissent evidence,
       mk_signal ''direct_status'' process_kind name process_dissent evidence])"

fun sweep_loop ::
  "observation list \<Rightarrow> eid list \<Rightarrow> observation \<Rightarrow> eid list \<Rightarrow> int list \<Rightarrow> signal list result" where
  "sweep_loop procfs listed sweep [] reported = Inr []"
| "sweep_loop procfs listed sweep (task_id # ids) reported =
     bindE (entity_at sweep task_id) (\<lambda>e.
     bindE (as_sweep e) (\<lambda>ent.
     if \<not> sw_status_readable ent then sweep_loop procfs listed sweep ids reported
     else if IdInt (sw_tgid ent) \<in> set listed \<or> sw_tgid ent \<in> set reported
     then sweep_loop procfs listed sweep ids reported
     else bindE (sweep_loop procfs listed sweep ids (sw_tgid ent # reported)) (\<lambda>out.
       Inr (process_signals procfs ent @ out))))"

definition procfs_listed :: "snapshot \<Rightarrow> eid list" where
  "procfs_listed s = concat (map ob_entity_ids (observations s ''procfs.processes''))"

definition signals_processes :: "snapshot \<Rightarrow> signal list result" where
  "signals_processes s =
     (case (observations s ''procfs.processes'', observations s ''syscall_sweep.processes'') of
        (p # ps, sweep # _) \<Rightarrow>
          sweep_loop (p # ps) (procfs_listed s) sweep (ob_entity_ids sweep) []
      | _ \<Rightarrow> Inr [])"

text \<open>\<open>tid_to_tgid\<close>, from the first sweep.\<close>

definition tid_to_tgid :: "snapshot \<Rightarrow> (eid \<times> int) list result" where
  "tid_to_tgid s =
     (case observations s ''syscall_sweep.processes'' of
        [] \<Rightarrow> Inr []
      | sweep # _ \<Rightarrow>
          bindE (mapE (\<lambda>tid. bindE (entity_at sweep tid) (\<lambda>e.
                   bindE (as_sweep e) (\<lambda>ent. Inr (tid, sw_tgid ent)))) (ob_entity_ids sweep)) (\<lambda>kvs.
          Inr (dict_of fst snd kvs)))"

definition fold_tid :: "(eid \<times> int) list \<Rightarrow> int \<Rightarrow> int" where
  "fold_tid m pid = (case map_of m (IdInt pid) of None \<Rightarrow> pid | Some tgid \<Rightarrow> tgid)"

definition socket_signal :: "socket_entity \<Rightarrow> int \<Rightarrow> signal" where
  "socket_signal e tgid =
     mk_signal ''socket_visible'' process_kind (Some (str_int tgid)) process_dissent
       [(''inode'', JInt (so_inode e)), (''local'', opt_json JStr (so_local e)),
        (''remote'', opt_json JStr (so_remote e)), (''state'', opt_json JStr (so_state e))]"

fun owner_loop ::
  "(eid \<times> int) list \<Rightarrow> eid list \<Rightarrow> socket_entity \<Rightarrow> int list \<Rightarrow> int list \<Rightarrow> signal list" where
  "owner_loop m listed e [] reported = []"
| "owner_loop m listed e (pid # pids) reported =
     (let tgid = fold_tid m pid in
      if IdInt tgid \<in> set listed \<or> tgid \<in> set reported then owner_loop m listed e pids reported
      else socket_signal e tgid # owner_loop m listed e pids (tgid # reported))"

definition signals_sockets :: "snapshot \<Rightarrow> signal list result" where
  "signals_sockets s =
     (case observations s ''procfs.sockets'' of
        [] \<Rightarrow> Inr []
      | sockets # _ \<Rightarrow>
          bindE (tid_to_tgid s) (\<lambda>m.
          bindE (mapE (\<lambda>key. bindE (entity_at sockets key) (\<lambda>x.
                   bindE (as_socket x) (\<lambda>e.
                   Inr (if so_in_table e then owner_loop m (procfs_listed s) e (so_owner_pids e) []
                        else [])))) (ob_entity_ids sockets)) (\<lambda>out.
          Inr (sort_key (\<lambda>g. (sg_channel g, name_or_empty (sg_suspect g))) (concat out)))))"

definition listing_channels :: "pystr list" where
  "listing_channels =
     [lit ''kernel.module_evidence.ftrace_modules'', lit ''kernel.hooks.kallsyms_modules'']"

definition over_listed_corroboration :: "snapshot \<Rightarrow> (eid list \<times> pystr list) option result" where
  "over_listed_corroboration s =
     (case (observations s ''procfs.modules'', observations s ''kernel.module_evidence'',
            observations s ''kernel.hooks'') of
        (listing # _, ev # _, hooks # _) \<Rightarrow>
          if \<not> truthy (stat_get ev ''ftrace_available'' JNull) then Inr None
          else if \<not> truthy (stat_get hooks ''kallsyms_available'' JNull) then Inr None
          else let ftrace = extra_get ev ''ftrace_modules'';
                   kallsyms = extra_get hooks ''kallsyms_modules'' in
            if ftrace = JNull \<or> kallsyms = JNull then Inr None
            else bindE (list_of as_str ftrace) (\<lambda>f.
              bindE (list_of as_str kallsyms) (\<lambda>k.
              Inr (Some (ob_entity_ids listing, f @ k))))
      | _ \<Rightarrow> Inr None)"

definition uncorroborated_ids :: "eid list \<Rightarrow> pystr list \<Rightarrow> eid list" where
  "uncorroborated_ids listed corroborated =
     filter (\<lambda>i. i \<notin> IdStr ` set corroborated) listed"

definition signals_over_listed :: "snapshot \<Rightarrow> signal list result" where
  "signals_over_listed s =
     bindE (over_listed_corroboration s) (\<lambda>corrob.
     case corrob of
       None \<Rightarrow> Inr []
     | Some (listed, corroborated) \<Rightarrow>
         let uncorroborated = uncorroborated_ids listed corroborated in
         if listed \<noteq> [] \<and> set uncorroborated = set listed then Inr []
         else bindE (mapE id_name uncorroborated) (\<lambda>names.
           Inr (map (\<lambda>name. mk_signal ''over_listed'' module_kind (Some name) listing_dissent
                       [(''listed'', JBool True), (''corroborated_by'', JList [])])
                (sorted_set names))))"

definition signals_baseline :: "snapshot \<Rightarrow> snapshot \<Rightarrow> signal list result" where
  "signals_baseline current baseline =
     bindE (mapE id_name
       (filter (\<lambda>i. i \<notin> set (module_ids baseline)) (module_ids current))) (\<lambda>names.
     Inr (map (\<lambda>name. mk_signal ''baseline_drift'' module_kind (Some name) baseline_dissent
                 [(''direction'', JStr (lit ''added''))])
          (sorted_set names)))"

definition all_signals :: "snapshot \<Rightarrow> snapshot option \<Rightarrow> signal list result" where
  "all_signals s baseline =
     bindE (signals_processes s) (\<lambda>sigs1.
     bindE (signals_modules s) (\<lambda>sigs2.
     bindE (signals_hooks s) (\<lambda>sigs3.
     bindE (signals_sockets s) (\<lambda>sigs4.
     bindE (signals_over_listed s) (\<lambda>sigs5.
     bindE (case baseline of None \<Rightarrow> Inr [] | Some b \<Rightarrow> signals_baseline s b) (\<lambda>sigs6.
     Inr (sigs1 @ sigs2 @ sigs3 @ sigs4 @ sigs5 @ sigs6)))))))"

section \<open>Channel notes\<close>

definition taint_notes :: "snapshot \<Rightarrow> channel_note list result" where
  "taint_notes s =
     (case observations s ''kernel.module_evidence'' of
        [] \<Rightarrow> Inr []
      | ev # _ \<Rightarrow>
          bindE (listed_markers s) (\<lambda>markers.
          bindE (as_number (stat_get ev ''taint'' (JInt 0))) (\<lambda>t.
          let r = reconcile t markers in
          Inr (if saturated r
               then [\<lparr>cn_channel = lit ''taint'', cn_reason = lit ''saturated'',
                      cn_detail = ldict [(''explained_by'', explained_json r)]\<rparr>]
               else []))))"

definition over_listed_notes :: "snapshot \<Rightarrow> channel_note list result" where
  "over_listed_notes s =
     bindE (over_listed_corroboration s) (\<lambda>corrob.
     Inr (case corrob of
       None \<Rightarrow> []
     | Some (listed, corroborated) \<Rightarrow>
         if listed \<noteq> [] \<and> set (uncorroborated_ids listed corroborated) = set listed
         then [\<lparr>cn_channel = lit ''over_listed'', cn_reason = lit ''uncorroborated'',
                cn_detail = ldict [(''listed'', JInt (set_size listed)),
                                   (''channels_consulted'', strs_json listing_channels)]\<rparr>]
         else []))"

definition channel_notes :: "snapshot \<Rightarrow> channel_note list result" where
  "channel_notes s =
     bindE (taint_notes s) (\<lambda>n1. bindE (over_listed_notes s) (\<lambda>n2. Inr (n1 @ n2)))"

end
