(* ===== verification/Scoring.thy ===== *)
theory Scoring
  imports Signals
begin

text \<open>
  \<open>analysis/scoring.py\<close> and the \<open>Finding\<close> of \<open>analysis/models.py\<close>: signals grouped by suspect,
  anonymous module signals attributed to the one hidden named module when there is exactly one,
  one composed finding per suspect with a confidence that counts distinct channels.
\<close>

section \<open>Findings\<close>

datatype finding_kind =
    HIDDEN_PROCESS
  | HIDDEN_MODULE
  | SUSPECTED_HIDDEN_MODULE
  | BASELINE_DRIFT
  | OVER_LISTED_MODULE

fun finding_kind_value :: "finding_kind \<Rightarrow> pystr" where
  "finding_kind_value HIDDEN_PROCESS = lit ''hidden_process''"
| "finding_kind_value HIDDEN_MODULE = lit ''hidden_module''"
| "finding_kind_value SUSPECTED_HIDDEN_MODULE = lit ''suspected_hidden_module''"
| "finding_kind_value BASELINE_DRIFT = lit ''baseline_drift''"
| "finding_kind_value OVER_LISTED_MODULE = lit ''over_listed_module''"

datatype confidence = C_LOW | C_MEDIUM | C_HIGH

fun confidence_value :: "confidence \<Rightarrow> pystr" where
  "confidence_value C_LOW = lit ''LOW''"
| "confidence_value C_MEDIUM = lit ''MEDIUM''"
| "confidence_value C_HIGH = lit ''HIGH''"

text \<open>The order of the three levels, from LOW to HIGH.\<close>

instantiation confidence :: linorder
begin

fun confidence_rank :: "confidence \<Rightarrow> nat" where
  "confidence_rank C_LOW = 0"
| "confidence_rank C_MEDIUM = 1"
| "confidence_rank C_HIGH = 2"

definition less_eq_confidence :: "confidence \<Rightarrow> confidence \<Rightarrow> bool" where
  "less_eq_confidence a b \<longleftrightarrow> confidence_rank a \<le> confidence_rank b"

definition less_confidence :: "confidence \<Rightarrow> confidence \<Rightarrow> bool" where
  "less_confidence a b \<longleftrightarrow> confidence_rank a < confidence_rank b"

instance
proof
  fix x y z :: confidence
  show "(x < y) = (x \<le> y \<and> \<not> y \<le> x)"
    by (auto simp: less_eq_confidence_def less_confidence_def)
  show "x \<le> x" by (simp add: less_eq_confidence_def)
  show "x \<le> y \<Longrightarrow> y \<le> z \<Longrightarrow> x \<le> z" by (simp add: less_eq_confidence_def)
  show "x \<le> y \<Longrightarrow> y \<le> x \<Longrightarrow> x = y"
    by (cases x; cases y) (simp_all add: less_eq_confidence_def)
  show "x \<le> y \<or> y \<le> x" by (auto simp: less_eq_confidence_def)
qed

end

record finding =
  fi_kind :: finding_kind
  fi_subject :: pystr
  fi_confidence :: confidence
  fi_channels_agree :: "pystr list"
  fi_channels_dissent :: "pystr list"
  fi_evidence :: "(pystr \<times> json) list"
  fi_summary :: pystr

definition finding_to_dict :: "finding \<Rightarrow> json" where
  "finding_to_dict f = jobj
     [(''kind'', JStr (finding_kind_value (fi_kind f))),
      (''subject'', JStr (fi_subject f)),
      (''confidence'', JStr (confidence_value (fi_confidence f))),
      (''channels_agree'', strs_json (fi_channels_agree f)),
      (''channels_dissent'', strs_json (fi_channels_dissent f)),
      (''evidence'', JDict (fi_evidence f)),
      (''summary'', JStr (fi_summary f))]"

section \<open>The scorer\<close>

definition hiding :: "pystr list" where
  "hiding = [lit ''taint'', lit ''vmalloc_region'', lit ''ftrace_orphan'', lit ''unexpected_hook'',
             lit ''syscall_kill'', lit ''direct_status'', lit ''socket_visible'']"

definition hiding_named :: "pystr list" where
  "hiding_named = [lit ''ftrace_orphan'', lit ''unexpected_hook'']"

definition confidence_of :: "nat \<Rightarrow> confidence" where
  "confidence_of n = (if n = 1 then C_LOW else if n = 2 then C_MEDIUM else C_HIGH)"

text \<open>\<open>f"{suspect.name}"\<close>: an absent name prints as None.\<close>

definition show_name :: "pystr option \<Rightarrow> pystr" where
  "show_name n = (case n of None \<Rightarrow> lit ''None'' | Some s \<Rightarrow> s)"

definition commas :: "pystr list \<Rightarrow> pystr" where
  "commas = join (lit '', '')"

definition classify :: "suspect \<Rightarrow> pystr list \<Rightarrow> finding_kind \<times> pystr \<times> pystr" where
  "classify u channels =
     (let name = show_name (su_name u);
          others = filter (\<lambda>c. c \<noteq> lit ''over_listed'') channels in
      if su_kind u = process_kind then
        (HIDDEN_PROCESS, lit ''pid '' @ name,
         lit ''pid '' @ name @
         lit '' is hidden from the /proc readdir listing but seen by other channels'')
      else if su_name u = None then
        (SUSPECTED_HIDDEN_MODULE, lit ''unattributed hidden module'',
         lit ''hidden-module indicators fired but no channel can name the module'')
      else if lit ''over_listed'' \<in> set channels \<and> \<not> list_ex (\<lambda>c. c \<in> set hiding) channels then
        (OVER_LISTED_MODULE, lit ''module '' @ name,
         lit ''module '' @ name @ lit '' is listed in /proc/modules but named by '' @
         lit ''no other channel'' @
         (if others \<noteq> [] then lit '', alongside '' @ commas others else []))
      else if list_ex (\<lambda>c. c \<in> set hiding) channels then
        (HIDDEN_MODULE, lit ''module '' @ name,
         lit ''module '' @ name @ lit '' is concealed from /proc/modules but named '' @
         lit ''by '' @ commas others)
      else
        (BASELINE_DRIFT, lit ''module '' @ name,
         lit ''module '' @ name @ lit '' is loaded now but was absent from the baseline''))"

text \<open>The evidence of a finding: per channel, the evidence of its signals in channel order.\<close>

definition evidence_groups :: "signal list \<Rightarrow> (pystr \<times> json list) list" where
  "evidence_groups ordered = group_by sg_channel (\<lambda>g. JDict (sg_evidence g)) ordered"

definition compose :: "suspect \<Rightarrow> signal list \<Rightarrow> finding" where
  "compose u sigs =
     (let ordered = sort_key sg_channel sigs;
          channels = sorted_set (map sg_channel ordered);
          dissent = sorted_set (map sg_dissent ordered);
          evidence = map (\<lambda>(c, es). (c, JList es)) (evidence_groups ordered);
          (kind, subject, summary) = classify u channels in
      \<lparr>fi_kind = kind, fi_subject = subject, fi_confidence = confidence_of (length channels),
       fi_channels_agree = channels, fi_channels_dissent = dissent, fi_evidence = evidence,
       fi_summary = summary\<rparr>)"

definition hidden_named :: "(suspect \<times> signal list) list \<Rightarrow> pystr list" where
  "hidden_named groups =
     concat (map (\<lambda>(u, sigs).
       case su_name u of
         None \<Rightarrow> []
       | Some n \<Rightarrow>
           if su_kind u = module_kind \<and> list_ex (\<lambda>g. sg_channel g \<in> set hiding_named) sigs
           then [n] else []) groups)"

definition unattributed :: "pystr list \<Rightarrow> signal list \<Rightarrow> finding" where
  "unattributed candidates anon =
     (let f = compose \<lparr>su_kind = module_kind, su_name = None\<rparr> anon in
      if length candidates > 1
      then f\<lparr>fi_evidence := AList.update (lit ''candidates'') (strs_json candidates) (fi_evidence f),
             fi_summary := fi_summary f @ lit ''; candidates: '' @ commas candidates\<rparr>
      else f)"

definition score :: "signal list \<Rightarrow> finding list" where
  "score signals =
     (let named = filter (\<lambda>g. su_name (sg_suspect g) \<noteq> None) signals;
          anon = filter (\<lambda>g. su_name (sg_suspect g) = None) signals;
          groups = group_by sg_suspect (\<lambda>g. g) named;
          candidates = sorted_set (hidden_named groups);
          attributed = (length candidates = 1 \<and> anon \<noteq> []);
          groups' = (if attributed
                     then dextend \<lparr>su_kind = module_kind, su_name = Some (hd candidates)\<rparr> anon groups
                     else groups);
          anon' = (if attributed then [] else anon);
          findings = map (\<lambda>(u, sigs). compose u sigs)
                       (sort_key (\<lambda>(u, _). (su_kind u, name_or_empty u)) groups');
          extra = (if anon' \<noteq> [] then [unattributed candidates anon'] else [])
      in sort_key fi_subject (findings @ extra))"

definition analyze :: "snapshot \<Rightarrow> snapshot option \<Rightarrow> finding list result" where
  "analyze s baseline = bindE (all_signals s baseline) (\<lambda>sigs. Inr (score sigs))"

end
