(* ===== verification/Sample.thy ===== *)
theory Sample
  imports Scoring
begin

text \<open>
  A sample host under attack, on which the properties are instantiated: process 666 is missing
  from the readdir listing but seen by the sweep and by a socket it holds; module evil shows up
  in ftrace and in a hook but not in /proc/modules; module ghost is listed although nothing
  corroborates it; the taint is unexplained and one loader region too many is mapped.
\<close>

definition obs :: "string \<Rightarrow> eid list \<Rightarrow> (eid \<times> entity) list \<Rightarrow> (string \<times> json) list \<Rightarrow>
    (string \<times> json) list option \<Rightarrow> observation" where
  "obs collector ids entities stats extra =
     \<lparr>ob_collector = lit collector, ob_collector_version = lit ''1'', ob_view = lit ''v'',
      ob_trust_level = TL_MEDIUM, ob_status = ST_OK, ob_duration_ms = JInt 1, ob_entity_ids = ids,
      ob_entities = entities, ob_stats = ldict stats, ob_errors = [], ob_pass = Some (lit ''1''),
      ob_extra = (case extra of None \<Rightarrow> None | Some x \<Rightarrow> Some (ldict x))\<rparr>"

definition sample_process :: "int \<Rightarrow> entity" where
  "sample_process pid = EProcess
     \<lparr>pe_pid = pid, pe_ppid = 0, pe_comm = lit ''init'', pe_state = lit ''S'', pe_flags = 0,
      pe_num_threads = 1, pe_starttime_ticks = 5, pe_cmdline = [lit ''init'', lit ''--key''],
      pe_exe = None, pe_uid = Some [0, 0, 0, 0], pe_gid = None, pe_partial = []\<rparr>"

definition sample_task :: "int \<Rightarrow> entity" where
  "sample_task tgid = ESweep \<lparr>sw_tgid = tgid, sw_status_readable = True, sw_comm = None\<rparr>"

definition sample_module :: "string \<Rightarrow> entity" where
  "sample_module n = EModule
     \<lparr>mo_name = lit n, mo_size = 4096, mo_refcount = 0, mo_dependents = [], mo_state = lit ''Live'',
      mo_base_addr = lit ''0x0'', mo_taint = None\<rparr>"

definition sample_host :: host_facts where
  "sample_host = \<lparr>hf_hostname = lit ''h'', hf_kernel_release = lit ''6.1'', hf_arch = lit ''x86_64'',
     hf_boot_id = lit ''b'', hf_btime = 1, hf_clock_ticks_per_sec = 100\<rparr>"

definition snapshot_of :: "observation list \<Rightarrow> snapshot" where
  "snapshot_of os =
     \<lparr>sn_schema_version = lit ''1.3'', sn_snapshot_id = lit ''id'', sn_captured_at = lit ''now'',
      sn_host = sample_host, sn_capture = \<lparr>cm_tool_version = lit ''0'', cm_euid = JInt 0\<rparr>,
      sn_observations = os\<rparr>"

definition infected :: snapshot where
  "infected = snapshot_of
     [obs ''procfs.processes'' [IdInt 1] [(IdInt 1, sample_process 1)] [] None,
      obs ''syscall_sweep.processes'' [IdInt 1, IdInt 666]
        [(IdInt 1, sample_task 1), (IdInt 666, sample_task 666)] [] None,
      obs ''procfs.modules'' [IdStr (lit ''ext4''), IdStr (lit ''ghost'')]
        [(IdStr (lit ''ext4''), sample_module ''ext4''),
         (IdStr (lit ''ghost''), sample_module ''ghost'')] [] None,
      obs ''kernel.module_evidence'' [] []
        [(''taint'', JInt 4096), (''load_module_regions'', JInt 3), (''ftrace_available'', JBool True)]
        (Some [(''ftrace_modules'', strs_json [lit ''evil'', lit ''ext4''])]),
      obs ''kernel.hooks'' [IdStr (lit ''k'')]
        [(IdStr (lit ''k''), EHook \<lparr>hk_function = lit ''f'', hk_hook_type = lit ''kprobe'',
           hk_callback = None, hk_owner_module = Some (lit ''evil'')\<rparr>)]
        [(''kallsyms_available'', JBool True)]
        (Some [(''kallsyms_modules'', strs_json [lit ''ext4''])]),
      obs ''procfs.sockets'' [IdStr (lit ''77'')]
        [(IdStr (lit ''77''), ESocket \<lparr>so_inode = 77, so_kind = lit ''tcp'', so_state = Some (lit ''LISTEN''),
           so_local = Some (lit ''0.0.0.0:31337''), so_remote = Some (lit ''0.0.0.0:0''), so_uid = None, so_in_table = True, so_owner_pids = [666]\<rparr>)] [] None]"

definition clean :: snapshot where
  "clean = snapshot_of [obs ''procfs.processes'' [IdInt 1] [(IdInt 1, sample_process 1)] [] None]"

lemma infected_signals: "\<exists>sigs. all_signals infected (Some clean) = Inr sigs"
proof -
  have "\<not> isl (all_signals infected (Some clean))" by code_simp
  then show ?thesis by (cases "all_signals infected (Some clean)") auto
qed

lemma infected_analyzed: "\<exists>fs. analyze infected (Some clean) = Inr fs"
  using infected_signals by (auto simp: analyze_def)

lemma version_1_3: "version_readable (lit ''1.3'')"
  by (simp add: version_readable_def parse_version_def split_on_def lit_def py_int_ascii
      is_ascii_digit_def max_str_digits_def dec_value_def)

lemmas sample_ok_simps = snapshot_ok_def snapshot_of_def observation_ok_def entities_ok_def obs_def
  version_1_3 printable_small string_id_collectors_def entity_types_def sample_process_def
  sample_task_def sample_module_def

lemma clean_ok: "snapshot_ok clean"
  by (simp add: sample_ok_simps clean_def)

lemma infected_ok: "snapshot_ok infected"
  by (simp add: sample_ok_simps infected_def)

end
