(* ===== verification/Snapshot_Props.thy ===== *)
theory Snapshot_Props
  imports Sample
begin

text \<open>
  What the file format promises: reloading a stored snapshot gives the snapshot back with its lists
  sorted, and storing the reloaded snapshot gives the same file.
\<close>

lemma dict_of_map: "dict_of f g (map h xs) = dict_of (\<lambda>x. f (h x)) (\<lambda>x. g (h x)) xs"
  by (simp add: dict_of_def fold_map comp_def)

lemma entities_json_norm [simp]: "entities_json (entities_norm es) = entities_json es"
  by (simp add: entities_json_def entities_norm_def dict_of_map case_prod_unfold)

lemma sort_ids_sort: "sort_ids ids = Inr xs \<Longrightarrow> xs = sort ids \<and> sort_ids xs = Inr xs"
  by (auto simp: sort_ids_def list_all_iff split: if_splits)

lemma observation_restored:
  "observation_ok o' \<Longrightarrow> observation_to_dict (observation_norm o') = observation_to_dict o'"
  by (auto simp: observation_ok_def observation_to_dict_def observation_norm_def sort_ids_def
      list_all_iff)

lemma snapshot_restored: "snapshot_ok s \<Longrightarrow> snapshot_to_dict (snapshot_norm s) = snapshot_to_dict s"
  by (auto simp: snapshot_ok_def snapshot_to_dict_def snapshot_norm_def list_all_iff
      observation_restored intro!: bindE_cong mapE_cong)

section \<open>Properties of the snapshot format\<close>

text \<open>
  Every snapshot the program writes can be read back: the reloaded snapshot is the original
  with the entity ids of each observation in ascending order and the two sorted lists of its
  entities sorted, and writing the reloaded snapshot gives the very same document.
\<close>

theorem snapshot_reload:
  assumes "snapshot_ok s"
  shows "\<exists>d. snapshot_to_dict s = Inr d \<and> snapshot_from_dict d = Inr (snapshot_norm s) \<and>
     snapshot_to_dict (snapshot_norm s) = Inr d"
  using snapshot_roundtrip [OF assms] snapshot_restored [OF assms] by auto

theorem snapshot_reload_witness:
  "\<exists>d. snapshot_to_dict infected = Inr d \<and>
     snapshot_from_dict d = Inr (snapshot_norm infected) \<and> length (sn_observations infected) = 6"
proof -
  have "length (sn_observations infected) = 6" by code_simp
  with snapshot_reload [OF infected_ok] show ?thesis by blast
qed

end
