(* ===== verification/Score_Facts.thy ===== *)
theory Score_Facts
  imports Scoring
begin

text \<open>
  What the scorer computes, in terms of its input: the candidates, the signals that each suspect
  ends up with, the findings as compositions of them, and the conservation of evidence. All
  properties of findings are read off these lemmas.
\<close>

section \<open>Candidates and members\<close>

definition named_signals :: "signal list \<Rightarrow> signal list" where
  "named_signals sigs = filter (\<lambda>g. su_name (sg_suspect g) \<noteq> None) sigs"

definition anon_signals :: "signal list \<Rightarrow> signal list" where
  "anon_signals sigs = filter (\<lambda>g. su_name (sg_suspect g) = None) sigs"

definition signal_groups :: "signal list \<Rightarrow> (suspect \<times> signal list) list" where
  "signal_groups sigs = group_by sg_suspect (\<lambda>g. g) (named_signals sigs)"

definition candidates :: "signal list \<Rightarrow> pystr list" where
  "candidates sigs = sorted_set (hidden_named (signal_groups sigs))"

definition attributed :: "signal list \<Rightarrow> bool" where
  "attributed sigs \<longleftrightarrow> length (candidates sigs) = 1 \<and> anon_signals sigs \<noteq> []"

definition module_suspect :: "pystr \<Rightarrow> suspect" where
  "module_suspect n = \<lparr>su_kind = module_kind, su_name = Some n\<rparr>"

definition final_groups :: "signal list \<Rightarrow> (suspect \<times> signal list) list" where
  "final_groups sigs =
     (if attributed sigs
      then dextend (module_suspect (hd (candidates sigs))) (anon_signals sigs) (signal_groups sigs)
      else signal_groups sigs)"

definition members :: "signal list \<Rightarrow> suspect \<Rightarrow> signal list" where
  "members sigs u =
     filter (\<lambda>g. sg_suspect g = u) (named_signals sigs) @
     (if attributed sigs \<and> u = module_suspect (hd (candidates sigs)) then anon_signals sigs else [])"

definition leftover :: "signal list \<Rightarrow> signal list" where
  "leftover sigs = (if attributed sigs then [] else anon_signals sigs)"

lemma suspect_eq_iff: "u = \<lparr>su_kind = k, su_name = m\<rparr> \<longleftrightarrow> su_kind u = k \<and> su_name u = m"
  by (cases u) simp

lemma score_alt:
  "score sigs = sort_key fi_subject
     (map (\<lambda>(u, ms). compose u ms)
        (sort_key (\<lambda>(u, _). (su_kind u, name_or_empty u)) (final_groups sigs))
      @ (if leftover sigs \<noteq> [] then [unattributed (candidates sigs) (leftover sigs)] else []))"
  by (simp add: score_def Let_def final_groups_def leftover_def attributed_def candidates_def
      signal_groups_def named_signals_def anon_signals_def module_suspect_def)

lemma set_candidates:
  "set (candidates sigs) =
     {n. \<exists>g \<in> set sigs. sg_suspect g = module_suspect n \<and> sg_channel g \<in> set hiding_named}"
    (is "?L = ?R")
proof
  show "?L \<subseteq> ?R"
  proof
    fix n
    assume "n \<in> ?L"
    then obtain u ms g where e: "(u, ms) \<in> set (signal_groups sigs)" and n: "su_name u = Some n"
      and k: "su_kind u = module_kind" and g: "g \<in> set ms" "sg_channel g \<in> set hiding_named"
      by (auto simp: candidates_def hidden_named_def list_ex_iff split: option.splits if_splits)
    from e have "ms = filter (\<lambda>g. sg_suspect g = u) (named_signals sigs)"
      unfolding signal_groups_def by (drule_tac group_by_entry(1)) simp
    with g n k show "n \<in> ?R"
      by (auto simp: named_signals_def module_suspect_def suspect_eq_iff)
  qed
next
  show "?R \<subseteq> ?L"
  proof
    fix n
    assume "n \<in> ?R"
    then obtain g where g: "g \<in> set sigs" "sg_suspect g = module_suspect n"
      "sg_channel g \<in> set hiding_named" by blast
    then have mem: "g \<in> set (named_signals sigs)"
      by (simp add: named_signals_def module_suspect_def)
    define ms where "ms = filter (\<lambda>x. sg_suspect x = module_suspect n) (named_signals sigs)"
    from mem g(2) have "module_suspect n \<in> sg_suspect ` set (named_signals sigs)"
      by (rule_tac image_eqI [of _ _ g]) simp_all
    then have e: "(module_suspect n, ms) \<in> set (signal_groups sigs)"
      using group_by_entryI [of "module_suspect n" sg_suspect "named_signals sigs" "\<lambda>g. g"]
      by (simp add: signal_groups_def ms_def)
    have "list_ex (\<lambda>g. sg_channel g \<in> set hiding_named) ms"
      using mem g by (auto simp: list_ex_iff ms_def)
    then show "n \<in> ?L"
      using e by (auto simp: candidates_def hidden_named_def module_suspect_def intro!: bexI [OF _ e])
  qed
qed

lemma candidates_sorted_distinct [simp]:
  "sorted (candidates sigs)" "distinct (candidates sigs)"
  by (simp_all add: candidates_def)

lemma candidate_is_suspect:
  assumes "attributed sigs"
  shows "module_suspect (hd (candidates sigs)) \<in> sg_suspect ` set (named_signals sigs)"
proof -
  have "hd (candidates sigs) \<in> set (candidates sigs)"
    using assms by (intro hd_in_set) (auto simp: attributed_def)
  then obtain g where "g \<in> set sigs" "sg_suspect g = module_suspect (hd (candidates sigs))"
    by (auto simp: set_candidates)
  then show ?thesis
    by (force simp: named_signals_def module_suspect_def)
qed

section \<open>The groups\<close>

lemma fst_signal_groups: "fst ` set (signal_groups sigs) = sg_suspect ` set (named_signals sigs)"
  by (simp add: signal_groups_def fst_group_by_set)

lemma map_fst_final_groups: "map fst (final_groups sigs) = map fst (signal_groups sigs)"
  using candidate_is_suspect [of sigs]
  by (simp add: final_groups_def fst_dextend fst_signal_groups)

lemma distinct_final_groups: "distinct (map fst (final_groups sigs))"
  unfolding map_fst_final_groups signal_groups_def by (rule distinct_fst_group_by)

lemma fst_final_groups: "fst ` set (final_groups sigs) = sg_suspect ` set (named_signals sigs)"
  using arg_cong [OF map_fst_final_groups, of set sigs] by (simp add: fst_signal_groups)

lemma map_of_signal_groups:
  "u \<in> sg_suspect ` set (named_signals sigs) \<Longrightarrow>
   map_of (signal_groups sigs) u = Some (filter (\<lambda>g. sg_suspect g = u) (named_signals sigs))"
  by (simp add: signal_groups_def map_of_group_by)

lemma map_of_final_groups:
  assumes "u \<in> sg_suspect ` set (named_signals sigs)"
  shows "map_of (final_groups sigs) u = Some (members sigs u)"
  using assms candidate_is_suspect [of sigs]
  by (auto simp: final_groups_def map_of_dextend fst_signal_groups members_def
      map_of_signal_groups)

lemma final_groups_iff:
  "(u, ms) \<in> set (final_groups sigs) \<longleftrightarrow>
     u \<in> sg_suspect ` set (named_signals sigs) \<and> ms = members sigs u"
proof
  assume e: "(u, ms) \<in> set (final_groups sigs)"
  then have "u \<in> sg_suspect ` set (named_signals sigs)"
    using fst_final_groups [of sigs] by force
  moreover from e have "map_of (final_groups sigs) u = Some ms"
    by (simp add: distinct_final_groups)
  ultimately show "u \<in> sg_suspect ` set (named_signals sigs) \<and> ms = members sigs u"
    by (simp add: map_of_final_groups)
next
  assume "u \<in> sg_suspect ` set (named_signals sigs) \<and> ms = members sigs u"
  then show "(u, ms) \<in> set (final_groups sigs)"
    by (auto intro: map_of_SomeD map_of_final_groups)
qed

text \<open>The findings: one per named suspect, and one for what could not be attributed.\<close>

lemma set_score:
  "set (score sigs) =
     {compose u (members sigs u) | u. u \<in> sg_suspect ` set (named_signals sigs)} \<union>
     (if leftover sigs \<noteq> [] then {unattributed (candidates sigs) (leftover sigs)} else {})"
proof -
  have "set (final_groups sigs) =
      (\<lambda>u. (u, members sigs u)) ` sg_suspect ` set (named_signals sigs)"
    by (auto simp: final_groups_iff)
  then show ?thesis by (auto simp: score_alt)
qed

lemma score_Nil_iff: "score sigs = [] \<longleftrightarrow> sigs = []"
proof
  assume "score sigs = []"
  then have a: "set (score sigs) = {}" by simp
  from a have "named_signals sigs = []" by (auto simp: set_score)
  moreover from a have "leftover sigs = []" by (auto simp: set_score split: if_splits)
  ultimately show "sigs = []"
    using candidate_is_suspect [of sigs]
    by (cases sigs) (auto simp: leftover_def named_signals_def anon_signals_def split: if_splits)
next
  assume "sigs = []"
  then show "score sigs = []"
    by (simp add: score_alt final_groups_def attributed_def leftover_def signal_groups_def
        named_signals_def anon_signals_def)
qed

section \<open>Composition\<close>

lemma compose_sel [simp]:
  "fi_kind (compose u ms) = fst (classify u (fi_channels_agree (compose u ms)))"
  "fi_subject (compose u ms) = fst (snd (classify u (fi_channels_agree (compose u ms))))"
  "fi_confidence (compose u ms) = confidence_of (length (fi_channels_agree (compose u ms)))"
  "fi_channels_agree (compose u ms) = sorted_set (map sg_channel ms)"
  "fi_channels_dissent (compose u ms) = sorted_set (map sg_dissent ms)"
proof -
  have "sorted_set (map sg_channel (sort_key sg_channel ms)) = sorted_set (map sg_channel ms)"
    "sorted_set (map sg_dissent (sort_key sg_channel ms)) = sorted_set (map sg_dissent ms)"
    by (rule sorted_set_eqI, simp)+
  then show
    "fi_kind (compose u ms) = fst (classify u (fi_channels_agree (compose u ms)))"
    "fi_subject (compose u ms) = fst (snd (classify u (fi_channels_agree (compose u ms))))"
    "fi_confidence (compose u ms) = confidence_of (length (fi_channels_agree (compose u ms)))"
    "fi_channels_agree (compose u ms) = sorted_set (map sg_channel ms)"
    "fi_channels_dissent (compose u ms) = sorted_set (map sg_dissent ms)"
    by (simp_all add: compose_def Let_def split: prod.split)
qed

lemma fi_evidence_compose:
  "fi_evidence (compose u ms) =
     map (\<lambda>(c, es). (c, JList es)) (evidence_groups (sort_key sg_channel ms))"
  by (simp add: compose_def Let_def split: prod.split)

lemma unattributed_sel [simp]:
  "fi_kind (unattributed cs anon) = SUSPECTED_HIDDEN_MODULE"
  "fi_subject (unattributed cs anon) = lit ''unattributed hidden module''"
  "fi_channels_agree (unattributed cs anon) = sorted_set (map sg_channel anon)"
  "fi_channels_dissent (unattributed cs anon) = sorted_set (map sg_dissent anon)"
  "fi_confidence (unattributed cs anon) =
     confidence_of (length (sorted_set (map sg_channel anon)))"
  by (simp_all add: unattributed_def Let_def classify_def)

lemma classify_subject:
  "fst (snd (classify u cs)) =
     (if su_kind u = process_kind then lit ''pid '' @ show_name (su_name u)
      else if su_name u = None then lit ''unattributed hidden module''
      else lit ''module '' @ show_name (su_name u))"
  by (simp add: classify_def Let_def)

section \<open>Evidence is conserved\<close>

text \<open>The evidence a finding carries, channel by channel; the list of candidates is not evidence.\<close>

definition finding_evidence :: "finding \<Rightarrow> (pystr \<times> json) list" where
  "finding_evidence f =
     concat (map (\<lambda>(c, v). case v of JList es \<Rightarrow> map (Pair c) es | _ \<Rightarrow> [])
       (filter (\<lambda>(c, v). c \<noteq> lit ''candidates'') (fi_evidence f)))"

definition signal_evidence :: "signal \<Rightarrow> pystr \<times> json" where
  "signal_evidence g = (sg_channel g, JDict (sg_evidence g))"

lemma concat_ungroup:
  "k \<notin> fst ` set gs \<Longrightarrow>
   concat (map (\<lambda>(c, v). case v of JList es \<Rightarrow> map (Pair c) es | _ \<Rightarrow> [])
     (filter (\<lambda>(c, v). c \<noteq> k) (map (\<lambda>(c, es). (c, JList es)) gs))) = ungroup gs"
  by (induction gs) (auto simp: ungroup_def)

lemma mset_evidence_compose:
  assumes "lit ''candidates'' \<notin> sg_channel ` set ms"
  shows "mset (finding_evidence (compose u ms)) = image_mset signal_evidence (mset ms)"
proof -
  let ?gs = "evidence_groups (sort_key sg_channel ms)"
  have "lit ''candidates'' \<notin> fst ` set ?gs"
    using assms by (simp add: evidence_groups_def fst_group_by_set)
  then have "finding_evidence (compose u ms) = ungroup ?gs"
    unfolding finding_evidence_def fi_evidence_compose by (rule concat_ungroup)
  then show ?thesis
    by (simp add: evidence_groups_def mset_ungroup_group_by signal_evidence_def [abs_def])
qed

lemma mset_concat_map_cong:
  "(\<And>x. x \<in> set xs \<Longrightarrow> mset (f x) = mset (g x)) \<Longrightarrow>
   mset (concat (map f xs)) = mset (concat (map g xs))"
  by (induction xs) auto

lemma mset_concat_sort_key:
  "mset (concat (map f (sort_key k xs))) = mset (concat (map f xs))"
proof -
  have "sum_list (map (\<lambda>x. mset (f x)) (sort_key k xs)) = sum_list (map (\<lambda>x. mset (f x)) xs)"
    by (simp only: sum_mset_sum_list [symmetric] mset_map mset_sort)
  then show ?thesis
    by (simp add: mset_concat comp_def)
qed

lemma mset_evidence_unattributed:
  assumes "lit ''candidates'' \<notin> sg_channel ` set ms"
  shows "mset (finding_evidence (unattributed cs ms)) = image_mset signal_evidence (mset ms)"
proof (cases "length cs > 1")
  case True
  let ?f = "compose \<lparr>su_kind = module_kind, su_name = None\<rparr> ms"
  let ?gs = "evidence_groups (sort_key sg_channel ms)"
  have "fst ` set (fi_evidence ?f) = fst ` set ?gs"
    by (force simp: fi_evidence_compose)
  also have "\<dots> = sg_channel ` set ms"
    by (simp add: evidence_groups_def fst_group_by_set)
  finally have "fst ` set (fi_evidence ?f) = sg_channel ` set ms" .
  with assms have "AList.update (lit ''candidates'') (strs_json cs) (fi_evidence ?f) =
      fi_evidence ?f @ [(lit ''candidates'', strs_json cs)]"
    by (intro update_fresh) simp
  with True have "finding_evidence (unattributed cs ms) = finding_evidence ?f"
    by (simp add: unattributed_def Let_def finding_evidence_def)
  then show ?thesis using mset_evidence_compose [OF assms] by simp
next
  case False
  then show ?thesis using mset_evidence_compose [OF assms] by (simp add: unattributed_def)
qed

lemma mset_ungroup_snd: "mset (concat (map snd gs)) = image_mset snd (mset (ungroup gs))"
  by (induction gs) (auto simp: ungroup_def image_mset.compositionality comp_def)

lemma mset_final_groups:
  "mset (concat (map snd (final_groups sigs))) + mset (leftover sigs) = mset sigs"
proof -
  have "mset (concat (map snd (signal_groups sigs))) = mset (named_signals sigs)"
    by (simp add: mset_ungroup_snd signal_groups_def mset_ungroup_group_by image_mset.compositionality comp_def)
  moreover have "mset (named_signals sigs) + mset (anon_signals sigs) = mset sigs"
    by (simp add: named_signals_def anon_signals_def)
  moreover have "mset (concat (map snd (final_groups sigs))) =
      mset (concat (map snd (signal_groups sigs))) +
      (if attributed sigs then mset (anon_signals sigs) else {#})"
    by (simp only: mset_ungroup_snd final_groups_def)
      (simp add: mset_ungroup_dextend image_mset.compositionality comp_def)
  ultimately show ?thesis
    by (simp add: leftover_def)
qed

lemma set_final_groups_members: "(u, ms) \<in> set (final_groups sigs) \<Longrightarrow> set ms \<subseteq> set sigs"
  by (auto simp: final_groups_iff members_def named_signals_def anon_signals_def split: if_splits)

lemma mset_evidence_score:
  assumes fresh: "lit ''candidates'' \<notin> sg_channel ` set sigs"
  shows "mset (concat (map finding_evidence (score sigs))) = image_mset signal_evidence (mset sigs)"
proof -
  have "mset (concat (map (\<lambda>(u, ms). finding_evidence (compose u ms)) (final_groups sigs))) =
      mset (concat (map (\<lambda>(u, ms). map signal_evidence ms) (final_groups sigs)))"
  proof (rule mset_concat_map_cong, clarify)
    fix u ms
    assume "(u, ms) \<in> set (final_groups sigs)"
    then have "set ms \<subseteq> set sigs" by (rule set_final_groups_members)
    with fresh have "lit ''candidates'' \<notin> sg_channel ` set ms" by blast
    then show "mset (finding_evidence (compose u ms)) = mset (map signal_evidence ms)"
      by (simp add: mset_evidence_compose)
  qed
  moreover have "map (\<lambda>(u, ms). map signal_evidence ms) gs = map (map signal_evidence) (map snd gs)"
    for gs :: "(suspect \<times> signal list) list" by (simp add: case_prod_beta)
  ultimately have named:
    "mset (concat (map (\<lambda>(u, ms). finding_evidence (compose u ms)) (final_groups sigs))) =
      image_mset signal_evidence (mset (concat (map snd (final_groups sigs))))"
    by (simp only: map_concat [symmetric] mset_map)
  have "lit ''candidates'' \<notin> sg_channel ` set (leftover sigs)"
    using fresh by (auto simp: leftover_def anon_signals_def)
  then have left: "mset (concat (map finding_evidence
       (if leftover sigs \<noteq> [] then [unattributed (candidates sigs) (leftover sigs)] else []))) =
      image_mset signal_evidence (mset (leftover sigs))"
    by (simp add: mset_evidence_unattributed)
  define K where "K = (\<lambda>(u :: suspect, ms :: signal list). (su_kind u, name_or_empty u))"
  define F where "F = map (\<lambda>(u, ms). compose u ms) (sort_key K (final_groups sigs))"
  have "map finding_evidence F =
      map (\<lambda>(u, ms). finding_evidence (compose u ms)) (sort_key K (final_groups sigs))"
    by (simp add: F_def case_prod_beta)
  then have "mset (concat (map finding_evidence F)) =
      mset (concat (map (\<lambda>(u, ms). finding_evidence (compose u ms)) (final_groups sigs)))"
    by (simp only: mset_concat_sort_key)
  moreover have "mset (concat (map finding_evidence (score sigs))) =
      mset (concat (map finding_evidence F)) + mset (concat (map finding_evidence
       (if leftover sigs \<noteq> [] then [unattributed (candidates sigs) (leftover sigs)] else [])))"
    by (simp only: score_alt mset_concat_sort_key map_append concat_append mset_append F_def K_def)
  ultimately have "mset (concat (map finding_evidence (score sigs))) =
      mset (concat (map (\<lambda>(u, ms). finding_evidence (compose u ms)) (final_groups sigs))) +
      mset (concat (map finding_evidence
       (if leftover sigs \<noteq> [] then [unattributed (candidates sigs) (leftover sigs)] else [])))"
    by (simp only:)
  also have "\<dots> = image_mset signal_evidence
      (mset (concat (map snd (final_groups sigs))) + mset (leftover sigs))"
    by (simp only: named left image_mset_union)
  also have "\<dots> = image_mset signal_evidence (mset sigs)"
    by (simp only: mset_final_groups)
  finally show ?thesis .
qed

end
