(* ===== verification/Detector_Facts.thy ===== *)
theory Detector_Facts
  imports Score_Facts
begin

text \<open>
  What each detector reports, exactly: the channels and suspects of its signals in terms of what
  the snapshot says. The contract every detector keeps towards the scorer is a locale, with one
  interpretation per detector of \<open>analysis/signals.py\<close>.
\<close>

section \<open>The contract of a detector\<close>

definition fired :: "signal list \<Rightarrow> (pystr \<times> suspect) set" where
  "fired sigs = (\<lambda>g. (sg_channel g, sg_suspect g)) ` set sigs"

lemma fired_simps [simp]:
  "fired [] = {}"
  "fired (g # sigs) = insert (sg_channel g, sg_suspect g) (fired sigs)"
  "fired (xs @ ys) = fired xs \<union> fired ys"
  "fired (sort_key f xs) = fired xs"
  by (auto simp: fired_def)

lemma fired_map [simp]:
  "fired (map f xs) = (\<lambda>x. (sg_channel (f x), sg_suspect (f x))) ` set xs"
  by (simp add: fired_def image_image)

lemma fired_concat [simp]: "fired (concat xss) = (\<Union>xs \<in> set xss. fired xs)"
  by (auto simp: fired_def)

lemma fired_I: "g \<in> set sigs \<Longrightarrow> (sg_channel g, sg_suspect g) \<in> fired sigs"
  by (auto simp: fired_def)

locale detector =
  fixes detect :: "'s \<Rightarrow> signal list result"
    and channels :: "pystr list"
    and kind :: pystr
    and dissent :: pystr
  assumes law: "detect s = Inr sigs \<Longrightarrow> g \<in> set sigs \<Longrightarrow>
      sg_channel g \<in> set channels \<and> su_kind (sg_suspect g) = kind \<and> sg_dissent g = dissent"
begin

lemma fired_channel: "detect s = Inr sigs \<Longrightarrow> (c, u) \<in> fired sigs \<Longrightarrow> c \<in> set channels"
  using law by (auto simp: fired_def)

lemma fired_kind: "detect s = Inr sigs \<Longrightarrow> (c, u) \<in> fired sigs \<Longrightarrow> su_kind u = kind"
  using law by (auto simp: fired_def)

lemma silent_elsewhere: "detect s = Inr sigs \<Longrightarrow> c \<notin> set channels \<Longrightarrow> (c, u) \<notin> fired sigs"
  using fired_channel by blast

lemma silent_on_others: "detect s = Inr sigs \<Longrightarrow> su_kind u \<noteq> kind \<Longrightarrow> (c, u) \<notin> fired sigs"
  using fired_kind by blast

end

text \<open>A detector that always names its suspect never feeds the attribution rule.\<close>

locale naming_detector = detector +
  assumes named: "detect s = Inr sigs \<Longrightarrow> g \<in> set sigs \<Longrightarrow> su_name (sg_suspect g) \<noteq> None"
begin

lemma no_anon: "detect s = Inr sigs \<Longrightarrow> anon_signals sigs = []"
  using named by (auto simp: anon_signals_def filter_empty_conv)

lemma fired_named: "detect s = Inr sigs \<Longrightarrow> (c, u) \<in> fired sigs \<Longrightarrow> su_name u \<noteq> None"
  using named by (auto simp: fired_def)

end

lemma mk_signal_sel [simp]:
  "sg_channel (mk_signal c k n d ev) = lit c"
  "sg_suspect (mk_signal c k n d ev) = \<lparr>su_kind = k, su_name = n\<rparr>"
  "sg_dissent (mk_signal c k n d ev) = d"
  "sg_evidence (mk_signal c k n d ev) = ldict ev"
  by (simp_all add: mk_signal_def)

section \<open>Suspects\<close>

definition process_suspect :: "int \<Rightarrow> suspect" where
  "process_suspect n = \<lparr>su_kind = process_kind, su_name = Some (str_int n)\<rparr>"

definition anon_suspect :: suspect where
  "anon_suspect = \<lparr>su_kind = module_kind, su_name = None\<rparr>"

lemma suspect_simps [simp]:
  "process_suspect m = process_suspect n \<longleftrightarrow> m = n"
  "module_suspect a = module_suspect b \<longleftrightarrow> a = b"
  "process_suspect m \<noteq> module_suspect a" "module_suspect a \<noteq> process_suspect m"
  "process_suspect m \<noteq> anon_suspect" "anon_suspect \<noteq> process_suspect m"
  "module_suspect a \<noteq> anon_suspect" "anon_suspect \<noteq> module_suspect a"
  "su_kind (process_suspect m) = process_kind" "su_kind (module_suspect a) = module_kind"
  "su_kind anon_suspect = module_kind" "su_name anon_suspect = None"
  "su_name (process_suspect m) = Some (str_int m)" "su_name (module_suspect a) = Some a"
  by (auto simp: process_suspect_def module_suspect_def anon_suspect_def)

section \<open>Modules\<close>

text \<open>Some ftrace record names module \<open>n\<close>, which \<open>/proc/modules\<close> does not list.\<close>

definition ftrace_hidden :: "snapshot \<Rightarrow> pystr \<Rightarrow> bool" where
  "ftrace_hidden s n \<longleftrightarrow>
     (case (observations s ''procfs.modules'', observations s ''kernel.module_evidence'') of
        (listing # _, ev # _) \<Rightarrow>
          (case list_of as_str (extra_get ev ''ftrace_modules'') of
             Inl _ \<Rightarrow> False
           | Inr names \<Rightarrow> n \<in> set names \<and> IdStr n \<notin> set (ob_entity_ids listing))
      | _ \<Rightarrow> False)"

text \<open>The kernel taint has bit 12 or 13 set and no listed module carries its marker.\<close>

definition taint_unexplained :: "int \<Rightarrow> (pystr \<times> pystr option) list \<Rightarrow> bool" where
  "taint_unexplained t markers \<longleftrightarrow>
     bit t 12 \<and> owners_of 79 markers = [] \<or> bit t 13 \<and> owners_of 69 markers = []"

definition taint_fires :: "snapshot \<Rightarrow> bool" where
  "taint_fires s \<longleftrightarrow>
     (case (observations s ''procfs.modules'', observations s ''kernel.module_evidence'') of
        (_ # _, ev # _) \<Rightarrow>
          (case (as_number (stat_get ev ''taint'' (JInt 0)), listed_markers s) of
             (Inr t, Inr markers) \<Rightarrow> taint_unexplained t markers
           | _ \<Rightarrow> False)
      | _ \<Rightarrow> False)"

text \<open>There are more vmalloc regions of the module loader than listed modules.\<close>

definition region_fires :: "snapshot \<Rightarrow> bool" where
  "region_fires s \<longleftrightarrow>
     (case (observations s ''procfs.modules'', observations s ''kernel.module_evidence'') of
        (listing # _, ev # _) \<Rightarrow>
          (case as_number (stat_get ev ''load_module_regions'' JNull) of
             Inl _ \<Rightarrow> False
           | Inr n \<Rightarrow> n > int (card (set (ob_entity_ids listing))))
      | _ \<Rightarrow> False)"

lemma list_of_JNull [simp]: "list_of conv JNull \<noteq> Inr xs"
  by (simp add: list_of_def)

lemma as_number_JNull [simp]: "as_number JNull \<noteq> Inr n"
  by simp

lemma tr_unexplained_iff:
  "tr_unexplained (reconcile t markers) \<noteq> [] \<longleftrightarrow> taint_unexplained t markers"
  by (auto simp: reconcile_simps taint_unexplained_def)

lemma fired_taint:
  "taint_signals taint markers = Inr sigs \<Longrightarrow>
   fired sigs = (case as_number taint of Inl _ \<Rightarrow> {} | Inr t \<Rightarrow>
     if taint_unexplained t markers then {(lit ''taint'', anon_suspect)} else {})"
  by (auto simp: taint_signals_def Let_def bindE_eq_Inr_iff tr_unexplained_iff anon_suspect_def
      split: if_splits)

lemma fired_region:
  "region_signals regions listed = Inr sigs \<Longrightarrow>
   fired sigs = (case as_number regions of Inl _ \<Rightarrow> {} | Inr n \<Rightarrow>
     if n > int (card (set listed)) then {(lit ''vmalloc_region'', anon_suspect)} else {})"
  by (auto simp: region_signals_def bindE_eq_Inr_iff set_size_card anon_suspect_def
      split: if_splits sum.splits)

lemma fired_ftrace:
  "ftrace_signals ftrace listed = Inr sigs \<Longrightarrow>
   fired sigs = (case list_of as_str ftrace of Inl _ \<Rightarrow> {} | Inr names \<Rightarrow>
     {(lit ''ftrace_orphan'', module_suspect n) | n. n \<in> set names \<and> IdStr n \<notin> set listed})"
  by (auto simp: ftrace_signals_def bindE_eq_Inr_iff module_suspect_def
      split: if_splits sum.splits)

lemma fired_modules:
  assumes "signals_modules s = Inr sigs"
  shows "fired sigs =
     (if taint_fires s then {(lit ''taint'', anon_suspect)} else {}) \<union>
     (if region_fires s then {(lit ''vmalloc_region'', anon_suspect)} else {}) \<union>
     {(lit ''ftrace_orphan'', module_suspect n) | n. ftrace_hidden s n}"
proof (cases "\<exists>listing ls ev es. observations s ''procfs.modules'' = listing # ls \<and>
    observations s ''kernel.module_evidence'' = ev # es")
  case True
  then obtain listing ls ev es where o: "observations s ''procfs.modules'' = listing # ls"
    "observations s ''kernel.module_evidence'' = ev # es" by blast
  with assms obtain markers s1 s2 s3 where m: "listed_markers s = Inr markers"
    and 1: "taint_signals (stat_get ev ''taint'' (JInt 0)) markers = Inr s1"
    and 2: "region_signals (stat_get ev ''load_module_regions'' JNull) (ob_entity_ids listing) = Inr s2"
    and 3: "ftrace_signals (extra_get ev ''ftrace_modules'') (ob_entity_ids listing) = Inr s3"
    and s: "sigs = s1 @ s2 @ s3"
    by (auto simp: signals_modules_def Let_def bindE_eq_Inr_iff)
  show ?thesis
    by (simp add: s fired_taint [OF 1] fired_region [OF 2] fired_ftrace [OF 3] taint_fires_def
        region_fires_def ftrace_hidden_def o m insert_commute split: sum.split)
next
  case False
  then show ?thesis using assms
    by (auto simp: signals_modules_def taint_fires_def region_fires_def ftrace_hidden_def
        split: list.splits)
qed

section \<open>Hooks\<close>

text \<open>A registered hook is owned by module \<open>n\<close>, which \<open>/proc/modules\<close> does not list.\<close>

definition hook_hidden :: "snapshot \<Rightarrow> pystr \<Rightarrow> bool" where
  "hook_hidden s n \<longleftrightarrow>
     IdStr n \<notin> set (module_ids s) \<and>
     (case observations s ''kernel.hooks'' of
        [] \<Rightarrow> False
      | hooks # _ \<Rightarrow>
          list_ex (\<lambda>key. case entity_at hooks key of
              Inr (EHook h) \<Rightarrow> hk_owner_module h = Some n
            | _ \<Rightarrow> False) (ob_entity_ids hooks))"

lemma entity_kinds [simp]:
  "as_hook e = Inr h \<longleftrightarrow> e = EHook h" "as_module e = Inr m \<longleftrightarrow> e = EModule m"
  "as_sweep e = Inr w \<longleftrightarrow> e = ESweep w" "as_socket e = Inr k \<longleftrightarrow> e = ESocket k"
  by (cases e; auto)+

lemma entity_cases_iff:
  "(case r of Inl _ \<Rightarrow> False | Inr (EHook h) \<Rightarrow> P h | Inr _ \<Rightarrow> False) \<longleftrightarrow>
     (\<exists>h. r = Inr (EHook h) \<and> P h)"
  "(case r of Inl _ \<Rightarrow> False | Inr (ESocket k) \<Rightarrow> Q k | Inr _ \<Rightarrow> False) \<longleftrightarrow>
     (\<exists>k. r = Inr (ESocket k) \<and> Q k)"
  by (auto split: sum.split entity.split)

lemma fired_hook_signals:
  "fired (hook_signals listed h) =
     (case hk_owner_module h of None \<Rightarrow> {} | Some n \<Rightarrow>
        if IdStr n \<in> set listed then {} else {(lit ''unexpected_hook'', module_suspect n)})"
  by (simp add: hook_signals_def module_suspect_def split: option.split)

lemma mapE_range:
  "mapE f xs = Inr ys \<Longrightarrow> set ys = {y. \<exists>x \<in> set xs. f x = Inr y}"
  by (induction xs arbitrary: ys) (auto simp: bindE_eq_Inr_iff)

lemma fired_hooks:
  assumes "signals_hooks s = Inr sigs"
  shows "fired sigs = {(lit ''unexpected_hook'', module_suspect n) | n. hook_hidden s n}"
proof (cases "observations s ''kernel.hooks''")
  case Nil
  then show ?thesis using assms by (simp add: signals_hooks_def hook_hidden_def)
next
  case (Cons hooks hs)
  with assms obtain out where
    out: "mapE (\<lambda>key. bindE (entity_at hooks key) (\<lambda>e. bindE (as_hook e) (\<lambda>ent.
      Inr (hook_signals (module_ids s) ent)))) (ob_entity_ids hooks) = Inr out"
    and s: "fired sigs = fired (concat out)"
    by (auto simp: signals_hooks_def bindE_eq_Inr_iff)
  define H where "H = {h. \<exists>key \<in> set (ob_entity_ids hooks). entity_at hooks key = Inr (EHook h)}"
  have hidden: "hook_hidden s n \<longleftrightarrow>
      IdStr n \<notin> set (module_ids s) \<and> (\<exists>h \<in> H. hk_owner_module h = Some n)" for n
    unfolding hook_hidden_def Cons list.case list_ex_iff entity_cases_iff H_def by blast
  have "set out = hook_signals (module_ids s) ` H"
    unfolding mapE_range [OF out] by (auto simp: bindE_eq_Inr_iff H_def)
  then have "fired sigs = (\<Union>h \<in> H. fired (hook_signals (module_ids s) h))"
    by (simp add: s)
  then show ?thesis
    by (auto simp: hidden fired_hook_signals split: option.splits if_splits)
qed

section \<open>Processes\<close>

text \<open>
  The sweep read the status of a task of thread group \<open>n\<close>, and no pass over the readdir listing
  of \<open>/proc\<close> showed \<open>n\<close>.
\<close>

definition swept :: "observation \<Rightarrow> eid list \<Rightarrow> int \<Rightarrow> bool" where
  "swept sweep ids n \<longleftrightarrow>
     list_ex (\<lambda>key. case entity_at sweep key of
         Inr (ESweep w) \<Rightarrow> sw_status_readable w \<and> sw_tgid w = n
       | _ \<Rightarrow> False) ids"

definition swept_hidden :: "snapshot \<Rightarrow> int \<Rightarrow> bool" where
  "swept_hidden s n \<longleftrightarrow>
     IdInt n \<notin> set (procfs_listed s) \<and>
     (case (observations s ''procfs.processes'', observations s ''syscall_sweep.processes'') of
        (_ # _, sweep # _) \<Rightarrow> swept sweep (ob_entity_ids sweep) n
      | _ \<Rightarrow> False)"

lemma fired_sweep_loop:
  "sweep_loop procfs listed sweep ids reported = Inr sigs \<Longrightarrow>
   fired sigs = {(c, process_suspect n) | c n. c \<in> {lit ''syscall_kill'', lit ''direct_status''} \<and>
     n \<notin> set reported \<and> IdInt n \<notin> set listed \<and> swept sweep ids n}"
proof (induction ids arbitrary: reported sigs)
  case Nil
  then show ?case by (simp add: swept_def)
next
  case (Cons key ids)
  then obtain w where w: "entity_at sweep key = Inr (ESweep w)"
    by (auto simp: bindE_eq_Inr_iff)
  have step: "swept sweep (key # ids) n \<longleftrightarrow>
      sw_status_readable w \<and> sw_tgid w = n \<or> swept sweep ids n" for n
    by (simp add: swept_def w)
  show ?case
  proof (cases "sw_status_readable w \<and> IdInt (sw_tgid w) \<notin> set listed \<and>
      sw_tgid w \<notin> set reported")
    case False
    with Cons.prems w have "sweep_loop procfs listed sweep ids reported = Inr sigs"
      by (auto split: if_splits)
    from Cons.IH [OF this] False show ?thesis by (auto simp: step)
  next
    case True
    with Cons.prems w obtain out where
      out: "sweep_loop procfs listed sweep ids (sw_tgid w # reported) = Inr out"
      and s: "sigs = process_signals procfs w @ out"
      by (auto simp: bindE_eq_Inr_iff)
    have "fired (process_signals procfs w) =
        {(c, process_suspect (sw_tgid w)) | c. c \<in> {lit ''syscall_kill'', lit ''direct_status''}}"
      by (auto simp: process_signals_def Let_def process_suspect_def)
    with True Cons.IH [OF out] show ?thesis by (auto simp: step s)
  qed
qed

lemma fired_processes:
  assumes "signals_processes s = Inr sigs"
  shows "fired sigs =
     {(c, process_suspect n) | c n. c \<in> {lit ''syscall_kill'', lit ''direct_status''} \<and>
       swept_hidden s n}"
  using assms
  by (auto simp: signals_processes_def swept_hidden_def dest!: fired_sweep_loop
      split: list.splits)

section \<open>Sockets\<close>

text \<open>
  A socket of the kernel's tables is held by a task whose thread group is \<open>n\<close>, and no pass
  showed \<open>n\<close>.
\<close>

definition socket_hidden :: "snapshot \<Rightarrow> int \<Rightarrow> bool" where
  "socket_hidden s n \<longleftrightarrow>
     IdInt n \<notin> set (procfs_listed s) \<and>
     (case (observations s ''procfs.sockets'', tid_to_tgid s) of
        (sockets # _, Inr m) \<Rightarrow>
          list_ex (\<lambda>key. case entity_at sockets key of
              Inr (ESocket e) \<Rightarrow> so_in_table e \<and> n \<in> fold_tid m ` set (so_owner_pids e)
            | _ \<Rightarrow> False) (ob_entity_ids sockets)
      | _ \<Rightarrow> False)"

lemma fired_owner_loop:
  "fired (owner_loop m listed e pids reported) =
     {(lit ''socket_visible'', process_suspect n) | n.
       n \<in> fold_tid m ` set pids \<and> IdInt n \<notin> set listed \<and> n \<notin> set reported}"
  by (induction pids arbitrary: reported)
    (auto simp: Let_def socket_signal_def process_suspect_def)

lemma fired_sockets:
  assumes "signals_sockets s = Inr sigs"
  shows "fired sigs = {(lit ''socket_visible'', process_suspect n) | n. socket_hidden s n}"
proof (cases "observations s ''procfs.sockets''")
  case Nil
  then show ?thesis using assms by (simp add: signals_sockets_def socket_hidden_def)
next
  case (Cons sockets ss)
  with assms obtain m out where m: "tid_to_tgid s = Inr m"
    and out: "mapE (\<lambda>key. bindE (entity_at sockets key) (\<lambda>x. bindE (as_socket x) (\<lambda>e.
      Inr (if so_in_table e then owner_loop m (procfs_listed s) e (so_owner_pids e) [] else []))))
        (ob_entity_ids sockets) = Inr out"
    and s: "fired sigs = fired (concat out)"
    by (auto simp: signals_sockets_def bindE_eq_Inr_iff)
  define H where "H = {e. \<exists>key \<in> set (ob_entity_ids sockets). entity_at sockets key = Inr (ESocket e)}"
  have hidden: "socket_hidden s n \<longleftrightarrow> IdInt n \<notin> set (procfs_listed s) \<and>
      (\<exists>e \<in> H. so_in_table e \<and> n \<in> fold_tid m ` set (so_owner_pids e))" for n
    unfolding socket_hidden_def Cons m list.case sum.case prod.case list_ex_iff entity_cases_iff
      H_def by blast
  define W where "W e = (if so_in_table e then owner_loop m (procfs_listed s) e (so_owner_pids e) []
      else [])" for e
  have "set out = W ` H"
    using mapE_range [OF out [folded W_def]] by (auto simp: bindE_eq_Inr_iff H_def)
  then have "fired sigs = (\<Union>e \<in> H. fired (W e))"
    by (simp add: s)
  moreover have "fired (W e) = {(lit ''socket_visible'', process_suspect n) | n. so_in_table e \<and>
      n \<in> fold_tid m ` set (so_owner_pids e) \<and> IdInt n \<notin> set (procfs_listed s)}" for e
    by (auto simp: W_def fired_owner_loop)
  ultimately show ?thesis
    by (fastforce simp: hidden)
qed

section \<open>Phantom rows and drift\<close>

text \<open>
  Module \<open>n\<close> is listed although both corroborating channels were read, neither names it, and
  they do name some other listed module.
\<close>

definition over_listed :: "snapshot \<Rightarrow> pystr \<Rightarrow> bool" where
  "over_listed s n \<longleftrightarrow>
     (case over_listed_corroboration s of
        Inr (Some (listed, corroborated)) \<Rightarrow>
          IdStr n \<in> set listed \<and> n \<notin> set corroborated \<and>
          list_ex (\<lambda>i. i \<in> IdStr ` set corroborated) listed
      | _ \<Rightarrow> False)"

lemma set_uncorroborated_ids:
  "set (uncorroborated_ids listed corroborated) = set listed - IdStr ` set corroborated"
  by (auto simp: uncorroborated_ids_def)

lemma uncorroborated_ids_Nil [simp]: "uncorroborated_ids [] corroborated = []"
  by (simp add: uncorroborated_ids_def)

lemma all_uncorroborated_iff:
  "set (uncorroborated_ids listed corroborated) = set listed \<longleftrightarrow>
     \<not> list_ex (\<lambda>i. i \<in> IdStr ` set corroborated) listed"
  unfolding set_uncorroborated_ids list_ex_iff by blast

lemma id_name_Inr_iff [simp]: "id_name i = Inr n \<longleftrightarrow> i = IdStr n"
  by (cases i) auto

lemma mapE_id_name: "mapE id_name ids = Inr names \<Longrightarrow> set names = {n. IdStr n \<in> set ids}"
  by (auto simp: mapE_range)

lemma fired_over_listed:
  assumes "signals_over_listed s = Inr sigs"
  shows "fired sigs = {(lit ''over_listed'', module_suspect n) | n. over_listed s n}"
proof -
  from assms obtain corrob where corrob: "over_listed_corroboration s = Inr corrob"
    by (auto simp: signals_over_listed_def bindE_eq_Inr_iff)
  show ?thesis
  proof (cases corrob)
    case None
    with assms corrob show ?thesis by (simp add: signals_over_listed_def over_listed_def)
  next
    case (Some p)
    then obtain listed corroborated where p: "corrob = Some (listed, corroborated)"
      by (cases p) auto
    show ?thesis
    proof (cases "list_ex (\<lambda>i. i \<in> IdStr ` set corroborated) listed")
      case False
      then show ?thesis using assms
        by (auto simp: signals_over_listed_def corrob p over_listed_def all_uncorroborated_iff
            Let_def split: if_splits)
    next
      case True
      with assms obtain names
        where names: "mapE id_name (uncorroborated_ids listed corroborated) = Inr names"
          and s: "fired sigs = (\<lambda>n. (lit ''over_listed'', module_suspect n)) ` set names"
        by (auto simp: signals_over_listed_def corrob p all_uncorroborated_iff Let_def
            bindE_eq_Inr_iff module_suspect_def)
      from True mapE_id_name [OF names] show ?thesis
        by (auto simp: s over_listed_def corrob p set_uncorroborated_ids)
    qed
  qed
qed

definition drifted :: "snapshot \<Rightarrow> snapshot \<Rightarrow> pystr \<Rightarrow> bool" where
  "drifted s b n \<longleftrightarrow> IdStr n \<in> set (module_ids s) \<and> IdStr n \<notin> set (module_ids b)"

lemma fired_baseline:
  "signals_baseline s b = Inr sigs \<Longrightarrow>
   fired sigs = {(lit ''baseline_drift'', module_suspect n) | n. drifted s b n}"
  by (auto simp: signals_baseline_def bindE_eq_Inr_iff module_suspect_def drifted_def
      dest!: mapE_id_name)

section \<open>All detectors\<close>

text \<open>The pairs that a snapshot, and an optional baseline, make fire.\<close>

definition fires :: "snapshot \<Rightarrow> snapshot option \<Rightarrow> pystr \<Rightarrow> suspect \<Rightarrow> bool" where
  "fires s baseline c u \<longleftrightarrow>
     u = anon_suspect \<and> (c = lit ''taint'' \<and> taint_fires s \<or>
                         c = lit ''vmalloc_region'' \<and> region_fires s) \<or>
     (\<exists>n. u = module_suspect n \<and>
        (c = lit ''ftrace_orphan'' \<and> ftrace_hidden s n \<or>
         c = lit ''unexpected_hook'' \<and> hook_hidden s n \<or>
         c = lit ''over_listed'' \<and> over_listed s n \<or>
         c = lit ''baseline_drift'' \<and> (\<exists>b. baseline = Some b \<and> drifted s b n))) \<or>
     (\<exists>n. u = process_suspect n \<and>
        (c \<in> {lit ''syscall_kill'', lit ''direct_status''} \<and> swept_hidden s n \<or>
         c = lit ''socket_visible'' \<and> socket_hidden s n))"

lemma if_pair_iff: "(c, u) \<in> (if P then {(a, b)} else {}) \<longleftrightarrow> P \<and> c = a \<and> u = b"
  by simp

lemma fired_all_signals:
  assumes "all_signals s baseline = Inr sigs"
  shows "(c, u) \<in> fired sigs \<longleftrightarrow> fires s baseline c u"
proof -
  from assms obtain s1 s2 s3 s4 s5 s6 where
    1: "signals_processes s = Inr s1" and 2: "signals_modules s = Inr s2" and
    3: "signals_hooks s = Inr s3" and 4: "signals_sockets s = Inr s4" and
    5: "signals_over_listed s = Inr s5" and
    6: "(case baseline of None \<Rightarrow> Inr [] | Some b \<Rightarrow> signals_baseline s b) = Inr s6" and
    s: "sigs = s1 @ s2 @ s3 @ s4 @ s5 @ s6"
    by (auto simp: all_signals_def bindE_eq_Inr_iff)
  have "fired s6 = {(lit ''baseline_drift'', module_suspect n) | n.
      \<exists>b. baseline = Some b \<and> drifted s b n}"
    using 6 by (auto dest!: fired_baseline split: option.splits)
  then show ?thesis
    unfolding s fired_simps fired_processes [OF 1] fired_modules [OF 2] fired_hooks [OF 3]
      fired_sockets [OF 4] fired_over_listed [OF 5] fires_def
      Un_iff mem_Collect_eq prod.inject if_pair_iff
    by (intro iffI; elim disjE exE conjE; simp)
qed

section \<open>Every detector keeps the contract\<close>

lemma detectorI:
  assumes "\<And>s sigs c u. detect s = Inr sigs \<Longrightarrow> (c, u) \<in> fired sigs \<Longrightarrow>
      c \<in> set channels \<and> su_kind u = kind"
    and "\<And>s sigs g. detect s = Inr sigs \<Longrightarrow> g \<in> set sigs \<Longrightarrow> sg_dissent g = dissent"
  shows "detector detect channels kind dissent"
  using assms fired_I by unfold_locales blast

lemma naming_detectorI:
  assumes "detector detect channels kind dissent"
    and "\<And>s sigs c u. detect s = Inr sigs \<Longrightarrow> (c, u) \<in> fired sigs \<Longrightarrow> su_name u \<noteq> None"
  shows "naming_detector detect channels kind dissent"
  using assms fired_I unfolding naming_detector_def naming_detector_axioms_def by blast

lemma modules_dissent: "signals_modules s = Inr sigs \<Longrightarrow> g \<in> set sigs \<Longrightarrow> sg_dissent g = module_dissent"
  by (auto simp: signals_modules_def taint_signals_def region_signals_def ftrace_signals_def Let_def
      bindE_eq_Inr_iff split: list.splits if_splits)

lemma hook_signals_dissent: "g \<in> set (hook_signals listed h) \<Longrightarrow> sg_dissent g = module_dissent"
  by (auto simp: hook_signals_def split: if_splits option.splits)

lemma hooks_dissent: "signals_hooks s = Inr sigs \<Longrightarrow> g \<in> set sigs \<Longrightarrow> sg_dissent g = module_dissent"
  by (auto simp: signals_hooks_def bindE_eq_Inr_iff mapE_range hook_signals_dissent
      split: list.splits)

lemma sweep_loop_dissent:
  "sweep_loop procfs listed sweep ids reported = Inr sigs \<Longrightarrow> g \<in> set sigs \<Longrightarrow>
   sg_dissent g = process_dissent"
  by (induction ids arbitrary: reported sigs)
    (auto simp: bindE_eq_Inr_iff process_signals_def Let_def split: if_splits)

lemma processes_dissent:
  "signals_processes s = Inr sigs \<Longrightarrow> g \<in> set sigs \<Longrightarrow> sg_dissent g = process_dissent"
  by (auto simp: signals_processes_def sweep_loop_dissent split: list.splits)

lemma owner_loop_dissent:
  "g \<in> set (owner_loop m listed e pids reported) \<Longrightarrow> sg_dissent g = process_dissent"
  by (induction pids arbitrary: reported) (auto simp: Let_def socket_signal_def split: if_splits)

lemma sockets_dissent:
  "signals_sockets s = Inr sigs \<Longrightarrow> g \<in> set sigs \<Longrightarrow> sg_dissent g = process_dissent"
  by (auto simp: signals_sockets_def bindE_eq_Inr_iff mapE_range owner_loop_dissent
      split: list.splits if_splits)

lemma over_listed_dissent:
  "signals_over_listed s = Inr sigs \<Longrightarrow> g \<in> set sigs \<Longrightarrow> sg_dissent g = listing_dissent"
  unfolding signals_over_listed_def
  by (elim bindE_InrE, case_tac x) (auto simp: Let_def bindE_eq_Inr_iff split: if_splits)

lemma baseline_dissents:
  "signals_baseline s b = Inr sigs \<Longrightarrow> g \<in> set sigs \<Longrightarrow> sg_dissent g = baseline_dissent"
  by (auto simp: signals_baseline_def bindE_eq_Inr_iff)

interpretation modules: detector signals_modules
  "[lit ''taint'', lit ''vmalloc_region'', lit ''ftrace_orphan'']" module_kind module_dissent
  by (rule detectorI) (auto simp: modules_dissent fired_modules split: if_splits)

interpretation hooks: naming_detector signals_hooks "[lit ''unexpected_hook'']" module_kind module_dissent
  by (intro naming_detectorI detectorI) (auto simp: hooks_dissent fired_hooks)

interpretation processes: naming_detector signals_processes
  "[lit ''syscall_kill'', lit ''direct_status'']" process_kind process_dissent
  by (intro naming_detectorI detectorI) (auto simp: processes_dissent fired_processes)

interpretation sockets: naming_detector signals_sockets "[lit ''socket_visible'']" process_kind
  process_dissent
  by (intro naming_detectorI detectorI) (auto simp: sockets_dissent fired_sockets)

interpretation phantoms: naming_detector signals_over_listed "[lit ''over_listed'']" module_kind
  listing_dissent
  by (intro naming_detectorI detectorI) (auto simp: over_listed_dissent fired_over_listed)

interpretation drift: naming_detector "\<lambda>s. signals_baseline s b" "[lit ''baseline_drift'']" module_kind
  baseline_dissent for b
  by (intro naming_detectorI detectorI) (auto simp: baseline_dissents fired_baseline)

end
