(* ===== verification/Verdicts.thy ===== *)
theory Verdicts
  imports Detector_Facts Sample
begin

text \<open>
  The contract of \<open>kdetect analyze\<close>: which findings a snapshot gets, with which channels and which
  confidence, in terms of what the snapshot says (the predicates of Detector_Facts). The
  properties of the analysis stand here.
\<close>

section \<open>From signals to findings\<close>

definition agreeing :: "signal list \<Rightarrow> suspect \<Rightarrow> pystr set" where
  "agreeing sigs u = {c. (c, u) \<in> fired sigs}"

lemma anon_kind:
  assumes "all_signals s b = Inr sigs" and "g \<in> set sigs" and "su_name (sg_suspect g) = None"
  shows "sg_suspect g = anon_suspect"
  using fired_all_signals [OF assms(1)] fired_I [OF assms(2)] assms(3) by (auto simp: fires_def)

lemma set_anon_channels:
  assumes "all_signals s b = Inr sigs"
  shows "sg_channel ` set (anon_signals sigs) = agreeing sigs anon_suspect"
  using anon_kind [OF assms] by (force simp: anon_signals_def agreeing_def fired_def)

lemma set_named_channels:
  "su_name u \<noteq> None \<Longrightarrow>
   sg_channel ` set (filter (\<lambda>g. sg_suspect g = u) (named_signals sigs)) = agreeing sigs u"
  by (force simp: named_signals_def agreeing_def fired_def)

lemma suspects_iff:
  "u \<in> sg_suspect ` set (named_signals sigs) \<longleftrightarrow> su_name u \<noteq> None \<and> agreeing sigs u \<noteq> {}"
  by (force simp: named_signals_def agreeing_def fired_def)

lemma set_members_channels:
  assumes "all_signals s b = Inr sigs" and "su_name u \<noteq> None"
  shows "sg_channel ` set (members sigs u) = agreeing sigs u \<union>
     (if attributed sigs \<and> u = module_suspect (hd (candidates sigs))
      then agreeing sigs anon_suspect else {})"
  unfolding members_def set_append image_Un set_named_channels [OF assms(2)]
  by (auto simp: set_anon_channels [OF assms(1)])

lemma set_candidates_fired:
  "set (candidates sigs) =
     {n. lit ''ftrace_orphan'' \<in> agreeing sigs (module_suspect n) \<or>
         lit ''unexpected_hook'' \<in> agreeing sigs (module_suspect n)}"
  by (force simp: set_candidates hiding_named_def agreeing_def fired_def)

lemma agreeing_iff:
  "all_signals s b = Inr sigs \<Longrightarrow> agreeing sigs u = {c. fires s b c u}"
  by (simp add: agreeing_def fired_all_signals)

lemma set_candidates_snapshot:
  "all_signals s b = Inr sigs \<Longrightarrow>
   set (candidates sigs) = {n. ftrace_hidden s n \<or> hook_hidden s n}"
  by (auto simp: set_candidates_fired agreeing_iff fires_def)

lemma set_agree [simp]: "set (fi_channels_agree (compose u ms)) = sg_channel ` set ms"
  by simp

lemma compose_kind:
  "fi_kind (compose u ms) =
     (let channels = sg_channel ` set ms in
      if su_kind u = process_kind then HIDDEN_PROCESS
      else if su_name u = None then SUSPECTED_HIDDEN_MODULE
      else if channels \<inter> set hiding \<noteq> {} then HIDDEN_MODULE
      else if lit ''over_listed'' \<in> channels then OVER_LISTED_MODULE
      else BASELINE_DRIFT)"
  by (auto simp: classify_def Let_def list_ex_iff)

lemma compose_subject:
  "fi_subject (compose u ms) =
     (if su_kind u = process_kind then lit ''pid '' @ show_name (su_name u)
      else if su_name u = None then lit ''unattributed hidden module''
      else lit ''module '' @ show_name (su_name u))"
  by (simp add: classify_subject)

lemma compose_confidence:
  "fi_confidence (compose u ms) = confidence_of (card (sg_channel ` set ms))"
  by (simp add: distinct_card [symmetric])

text \<open>The findings of a snapshot, one by one.\<close>

lemma analyzeE:
  assumes "analyze s b = Inr fs"
  obtains sigs where "all_signals s b = Inr sigs" and "fs = score sigs"
  using assms by (auto simp: analyze_def)

lemma named_finding_iff:
  "f \<in> {compose u (members sigs u) | u. u \<in> sg_suspect ` set (named_signals sigs)} \<longleftrightarrow>
   (\<exists>u. su_name u \<noteq> None \<and> agreeing sigs u \<noteq> {} \<and> f = compose u (members sigs u))"
  by (auto simp only: mem_Collect_eq suspects_iff)

lemma finding_iff:
  "f \<in> set (score sigs) \<longleftrightarrow>
     (\<exists>u. su_name u \<noteq> None \<and> agreeing sigs u \<noteq> {} \<and> f = compose u (members sigs u)) \<or>
     leftover sigs \<noteq> [] \<and> f = unattributed (candidates sigs) (leftover sigs)"
  unfolding set_score Un_iff named_finding_iff by simp

lemma suspect_cases:
  assumes "all_signals s b = Inr sigs" and "agreeing sigs u \<noteq> {}"
  shows "(\<exists>n. u = process_suspect n) \<or> (\<exists>n. u = module_suspect n) \<or> u = anon_suspect"
  using assms by (auto simp: agreeing_iff fires_def)

lemma agreeing_nonempty:
  assumes "all_signals s b = Inr sigs"
  shows "agreeing sigs (process_suspect n) \<noteq> {} \<longleftrightarrow> swept_hidden s n \<or> socket_hidden s n"
    and "agreeing sigs (module_suspect m) \<noteq> {} \<longleftrightarrow> ftrace_hidden s m \<or> hook_hidden s m \<or>
       over_listed s m \<or> (\<exists>r. b = Some r \<and> drifted s r m)"
    and "agreeing sigs anon_suspect \<noteq> {} \<longleftrightarrow> taint_fires s \<or> region_fires s"
  by (auto simp: agreeing_iff [OF assms] fires_def)

section \<open>Hidden processes\<close>

lemma process_agreeing:
  "all_signals s b = Inr sigs \<Longrightarrow> agreeing sigs (process_suspect n) =
     (if swept_hidden s n then {lit ''syscall_kill'', lit ''direct_status''} else {}) \<union>
     (if socket_hidden s n then {lit ''socket_visible''} else {})"
  by (auto simp: agreeing_iff fires_def)

lemma process_finding_iff:
  assumes "all_signals s b = Inr sigs"
  shows "f \<in> set (score sigs) \<and> fi_kind f = HIDDEN_PROCESS \<longleftrightarrow>
     (\<exists>n. (swept_hidden s n \<or> socket_hidden s n) \<and>
          f = compose (process_suspect n) (members sigs (process_suspect n)))"
    (is "?L \<longleftrightarrow> ?R")
proof
  assume ?L
  then obtain u where u: "su_name u \<noteq> None" "agreeing sigs u \<noteq> {}" "f = compose u (members sigs u)"
    by (auto simp: finding_iff)
  moreover from \<open>?L\<close> u(3) have "su_kind u = process_kind"
    by (auto simp: compose_kind Let_def simp del: compose_sel split: if_splits)
  ultimately obtain n where "u = process_suspect n"
    using suspect_cases [OF assms, of u] by auto
  with u show ?R using agreeing_nonempty(1) [OF assms, of n] by blast
next
  assume ?R
  then obtain n where "agreeing sigs (process_suspect n) \<noteq> {}"
    and f: "f = compose (process_suspect n) (members sigs (process_suspect n))"
    by (auto simp: agreeing_nonempty(1) [OF assms])
  then have "f \<in> set (score sigs)"
    unfolding finding_iff by (intro disjI1 exI [of _ "process_suspect n"]) simp
  then show ?L by (simp add: f compose_kind Let_def del: compose_sel)
qed

lemma process_members:
  assumes "all_signals s b = Inr sigs"
  shows "sg_channel ` set (members sigs (process_suspect n)) =
     (if swept_hidden s n then {lit ''syscall_kill'', lit ''direct_status''} else {}) \<union>
     (if socket_hidden s n then {lit ''socket_visible''} else {})"
  by (simp add: set_members_channels [OF assms] process_agreeing [OF assms])

section \<open>Modules\<close>

lemma module_agreeing:
  "all_signals s b = Inr sigs \<Longrightarrow> agreeing sigs (module_suspect n) =
     (if ftrace_hidden s n then {lit ''ftrace_orphan''} else {}) \<union>
     (if hook_hidden s n then {lit ''unexpected_hook''} else {}) \<union>
     (if over_listed s n then {lit ''over_listed''} else {}) \<union>
     (if \<exists>r. b = Some r \<and> drifted s r n then {lit ''baseline_drift''} else {})"
  by (auto simp: agreeing_iff fires_def)

lemma anon_agreeing:
  "all_signals s b = Inr sigs \<Longrightarrow> agreeing sigs anon_suspect =
     (if taint_fires s then {lit ''taint''} else {}) \<union>
     (if region_fires s then {lit ''vmalloc_region''} else {})"
  by (auto simp: agreeing_iff fires_def)

text \<open>The snapshot hides exactly one nameable module: the one the anonymous signals go to.\<close>

definition sole_hidden :: "snapshot \<Rightarrow> pystr \<Rightarrow> bool" where
  "sole_hidden s n \<longleftrightarrow> (\<forall>m. ftrace_hidden s m \<or> hook_hidden s m \<longleftrightarrow> m = n)"

lemma attributed_iff:
  assumes "all_signals s b = Inr sigs"
  shows "attributed sigs \<and> hd (candidates sigs) = n \<longleftrightarrow>
     sole_hidden s n \<and> (taint_fires s \<or> region_fires s)"
proof -
  have "anon_signals sigs \<noteq> [] \<longleftrightarrow> taint_fires s \<or> region_fires s"
    using set_anon_channels [OF assms] agreeing_nonempty(3) [OF assms] by auto
  moreover have "length (candidates sigs) = 1 \<and> hd (candidates sigs) = n \<longleftrightarrow> sole_hidden s n"
  proof -
    have "length (candidates sigs) = 1 \<and> hd (candidates sigs) = n \<longleftrightarrow> candidates sigs = [n]"
      by (cases "candidates sigs") auto
    also have "\<dots> \<longleftrightarrow> set (candidates sigs) = {n}"
      using sorted_set_singleton_iff [of "candidates sigs" n] by (simp add: sorted_set_id)
    finally show ?thesis
      by (auto simp: set_candidates_snapshot [OF assms] sole_hidden_def)
  qed
  ultimately show ?thesis by (auto simp: attributed_def)
qed

definition module_channels :: "snapshot \<Rightarrow> snapshot option \<Rightarrow> pystr \<Rightarrow> pystr set" where
  "module_channels s b n =
     (if ftrace_hidden s n then {lit ''ftrace_orphan''} else {}) \<union>
     (if hook_hidden s n then {lit ''unexpected_hook''} else {}) \<union>
     (if over_listed s n then {lit ''over_listed''} else {}) \<union>
     (if \<exists>r. b = Some r \<and> drifted s r n then {lit ''baseline_drift''} else {}) \<union>
     (if sole_hidden s n \<and> taint_fires s then {lit ''taint''} else {}) \<union>
     (if sole_hidden s n \<and> region_fires s then {lit ''vmalloc_region''} else {})"

lemma module_members:
  assumes "all_signals s b = Inr sigs"
  shows "sg_channel ` set (members sigs (module_suspect n)) = module_channels s b n"
  using attributed_iff [OF assms, of n]
  by (auto simp: set_members_channels [OF assms] module_agreeing [OF assms] anon_agreeing [OF assms]
      module_channels_def split: if_splits)

lemma module_channels_hiding:
  "module_channels s b n \<inter> set hiding \<noteq> {} \<longleftrightarrow> ftrace_hidden s n \<or> hook_hidden s n"
  by (auto simp: module_channels_def hiding_def sole_hidden_def split: if_splits)

lemma over_listed_channel: "lit ''over_listed'' \<in> module_channels s b n \<longleftrightarrow> over_listed s n"
  by (auto simp: module_channels_def split: if_splits)

definition module_verdict :: "snapshot \<Rightarrow> snapshot option \<Rightarrow> pystr \<Rightarrow> finding_kind" where
  "module_verdict s b n =
     (if ftrace_hidden s n \<or> hook_hidden s n then HIDDEN_MODULE
      else if over_listed s n then OVER_LISTED_MODULE else BASELINE_DRIFT)"

definition module_flagged :: "snapshot \<Rightarrow> snapshot option \<Rightarrow> pystr \<Rightarrow> bool" where
  "module_flagged s b n \<longleftrightarrow>
     ftrace_hidden s n \<or> hook_hidden s n \<or> over_listed s n \<or> (\<exists>r. b = Some r \<and> drifted s r n)"

lemma module_finding_iff:
  assumes "all_signals s b = Inr sigs"
  shows "f \<in> set (score sigs) \<and> fi_kind f \<in> {HIDDEN_MODULE, OVER_LISTED_MODULE, BASELINE_DRIFT} \<longleftrightarrow>
     (\<exists>n. module_flagged s b n \<and> f = compose (module_suspect n) (members sigs (module_suspect n)))"
    (is "?L \<longleftrightarrow> ?R")
proof
  assume L: ?L
  then obtain u where u: "su_name u \<noteq> None" "agreeing sigs u \<noteq> {}" "f = compose u (members sigs u)"
    by (auto simp: finding_iff)
  moreover from L u(3) have "su_kind u \<noteq> process_kind"
    by (auto simp: compose_kind Let_def simp del: compose_sel)
  ultimately obtain n where "u = module_suspect n"
    using suspect_cases [OF assms, of u] by auto
  with u show ?R using agreeing_nonempty(2) [OF assms, of n] by (auto simp: module_flagged_def)
next
  assume ?R
  then obtain n where "agreeing sigs (module_suspect n) \<noteq> {}"
    and f: "f = compose (module_suspect n) (members sigs (module_suspect n))"
    by (auto simp: agreeing_nonempty(2) [OF assms] module_flagged_def)
  then have "f \<in> set (score sigs)"
    unfolding finding_iff by (intro disjI1 exI [of _ "module_suspect n"]) simp
  then show ?L by (simp add: f compose_kind Let_def del: compose_sel)
qed

lemma module_finding_kind:
  "all_signals s b = Inr sigs \<Longrightarrow>
   fi_kind (compose (module_suspect n) (members sigs (module_suspect n))) = module_verdict s b n"
  by (simp add: compose_kind Let_def module_members module_channels_hiding over_listed_channel
      module_verdict_def del: compose_sel)

section \<open>The shape of findings\<close>

lemma compose_confidence_card:
  "fi_confidence (compose u ms) = confidence_of (card (set (fi_channels_agree (compose u ms))))"
  by (simp add: compose_confidence del: compose_sel)

lemma process_subject: "fi_subject (compose (process_suspect n) ms) = lit ''pid '' @ str_int n"
  by (simp add: compose_subject show_name_def del: compose_sel)

lemma module_subject: "fi_subject (compose (module_suspect n) ms) = lit ''module '' @ n"
  by (simp add: compose_subject show_name_def del: compose_sel)

lemma finding_cases:
  assumes "all_signals s b = Inr sigs" and "f \<in> set (score sigs)"
  obtains
    (process) n where "swept_hidden s n \<or> socket_hidden s n"
      "f = compose (process_suspect n) (members sigs (process_suspect n))"
  | (module) n where "module_flagged s b n"
      "f = compose (module_suspect n) (members sigs (module_suspect n))"
  | (anon) "leftover sigs \<noteq> []" "f = unattributed (candidates sigs) (leftover sigs)"
proof (cases "fi_kind f")
  case HIDDEN_PROCESS
  then show ?thesis using assms process_finding_iff [OF assms(1), of f] process by auto
next
  case SUSPECTED_HIDDEN_MODULE
  from assms(2) consider u where "su_name u \<noteq> None" "agreeing sigs u \<noteq> {}"
    "f = compose u (members sigs u)" | "leftover sigs \<noteq> []"
      "f = unattributed (candidates sigs) (leftover sigs)"
    by (auto simp: finding_iff)
  then show ?thesis
  proof cases
    case 1
    then show ?thesis using SUSPECTED_HIDDEN_MODULE
      by (auto simp: compose_kind Let_def simp del: compose_sel split: if_splits)
  qed (rule anon)
qed (use assms module_finding_iff [OF assms(1), of f] module in auto)

lemma anon_finding_iff:
  assumes "all_signals s b = Inr sigs"
  shows "leftover sigs \<noteq> [] \<longleftrightarrow> (taint_fires s \<or> region_fires s) \<and> (\<nexists>n. sole_hidden s n)"
proof -
  have "anon_signals sigs \<noteq> [] \<longleftrightarrow> taint_fires s \<or> region_fires s"
    using set_anon_channels [OF assms] agreeing_nonempty(3) [OF assms] by auto
  moreover have "attributed sigs \<longleftrightarrow> (\<exists>n. sole_hidden s n) \<and> (taint_fires s \<or> region_fires s)"
    using attributed_iff [OF assms] by blast
  ultimately show ?thesis by (auto simp: leftover_def)
qed

lemma leftover_channels:
  assumes "all_signals s b = Inr sigs" and "leftover sigs \<noteq> []"
  shows "sg_channel ` set (leftover sigs) =
     (if taint_fires s then {lit ''taint''} else {}) \<union>
     (if region_fires s then {lit ''vmalloc_region''} else {})"
  using assms set_anon_channels [OF assms(1)]
  by (auto simp: leftover_def anon_agreeing [OF assms(1)] split: if_splits)

lemma no_candidates_channel:
  assumes "all_signals s b = Inr sigs"
  shows "lit ''candidates'' \<notin> sg_channel ` set sigs"
proof
  assume "lit ''candidates'' \<in> sg_channel ` set sigs"
  then obtain u where "(lit ''candidates'', u) \<in> fired sigs" by (auto simp: fired_def)
  then show False unfolding fired_all_signals [OF assms] by (simp add: fires_def)
qed

lemma map_of_evidence_compose:
  assumes "c \<notin> sg_channel ` set ms"
  shows "map_of (fi_evidence (compose u ms)) c = None"
proof -
  have "fst ` set (fi_evidence (compose u ms)) = fst ` set (evidence_groups (sort_key sg_channel ms))"
    by (force simp: fi_evidence_compose)
  with assms show ?thesis
    by (simp add: map_of_eq_None_iff evidence_groups_def fst_group_by_set)
qed

lemma candidates_evidence:
  assumes "all_signals s b = Inr sigs"
  shows "map_of (fi_evidence (unattributed cs (leftover sigs))) (lit ''candidates'') =
     (if length cs > 1 then Some (strs_json cs) else None)"
proof -
  have "lit ''candidates'' \<notin> sg_channel ` set (leftover sigs)"
    using no_candidates_channel [OF assms] by (auto simp: leftover_def anon_signals_def)
  then show ?thesis
    by (simp add: unattributed_def Let_def update_conv' map_of_evidence_compose)
qed

lemma filter_sort_key_singleton:
  "mset (filter P xs) = mset ys \<Longrightarrow> length ys \<le> 1 \<Longrightarrow> filter P (sort_key k xs) = ys"
proof -
  assume a: "mset (filter P xs) = mset ys" "length ys \<le> 1"
  have "mset (filter P (sort_key k xs)) = mset (filter P xs)"
    by (metis mset_filter mset_sort)
  with a show ?thesis by (cases ys) (auto simp del: mset_filter)
qed

lemma suspected_findings:
  assumes "all_signals s b = Inr sigs"
  shows "filter (\<lambda>f. fi_kind f = SUSPECTED_HIDDEN_MODULE) (score sigs) =
     (if leftover sigs \<noteq> [] then [unattributed (candidates sigs) (leftover sigs)] else [])"
proof -
  have "fi_kind (compose u ms) \<noteq> SUSPECTED_HIDDEN_MODULE" if "(u, ms) \<in> set (final_groups sigs)" for u ms
  proof -
    from that have "su_name u \<noteq> None" by (auto simp: final_groups_iff named_signals_def)
    then show ?thesis by (auto simp: compose_kind Let_def simp del: compose_sel)
  qed
  then show ?thesis
    unfolding score_alt
    by (intro filter_sort_key_singleton) (auto simp: filter_empty_conv simp del: compose_sel)
qed

text \<open>The subject of a finding determines its suspect.\<close>

definition subject_of :: "suspect \<Rightarrow> pystr" where
  "subject_of u =
     (if su_kind u = process_kind then lit ''pid '' @ show_name (su_name u)
      else if su_name u = None then lit ''unattributed hidden module''
      else lit ''module '' @ show_name (su_name u))"

lemma subject_of_inj:
  assumes "all_signals s b = Inr sigs"
  shows "inj_on subject_of (insert anon_suspect (sg_suspect ` set (named_signals sigs)))"
proof (rule inj_onI)
  let ?S = "insert anon_suspect (sg_suspect ` set (named_signals sigs))"
  have c: "(\<exists>n. u = process_suspect n) \<or> (\<exists>n. u = module_suspect n) \<or> u = anon_suspect"
    if "u \<in> ?S" for u
    using that suspect_cases [OF assms, of u] unfolding insert_iff suspects_iff by auto
  fix u v
  assume u: "u \<in> ?S" and v: "v \<in> ?S" and eq: "subject_of u = subject_of v"
  from c [OF u] c [OF v] eq show "u = v"
    by - (elim disjE exE; simp add: subject_of_def show_name_def lit_def)
qed

lemma distinct_subjects:
  assumes "all_signals s b = Inr sigs"
  shows "distinct (map fi_subject (score sigs))"
proof -
  define K where "K = (\<lambda>(u :: suspect, ms :: signal list). (su_kind u, name_or_empty u))"
  define gs where "gs = sort_key K (final_groups sigs)"
  have "mset (map fst gs) = mset (map fst (final_groups sigs))"
    by (simp add: gs_def)
  then have d: "distinct (map fst gs)"
    by (metis distinct_final_groups mset_eq_imp_distinct_iff)
  have S: "set (map fst gs) = sg_suspect ` set (named_signals sigs)"
    by (simp add: gs_def fst_final_groups)
  have "map fi_subject (map (\<lambda>(u, ms). compose u ms) gs) = map subject_of (map fst gs)"
    by (auto simp: compose_subject subject_of_def simp del: compose_sel)
  moreover have "distinct (map subject_of (map fst gs @ [anon_suspect]))"
  proof -
    have "anon_suspect \<notin> set (map fst gs)"
      unfolding S by (auto simp: named_signals_def)
    with d have "distinct (map fst gs @ [anon_suspect])" by simp
    moreover have "inj_on subject_of (set (map fst gs @ [anon_suspect]))"
      using subject_of_inj [OF assms] by (simp add: S del: set_map)
    ultimately show ?thesis by (simp only: distinct_map)
  qed
  moreover have "fi_subject (unattributed cs ms) = subject_of anon_suspect" for cs ms
    by (simp add: subject_of_def)
  ultimately have "distinct (map fi_subject (map (\<lambda>(u, ms). compose u ms) gs
      @ (if leftover sigs \<noteq> [] then [unattributed (candidates sigs) (leftover sigs)] else [])))"
    by (cases "leftover sigs = []") (simp_all only: map_append list.map if_True if_False
        not_not simp_thms append_Nil2 distinct_append)
  then show ?thesis
    unfolding score_alt K_def [symmetric] gs_def [symmetric]
    by (metis mset_eq_imp_distinct_iff mset_map mset_sort)
qed

lemma infected_hidden_modules:
  "ftrace_hidden infected m \<or> hook_hidden infected m \<longleftrightarrow> m = lit ''evil''"
  by (auto simp: ftrace_hidden_def hook_hidden_def infected_def snapshot_of_def observations_def
      obs_def extra_get_def ldict_def module_ids_def entity_at_def)

section \<open>Properties of the analysis\<close>

text \<open>
  C3: A finding says that process n is hidden exactly when a sweep read the status of a task of n, or
  a socket of the kernel tables is held by one, while no pass over the readdir listing of /proc
  showed n.
\<close>

theorem hidden_process_verdict:
  assumes "analyze s baseline = Inr fs"
  shows "(\<exists>f \<in> set fs. fi_kind f = HIDDEN_PROCESS \<and> fi_subject f = lit ''pid '' @ str_int n) \<longleftrightarrow>
     swept_hidden s n \<or> socket_hidden s n"
proof -
  from assms obtain sigs where all: "all_signals s baseline = Inr sigs" and fs: "fs = score sigs"
    by (rule analyzeE)
  have "(\<exists>f \<in> set fs. fi_kind f = HIDDEN_PROCESS \<and> fi_subject f = lit ''pid '' @ str_int n) \<longleftrightarrow>
      (\<exists>f. (f \<in> set (score sigs) \<and> fi_kind f = HIDDEN_PROCESS) \<and>
         fi_subject f = lit ''pid '' @ str_int n)"
    by (auto simp: fs)
  then show ?thesis
    unfolding process_finding_iff [OF all] by (auto simp: process_subject simp del: compose_sel)
qed

theorem hidden_process_verdict_witness:
  "\<exists>fs. analyze infected (Some clean) = Inr fs \<and>
     (\<exists>f \<in> set fs. fi_kind f = HIDDEN_PROCESS \<and> fi_subject f = lit ''pid '' @ str_int 666) \<and>
     \<not> (\<exists>f \<in> set fs. fi_kind f = HIDDEN_PROCESS \<and> fi_subject f = lit ''pid '' @ str_int 1)"
proof -
  obtain fs where fs: "analyze infected (Some clean) = Inr fs" using infected_analyzed by blast
  have "swept_hidden infected 666" "\<not> swept_hidden infected 1" "\<not> socket_hidden infected 1"
    by code_simp+
  with fs hidden_process_verdict [OF fs, of 666] hidden_process_verdict [OF fs, of 1]
  show ?thesis by blast
qed

text \<open>
  The channels of a hidden-process finding are the two sweep channels when the sweep saw the
  process and the socket channel when a socket was held; so its confidence is HIGH when both saw
  it, MEDIUM for the sweep alone and LOW for sockets alone.
\<close>

theorem hidden_process_confidence:
  assumes "analyze s baseline = Inr fs" and "f \<in> set fs" and "fi_kind f = HIDDEN_PROCESS"
  shows "\<exists>n. fi_subject f = lit ''pid '' @ str_int n \<and>
     fi_channels_agree f =
       (if swept_hidden s n then [lit ''direct_status''] else []) @
       (if socket_hidden s n then [lit ''socket_visible''] else []) @
       (if swept_hidden s n then [lit ''syscall_kill''] else []) \<and>
     fi_confidence f =
       (if swept_hidden s n then if socket_hidden s n then C_HIGH else C_MEDIUM else C_LOW)"
proof -
  from assms(1) obtain sigs where all: "all_signals s baseline = Inr sigs" and fs: "fs = score sigs"
    by (rule analyzeE)
  from assms(2,3) obtain n where n: "swept_hidden s n \<or> socket_hidden s n"
    and f: "f = compose (process_suspect n) (members sigs (process_suspect n))"
    using process_finding_iff [OF all, of f] by (auto simp: fs)
  let ?cs = "(if swept_hidden s n then [lit ''direct_status''] else []) @
       (if socket_hidden s n then [lit ''socket_visible''] else []) @
       (if swept_hidden s n then [lit ''syscall_kill''] else [])"
  have "fi_channels_agree f = ?cs"
    unfolding f compose_sel
  proof (rule sorted_set_unique)
    show "set ?cs = set (map sg_channel (members sigs (process_suspect n)))"
      by (auto simp: process_members [OF all])
  qed (auto simp: lit_def)
  with n show ?thesis
    by (auto simp: f process_subject compose_confidence_card confidence_of_def simp del: compose_sel)
qed

theorem hidden_process_confidence_witness:
  "\<exists>fs f. analyze infected (Some clean) = Inr fs \<and> f \<in> set fs \<and> fi_kind f = HIDDEN_PROCESS \<and>
     (\<exists>n. fi_subject f = lit ''pid '' @ str_int n \<and> fi_confidence f =
       (if swept_hidden infected n then if socket_hidden infected n then C_HIGH else C_MEDIUM
        else C_LOW))"
proof -
  obtain sigs where sigs: "all_signals infected (Some clean) = Inr sigs"
    using infected_signals by blast
  then have fs: "analyze infected (Some clean) = Inr (score sigs)" by (simp add: analyze_def)
  let ?f = "compose (process_suspect 666) (members sigs (process_suspect 666))"
  have "swept_hidden infected 666" by code_simp
  then have f: "?f \<in> set (score sigs)" "fi_kind ?f = HIDDEN_PROCESS"
    using process_finding_iff [OF sigs, of ?f] by blast+
  from hidden_process_confidence [OF fs f] fs f show ?thesis by blast
qed

text \<open>
  C4: A finding says that module n is hidden exactly when ftrace or a hook names n and
  /proc/modules does not list it. Its channels are those that name n, the baseline and listing
  channels if they fired for n, and the two anonymous channels exactly when n is the only hidden
  module that can be named; its confidence counts them.
\<close>

theorem hidden_module_verdict:
  assumes "analyze s baseline = Inr fs"
  shows "(\<exists>f \<in> set fs. fi_kind f = HIDDEN_MODULE \<and> fi_subject f = lit ''module '' @ n \<and>
       set (fi_channels_agree f) = module_channels s baseline n \<and>
       fi_confidence f = confidence_of (card (module_channels s baseline n))) \<longleftrightarrow>
     ftrace_hidden s n \<or> hook_hidden s n" (is "?L \<longleftrightarrow> ?R")
proof -
  from assms obtain sigs where all: "all_signals s baseline = Inr sigs" and fs: "fs = score sigs"
    by (rule analyzeE)
  let ?f = "compose (module_suspect n) (members sigs (module_suspect n))"
  show ?thesis
  proof
    assume ?L
    then obtain f where f: "f \<in> set (score sigs)" "fi_kind f = HIDDEN_MODULE"
      "fi_subject f = lit ''module '' @ n" by (auto simp: fs)
    then obtain m where "f = compose (module_suspect m) (members sigs (module_suspect m))"
      using module_finding_iff [OF all, of f] by auto
    with f(2,3) show ?R
      by (auto simp: module_subject module_finding_kind [OF all] module_verdict_def
          simp del: compose_sel split: if_splits)
  next
    assume R: ?R
    then have "?f \<in> set (score sigs)"
      using module_finding_iff [OF all, of ?f] by (auto simp: module_flagged_def)
    moreover have "fi_kind ?f = HIDDEN_MODULE"
      using R by (simp add: module_finding_kind [OF all] module_verdict_def del: compose_sel)
    ultimately show ?L
      by (intro bexI [of _ ?f]) (simp_all add: fs module_subject module_members [OF all]
          compose_confidence del: compose_sel)
  qed
qed

theorem hidden_module_verdict_witness:
  "\<exists>fs. analyze infected (Some clean) = Inr fs \<and>
     (\<exists>f \<in> set fs. fi_kind f = HIDDEN_MODULE \<and> fi_subject f = lit ''module '' @ lit ''evil'')"
proof -
  obtain fs where fs: "analyze infected (Some clean) = Inr fs" using infected_analyzed by blast
  have "ftrace_hidden infected (lit ''evil'')" by code_simp
  with fs hidden_module_verdict [OF fs, of "lit ''evil''"] show ?thesis by blast
qed

text \<open>
  Every finding about a named module has the kind its evidence gives: hidden if ftrace or a
  hook shows it while unlisted, over-listed if nothing hides it and no corroborating channel names
  it, drift otherwise; and the module is flagged by some channel.
\<close>

theorem module_finding_kinds:
  assumes "analyze s baseline = Inr fs" and "f \<in> set fs"
    and "fi_kind f \<in> {HIDDEN_MODULE, OVER_LISTED_MODULE, BASELINE_DRIFT}"
  shows "\<exists>n. fi_subject f = lit ''module '' @ n \<and> module_flagged s baseline n \<and>
     fi_kind f = module_verdict s baseline n \<and>
     set (fi_channels_agree f) = module_channels s baseline n"
proof -
  from assms(1) obtain sigs where all: "all_signals s baseline = Inr sigs" and fs: "fs = score sigs"
    by (rule analyzeE)
  from assms(2,3) obtain n where "module_flagged s baseline n"
    and "f = compose (module_suspect n) (members sigs (module_suspect n))"
    using module_finding_iff [OF all, of f] by (auto simp: fs)
  then show ?thesis
    by (intro exI [of _ n]) (simp add: module_subject module_finding_kind [OF all]
        module_members [OF all] del: compose_sel)
qed

theorem module_finding_kinds_witness:
  "\<exists>fs f. analyze infected (Some clean) = Inr fs \<and> f \<in> set fs \<and>
     (\<exists>n. fi_subject f = lit ''module '' @ n \<and> module_flagged infected (Some clean) n \<and>
        fi_kind f = module_verdict infected (Some clean) n)"
proof -
  obtain sigs where sigs: "all_signals infected (Some clean) = Inr sigs"
    using infected_signals by blast
  then have fs: "analyze infected (Some clean) = Inr (score sigs)" by (simp add: analyze_def)
  let ?f = "compose (module_suspect (lit ''ghost'')) (members sigs (module_suspect (lit ''ghost'')))"
  have "over_listed infected (lit ''ghost'')" by code_simp
  then have f: "?f \<in> set (score sigs)" "fi_kind ?f \<in> {HIDDEN_MODULE, OVER_LISTED_MODULE, BASELINE_DRIFT}"
    using module_finding_iff [OF sigs, of ?f] by (auto simp: module_flagged_def simp del: compose_sel)
  from module_finding_kinds [OF fs f] fs f show ?thesis by blast
qed

text \<open>
  C14: The anonymous indicators (taint, loader regions) become a finding of their own exactly when
  one of them fires and there is not exactly one hidden module to attribute them to; then there is
  one such finding, and with several candidates its evidence lists them all, sorted.
\<close>

theorem suspected_module_verdict:
  assumes "analyze s baseline = Inr fs"
  defines "hidden \<equiv> {n. ftrace_hidden s n \<or> hook_hidden s n}"
  shows "map (\<lambda>f. (fi_subject f, set (fi_channels_agree f),
              map_of (fi_evidence f) (lit ''candidates'')))
          (filter (\<lambda>f. fi_kind f = SUSPECTED_HIDDEN_MODULE) fs) =
     (if (taint_fires s \<or> region_fires s) \<and> (\<nexists>n. sole_hidden s n)
      then [(lit ''unattributed hidden module'',
             (if taint_fires s then {lit ''taint''} else {}) \<union>
               (if region_fires s then {lit ''vmalloc_region''} else {}),
             if card hidden > 1 then Some (strs_json (sorted_list_of_set hidden)) else None)]
      else [])"
proof -
  from assms(1) obtain sigs where all: "all_signals s baseline = Inr sigs" and fs: "fs = score sigs"
    by (rule analyzeE)
  let ?u = "unattributed (candidates sigs) (leftover sigs)"
  have cs: "candidates sigs = sorted_list_of_set hidden"
    using sorted_list_of_set.idem_if_sorted_distinct [of "candidates sigs"]
    by (simp add: set_candidates_snapshot [OF all] hidden_def)
  have len: "length (candidates sigs) = card hidden"
    by (simp add: distinct_card [symmetric] set_candidates_snapshot [OF all] hidden_def)
  show ?thesis
  proof (cases "leftover sigs \<noteq> []")
    case True
    have "(taint_fires s \<or> region_fires s) \<and> (\<nexists>n. sole_hidden s n)"
      using True anon_finding_iff [OF all] by blast
    with True show ?thesis
      unfolding fs suspected_findings [OF all]
      by (simp add: leftover_channels [OF all True]
          candidates_evidence [OF all] len cs [symmetric])
  next
    case False
    then have "\<not> ((taint_fires s \<or> region_fires s) \<and> (\<nexists>n. sole_hidden s n))"
      using anon_finding_iff [OF all] by blast
    with False show ?thesis
      unfolding fs suspected_findings [OF all] by simp
  qed
qed

theorem suspected_module_verdict_witness:
  "\<exists>fs. analyze infected (Some clean) = Inr fs \<and>
     filter (\<lambda>f. fi_kind f = SUSPECTED_HIDDEN_MODULE) fs = []"
proof -
  obtain fs where fs: "analyze infected (Some clean) = Inr fs" using infected_analyzed by blast
  have "sole_hidden infected (lit ''evil'')"
    unfolding sole_hidden_def by (simp add: infected_hidden_modules)
  then have no: "\<not> ((taint_fires infected \<or> region_fires infected) \<and> (\<nexists>n. sole_hidden infected n))"
    by blast
  from suspected_module_verdict [OF fs] have "filter (\<lambda>f. fi_kind f = SUSPECTED_HIDDEN_MODULE) fs = []"
    unfolding if_not_P [OF no] by simp
  with fs show ?thesis by blast
qed

text \<open>
  C15: The findings are empty exactly when nothing fires: no process is concealed, no module is
  flagged, and neither anonymous indicator fires.
\<close>

theorem clean_iff_nothing_fires:
  assumes "analyze s baseline = Inr fs"
  shows "fs = [] \<longleftrightarrow> (\<forall>c u. \<not> fires s baseline c u)"
proof -
  from assms obtain sigs where all: "all_signals s baseline = Inr sigs" and fs: "fs = score sigs"
    by (rule analyzeE)
  have "sigs = [] \<longleftrightarrow> fired sigs = {}" by (auto simp: fired_def)
  then show ?thesis
    using fired_all_signals [OF all] by (auto simp: fs score_Nil_iff)
qed

theorem clean_iff_nothing_fires_witness:
  "analyze clean None = Inr [] \<and> \<not> fires clean None (lit ''taint'') anon_suspect"
proof -
  have "analyze clean None = Inr []" by code_simp
  with clean_iff_nothing_fires [OF this] show ?thesis by blast
qed

text \<open>
  C16: No evidence is lost or duplicated on the way from signals to findings: the evidence of the
  findings, channel by channel and counted with multiplicity, is that of the signals.
\<close>

theorem evidence_conserved:
  assumes "analyze s baseline = Inr fs" and "all_signals s baseline = Inr sigs"
  shows "mset (concat (map finding_evidence fs)) = image_mset signal_evidence (mset sigs)"
proof -
  have "lit ''candidates'' \<notin> sg_channel ` set sigs"
    by (rule no_candidates_channel [OF assms(2)])
  with assms show ?thesis by (auto simp: analyze_def mset_evidence_score)
qed

theorem evidence_conserved_witness:
  "\<exists>fs sigs. analyze infected (Some clean) = Inr fs \<and> all_signals infected (Some clean) = Inr sigs \<and>
     mset (concat (map finding_evidence fs)) = image_mset signal_evidence (mset sigs) \<and> sigs \<noteq> []"
proof -
  obtain sigs where sigs: "all_signals infected (Some clean) = Inr sigs"
    using infected_signals by blast
  then have fs: "analyze infected (Some clean) = Inr (score sigs)" by (simp add: analyze_def)
  have "swept_hidden infected 666" by code_simp
  then have "sigs \<noteq> []" using agreeing_nonempty(1) [OF sigs, of 666] by (auto simp: agreeing_def)
  with sigs fs evidence_conserved [OF fs sigs] show ?thesis by blast
qed

text \<open>
  C24: The report is ordered and names every subject once; the channels of a finding are a
  non-empty sorted set and its confidence is LOW, MEDIUM or HIGH for one, two or more of them.
\<close>

theorem findings_well_formed:
  assumes "analyze s baseline = Inr fs"
  shows "sorted (map fi_subject fs) \<and> distinct (map fi_subject fs) \<and>
     (\<forall>f \<in> set fs. fi_channels_agree f \<noteq> [] \<and> sorted (fi_channels_agree f) \<and>
        distinct (fi_channels_agree f) \<and>
        fi_confidence f = confidence_of (length (fi_channels_agree f)))"
proof -
  from assms obtain sigs where all: "all_signals s baseline = Inr sigs" and fs: "fs = score sigs"
    by (rule analyzeE)
  have "sorted (map fi_subject fs)" by (simp add: fs score_alt)
  moreover have "fi_channels_agree f \<noteq> [] \<and> sorted (fi_channels_agree f) \<and>
        distinct (fi_channels_agree f) \<and>
        fi_confidence f = confidence_of (length (fi_channels_agree f))" if "f \<in> set fs" for f
    using all that [unfolded fs]
  proof (cases rule: finding_cases)
    case (process n)
    then have "sg_channel ` set (members sigs (process_suspect n)) \<noteq> {}"
      unfolding process_members [OF all] by auto
    with process(2) show ?thesis by auto
  next
    case (module n)
    then have "sg_channel ` set (members sigs (module_suspect n)) \<noteq> {}"
      unfolding module_members [OF all] by (auto simp: module_flagged_def module_channels_def)
    with module(2) show ?thesis by auto
  qed auto
  ultimately show ?thesis using distinct_subjects [OF all] by (simp add: fs)
qed

theorem findings_well_formed_witness:
  "\<exists>fs. analyze infected (Some clean) = Inr fs \<and> sorted (map fi_subject fs) \<and>
     distinct (map fi_subject fs)"
proof -
  obtain fs where fs: "analyze infected (Some clean) = Inr fs" using infected_analyzed by blast
  with findings_well_formed [OF fs] show ?thesis by blast
qed

end
