(* ===== verification/Iocs.thy ===== *)
theory Iocs
  imports Verdicts
begin

text \<open>
  \<open>reporting/iocs.py\<close>: the portable indicators of the findings. The extraction is the source's loop
  over an insertion-ordered dictionary whose first entry for a key wins. It is shown equal to a
  reference: list the indicators of each finding, keep the first of each kind and value, sort.
  On the findings of an analysis it never fails.
\<close>

section \<open>The extractor\<close>

record ioc =
  io_type :: pystr
  io_value :: pystr
  io_confidence :: pystr
  io_source :: pystr

definition ioc_to_dict :: "ioc \<Rightarrow> json" where
  "ioc_to_dict i = jobj
     [(''type'', JStr (io_type i)), (''value'', JStr (io_value i)),
      (''confidence'', JStr (io_confidence i)), (''source_finding'', JStr (io_source i))]"

text \<open>\<open>ep.rsplit(":", 1)[-1]\<close>: what follows the last colon, the whole text without one.\<close>

definition rsplit_last :: "int \<Rightarrow> pystr \<Rightarrow> pystr" where
  "rsplit_last c s = last (split_on c s)"

definition placeholder_endpoint :: "pystr option \<Rightarrow> bool" where
  "placeholder_endpoint ep =
     (case ep of None \<Rightarrow> True | Some e \<Rightarrow> e = [] \<or> rsplit_last 58 e = lit ''0'')"

definition peer_states :: "pystr list" where
  "peer_states =
     [lit ''ESTABLISHED'', lit ''SYN_SENT'', lit ''SYN_RECV'', lit ''FIN_WAIT1'', lit ''FIN_WAIT2'',
      lit ''TIME_WAIT'', lit ''CLOSE_WAIT'', lit ''LAST_ACK'', lit ''CLOSING'', lit ''NEW_SYN_RECV'']"

type_synonym seen = "((pystr \<times> pystr) \<times> ioc) list"

definition ioc_add :: "pystr \<Rightarrow> pystr \<Rightarrow> pystr \<Rightarrow> pystr \<Rightarrow> seen \<Rightarrow> seen" where
  "ioc_add type value conf source seen =
     (let key = (type, value) in
      if value \<noteq> [] \<and> key \<notin> fst ` set seen
      then AList.update key
        \<lparr>io_type = type, io_value = value, io_confidence = conf, io_source = source\<rparr> seen
      else seen)"

text \<open>\<open>f.evidence.get(channel, [])\<close>, iterated.\<close>

definition evidence_of :: "finding \<Rightarrow> string \<Rightarrow> json list result" where
  "evidence_of f channel =
     (case map_of (fi_evidence f) (lit channel) of None \<Rightarrow> Inr [] | Some v \<Rightarrow> py_list v)"

text \<open>\<open>x = ev.get(k)\<close> followed by \<open>if x\<close>: a false value counts as absent.\<close>

definition get_truthy :: "json \<Rightarrow> string \<Rightarrow> pystr option result" where
  "get_truthy ev k = bindE (get_item ev (lit k)) (\<lambda>v.
     if truthy v then bindE (as_str v) (\<lambda>s. Inr (Some s)) else Inr None)"

definition get_opt :: "json \<Rightarrow> string \<Rightarrow> pystr option result" where
  "get_opt ev k = bindE (get_item ev (lit k)) (opt_of as_str)"

definition removeprefix :: "pystr \<Rightarrow> pystr \<Rightarrow> pystr" where
  "removeprefix s p = (if startswith s p then drop (length p) s else s)"

definition add_truthy :: "string \<Rightarrow> string \<Rightarrow> finding \<Rightarrow> json \<Rightarrow> seen \<Rightarrow> seen result" where
  "add_truthy type k f ev seen =
     bindE (get_truthy ev k) (\<lambda>x. Inr (case x of
       None \<Rightarrow> seen
     | Some v \<Rightarrow> ioc_add (lit type) v (confidence_value (fi_confidence f)) (fi_subject f) seen))"

definition extract_module :: "finding \<Rightarrow> seen \<Rightarrow> seen result" where
  "extract_module f seen =
     bindE (evidence_of f ''unexpected_hook'') (\<lambda>evs.
       foldE (add_truthy ''hooked_function'' ''function'' f) evs
         (ioc_add (lit ''kernel_module'') (removeprefix (fi_subject f) (lit ''module ''))
            (confidence_value (fi_confidence f)) (fi_subject f) seen))"

text \<open>Which ends of a connection name the peer, by its state.\<close>

definition endpoints_of :: "json \<Rightarrow> pystr option list result" where
  "endpoints_of ev =
     bindE (get_opt ev ''state'') (\<lambda>state.
     if state \<in> Some ` set peer_states then bindE (get_opt ev ''remote'') (\<lambda>r. Inr [r])
     else if state = Some (lit ''LISTEN'') then bindE (get_opt ev ''local'') (\<lambda>l. Inr [l])
     else bindE (get_opt ev ''local'') (\<lambda>l. bindE (get_opt ev ''remote'') (\<lambda>r. Inr [l, r])))"

definition add_endpoint :: "finding \<Rightarrow> pystr option \<Rightarrow> seen \<Rightarrow> seen" where
  "add_endpoint f endpoint seen =
     (if placeholder_endpoint endpoint then seen
      else ioc_add (lit ''network_endpoint'') (show_name endpoint)
        (confidence_value (fi_confidence f)) (fi_subject f) seen)"

definition extract_process :: "finding \<Rightarrow> seen \<Rightarrow> seen result" where
  "extract_process f seen =
     bindE (foldE (\<lambda>channel s. bindE (evidence_of f channel) (\<lambda>evs.
              foldE (add_truthy ''process_name'' ''comm'' f) evs s))
            [''syscall_kill'', ''direct_status''] seen) (\<lambda>seen.
     bindE (evidence_of f ''socket_visible'') (\<lambda>evs.
       foldE (\<lambda>ev s. bindE (endpoints_of ev) (\<lambda>eps. Inr (fold (add_endpoint f) eps s))) evs seen))"

definition extract_step :: "finding \<Rightarrow> seen \<Rightarrow> seen result" where
  "extract_step f seen =
     (if fi_kind f = HIDDEN_MODULE then extract_module f seen
      else if fi_kind f = HIDDEN_PROCESS then extract_process f seen
      else Inr seen)"

definition extract_iocs :: "finding list \<Rightarrow> ioc list result" where
  "extract_iocs fs = bindE (foldE extract_step fs []) (\<lambda>seen.
     Inr (sort_key (\<lambda>i. (io_type i, io_value i)) (map snd seen)))"

section \<open>The reference\<close>

fun somes :: "'a option list \<Rightarrow> 'a list" where
  "somes [] = []"
| "somes (None # xs) = somes xs"
| "somes (Some x # xs) = x # somes xs"

lemma somes_append [simp]: "somes (xs @ ys) = somes xs @ somes ys"
  by (induction xs rule: somes.induct) auto

text \<open>The indicators one finding offers, in order, empty values and repetitions included.\<close>

definition mk_ioc :: "finding \<Rightarrow> string \<Rightarrow> pystr \<Rightarrow> ioc" where
  "mk_ioc f type v =
     \<lparr>io_type = lit type, io_value = v, io_confidence = confidence_value (fi_confidence f),
      io_source = fi_subject f\<rparr>"

definition values_of :: "finding \<Rightarrow> string \<Rightarrow> string \<Rightarrow> pystr list result" where
  "values_of f channel k =
     bindE (evidence_of f channel) (\<lambda>evs.
     bindE (mapE (\<lambda>ev. get_truthy ev k) evs) (\<lambda>xs. Inr (somes xs)))"

definition peers_of :: "finding \<Rightarrow> pystr list result" where
  "peers_of f =
     bindE (evidence_of f ''socket_visible'') (\<lambda>evs.
     bindE (mapE endpoints_of evs) (\<lambda>epss.
     Inr (somes (filter (\<lambda>e. \<not> placeholder_endpoint e) (concat epss)))))"

definition offered :: "finding \<Rightarrow> ioc list result" where
  "offered f =
     (if fi_kind f = HIDDEN_MODULE then
        bindE (values_of f ''unexpected_hook'' ''function'') (\<lambda>fns.
        Inr (mk_ioc f ''kernel_module'' (removeprefix (fi_subject f) (lit ''module '')) #
             map (mk_ioc f ''hooked_function'') fns))
      else if fi_kind f = HIDDEN_PROCESS then
        bindE (values_of f ''syscall_kill'' ''comm'') (\<lambda>c1.
        bindE (values_of f ''direct_status'' ''comm'') (\<lambda>c2.
        bindE (peers_of f) (\<lambda>eps.
        Inr (map (mk_ioc f ''process_name'') (c1 @ c2) @ map (mk_ioc f ''network_endpoint'') eps))))
      else Inr [])"

abbreviation ioc_key :: "ioc \<Rightarrow> pystr \<times> pystr" where
  "ioc_key i \<equiv> (io_type i, io_value i)"

text \<open>The first of each key among those with a value.\<close>

fun firsts :: "ioc list \<Rightarrow> (pystr \<times> pystr) set \<Rightarrow> ioc list" where
  "firsts [] ks = []"
| "firsts (i # js) ks =
     (if io_value i = [] \<or> ioc_key i \<in> ks then firsts js ks
      else i # firsts js (insert (ioc_key i) ks))"

lemma firsts_append:
  "firsts (xs @ ys) ks = firsts xs ks @ firsts ys (ks \<union> ioc_key ` set (firsts xs ks))"
  by (induction xs arbitrary: ks) (auto simp: insert_commute Un_insert_left)

lemma firsts_keys: "ioc_key ` set (firsts xs ks) = {ioc_key i | i. i \<in> set xs \<and> io_value i \<noteq> []} - ks"
  by (induction xs arbitrary: ks) auto

lemma firsts_distinct: "distinct (map ioc_key (firsts xs ks))"
proof (induction xs arbitrary: ks)
  case (Cons i xs)
  have "ioc_key i \<notin> ioc_key ` set (firsts xs (insert (ioc_key i) ks))"
    unfolding firsts_keys by simp
  with Cons show ?case by simp
qed simp

lemma firsts_subset: "i \<in> set (firsts xs ks) \<Longrightarrow> i \<in> set xs \<and> io_value i \<noteq> []"
  by (induction xs arbitrary: ks) (auto split: if_splits)

text \<open>The loop state for a list of first indicators.\<close>

definition table :: "ioc list \<Rightarrow> seen" where
  "table xs = map (\<lambda>i. (ioc_key i, i)) xs"

lemma fst_table [simp]: "fst ` set (table xs) = ioc_key ` set xs"
  by (force simp: table_def)

lemma ioc_add_table:
  "ioc_add (lit type) v (confidence_value (fi_confidence f)) (fi_subject f) (table xs) =
   table (xs @ firsts [mk_ioc f type v] (ioc_key ` set xs))"
proof -
  have "AList.update k i (table xs) = table xs @ [(k, i)]" if "k \<notin> ioc_key ` set xs" for k i
    using that by (intro update_fresh) simp
  then show ?thesis
    by (simp add: ioc_add_def Let_def mk_ioc_def) (simp add: table_def)
qed

text \<open>Adding a list of indicators to the loop state.\<close>

definition adds :: "ioc list \<Rightarrow> ioc list \<Rightarrow> ioc list" where
  "adds xs js = xs @ firsts js (ioc_key ` set xs)"

lemma adds_append: "adds xs (js @ ks) = adds (adds xs js) ks"
  by (simp add: adds_def firsts_append image_Un)

lemma adds_Nil [simp]: "adds xs [] = xs"
  by (simp add: adds_def)

lemma adds_Cons: "adds xs (i # js) = adds (adds xs [i]) js"
  using adds_append [of xs "[i]" "js"] by simp

lemma ioc_add_adds:
  "ioc_add (lit type) v (confidence_value (fi_confidence f)) (fi_subject f) (table xs) =
   table (adds xs [mk_ioc f type v])"
  by (simp only: ioc_add_table adds_def)

lemma add_truthy_step:
  "add_truthy type k f ev (table xs) =
   bindE (get_truthy ev k) (\<lambda>v.
     Inr (table (adds xs (map (mk_ioc f type) (somes [v])))))"
  by (auto simp: add_truthy_def ioc_add_adds intro!: bindE_cong split: option.split)

lemma adds_somes:
  "adds (adds xs (map m (somes [v]))) (map m (somes vs)) = adds xs (map m (somes (v # vs)))"
  by (cases v) (simp_all add: adds_append [symmetric])

lemma add_truthy_loop:
  "foldE (add_truthy type k f) evs (table xs) =
   bindE (mapE (\<lambda>ev. get_truthy ev k) evs) (\<lambda>vs.
     Inr (table (adds xs (map (mk_ioc f type) (somes vs)))))"
proof (induction evs arbitrary: xs)
  case (Cons ev evs)
  show ?case
    by (cases "get_truthy ev k"; cases "mapE (\<lambda>ev. get_truthy ev k) evs")
      (simp_all add: Cons add_truthy_step adds_somes del: somes.simps(2,3))
qed simp

lemma add_endpoint_table:
  "add_endpoint f e (table xs) =
   table (adds xs (map (mk_ioc f ''network_endpoint'')
     (somes (filter (\<lambda>e. \<not> placeholder_endpoint e) [e]))))"
  by (cases e) (simp_all add: add_endpoint_def placeholder_endpoint_def ioc_add_adds show_name_def
     )

lemma add_endpoints_table:
  "fold (add_endpoint f) es (table xs) =
   table (adds xs (map (mk_ioc f ''network_endpoint'')
     (somes (filter (\<lambda>e. \<not> placeholder_endpoint e) es))))"
proof (induction es arbitrary: xs)
  case (Cons e es)
  have "filter P (e # es) = filter P [e] @ filter P es" for P by simp
  with Cons show ?case
    by (simp only: fold_simps add_endpoint_table adds_append map_append somes_append)
qed simp

lemma endpoint_loop:
  "foldE (\<lambda>ev s. bindE (endpoints_of ev) (\<lambda>eps. Inr (fold (add_endpoint f) eps s))) evs (table xs) =
   bindE (mapE endpoints_of evs) (\<lambda>epss. Inr (table (adds xs (map (mk_ioc f ''network_endpoint'')
     (somes (filter (\<lambda>e. \<not> placeholder_endpoint e) (concat epss)))))))"
proof (induction evs arbitrary: xs)
  case (Cons ev evs)
  show ?case
    by (cases "endpoints_of ev"; cases "mapE endpoints_of evs")
      (simp_all add: Cons add_endpoints_table adds_append)
qed simp

lemma bindE_bindE: "bindE (bindE r f) g = bindE r (\<lambda>x. bindE (f x) g)"
  by (cases r) auto

lemma extract_step_offered:
  "extract_step f (table xs) = bindE (offered f) (\<lambda>js. Inr (table (adds xs js)))"
proof (cases "fi_kind f = HIDDEN_MODULE")
  case True
  then show ?thesis
    by (simp add: extract_step_def extract_module_def offered_def values_of_def bindE_bindE
        ioc_add_adds add_truthy_loop adds_Cons [symmetric])
next
  case False
  then show ?thesis
    by (simp add: extract_step_def extract_process_def offered_def values_of_def peers_of_def
        bindE_bindE add_truthy_loop endpoint_loop adds_append map_append)
qed

lemma extract_loop:
  "foldE extract_step fs (table xs) =
   bindE (mapE offered fs) (\<lambda>iss. Inr (table (adds xs (concat iss))))"
proof (induction fs arbitrary: xs)
  case (Cons f fs)
  show ?case
    by (cases "offered f"; cases "mapE offered fs")
      (simp_all add: Cons extract_step_offered adds_append)
qed simp

lemma extract_reference:
  "extract_iocs fs = bindE (mapE offered fs) (\<lambda>iss. Inr (sort_key ioc_key (firsts (concat iss) {})))"
  using extract_loop [of fs "[]"]
  by (cases "mapE offered fs") (simp_all add: extract_iocs_def table_def adds_def comp_def)

end
