(* ===== verification/Ioc_Props.thy ===== *)
theory Ioc_Props
  imports Iocs
begin

text \<open>
  What the indicators of an analysis are, in terms of the snapshot: the extraction never fails on
  the findings of an analysis, and the modules, hooked functions and network endpoints it
  exports are those of hidden modules and of hidden processes' sockets.
\<close>

section \<open>Reading the evidence of a composed finding\<close>

lemma evidence_of_compose:
  "evidence_of (compose u ms) c =
     Inr (map (\<lambda>g. JDict (sg_evidence g)) (filter (\<lambda>g. sg_channel g = lit c) ms))"
proof -
  have "map_of (fi_evidence (compose u ms)) (lit c) =
      map_option JList (map_of (evidence_groups (sort_key sg_channel ms)) (lit c))"
    by (simp only: fi_evidence_compose map_of_map comp_apply)
  also have "\<dots> = (if lit c \<in> sg_channel ` set ms
      then Some (JList (map (\<lambda>g. JDict (sg_evidence g)) (filter (\<lambda>g. sg_channel g = lit c) ms)))
      else None)"
    by (simp add: evidence_groups_def map_of_group_by sort_key_stable)
  finally show ?thesis
    by (cases "lit c \<in> sg_channel ` set ms") (auto simp: evidence_of_def filter_empty_conv image_iff)
qed

text \<open>The fields that the extractor reads hold a string or None.\<close>

definition readable :: "signal \<Rightarrow> bool" where
  "readable g \<longleftrightarrow>
     (sg_channel g = lit ''unexpected_hook'' \<longrightarrow> \<not> isl (get_truthy (JDict (sg_evidence g)) ''function'')) \<and>
     (sg_channel g \<in> {lit ''syscall_kill'', lit ''direct_status''} \<longrightarrow>
        \<not> isl (get_truthy (JDict (sg_evidence g)) ''comm'')) \<and>
     (sg_channel g = lit ''socket_visible'' \<longrightarrow> \<not> isl (endpoints_of (JDict (sg_evidence g))))"

lemma get_truthy_ldict:
  "get_truthy (JDict (ldict kvs)) k = (case map_of (ldict kvs) (lit k) of
     None \<Rightarrow> Inr None
   | Some v \<Rightarrow> if truthy v then bindE (as_str v) (\<lambda>s. Inr (Some s)) else Inr None)"
  by (simp add: get_truthy_def split: option.split)

lemma truthy_opt_str [simp]: "truthy (opt_json JStr x) \<longleftrightarrow> (\<exists>s. x = Some s \<and> s \<noteq> [])"
  by (cases x) auto

lemma get_truthy_opt:
  "map_of (ldict kvs) (lit k) = Some (opt_json JStr x) \<Longrightarrow>
   get_truthy (JDict (ldict kvs)) k = Inr (if x = Some [] then None else x)"
  by (cases x) (auto simp: get_truthy_ldict)

lemma get_opt_ldict:
  "map_of (ldict kvs) (lit k) = Some (opt_json JStr x) \<Longrightarrow> get_opt (JDict (ldict kvs)) k = Inr x"
  by (simp add: get_opt_def)

text \<open>Which ends of a socket name the peer.\<close>

definition named_ends :: "socket_entity \<Rightarrow> pystr option list" where
  "named_ends e =
     (if so_state e \<in> Some ` set peer_states then [so_remote e]
      else if so_state e = Some (lit ''LISTEN'') then [so_local e]
      else [so_local e, so_remote e])"

lemma socket_signal_sel [simp]:
  "sg_channel (socket_signal e n) = lit ''socket_visible''"
  "endpoints_of (JDict (sg_evidence (socket_signal e n))) = Inr (named_ends e)"
proof -
  define ev where "ev = ldict [(''inode'', JInt (so_inode e)), (''local'', opt_json JStr (so_local e)),
        (''remote'', opt_json JStr (so_remote e)), (''state'', opt_json JStr (so_state e))]"
  have "get_opt (JDict ev) ''local'' = Inr (so_local e)"
    "get_opt (JDict ev) ''remote'' = Inr (so_remote e)"
    "get_opt (JDict ev) ''state'' = Inr (so_state e)"
    unfolding ev_def by (rule get_opt_ldict; simp)+
  moreover have "sg_evidence (socket_signal e n) = ev"
    by (simp add: socket_signal_def ev_def)
  ultimately show "endpoints_of (JDict (sg_evidence (socket_signal e n))) = Inr (named_ends e)"
    by (simp add: endpoints_of_def named_ends_def)
qed (simp add: socket_signal_def)

lemma hook_signal_reads:
  "g \<in> set (hook_signals listed h) \<Longrightarrow>
   get_truthy (JDict (sg_evidence g)) ''function'' =
     Inr (if hk_function h = [] then None else Some (hk_function h))"
  by (auto simp: hook_signals_def get_truthy_ldict split: option.splits if_splits)

lemma process_signal_reads:
  "g \<in> set (process_signals procfs ent) \<Longrightarrow> \<not> isl (get_truthy (JDict (sg_evidence g)) ''comm'')"
  by (cases "sw_comm ent")
    (auto simp: process_signals_def process_evidence_def Let_def get_truthy_ldict split: if_splits)

section \<open>The signals behind them\<close>

definition reported_hook :: "snapshot \<Rightarrow> hook_entity \<Rightarrow> bool" where
  "reported_hook s h \<longleftrightarrow>
     (case observations s ''kernel.hooks'' of
        [] \<Rightarrow> False
      | hooks # _ \<Rightarrow> list_ex (\<lambda>key. entity_at hooks key = Inr (EHook h)) (ob_entity_ids hooks)) \<and>
     (\<exists>m. hk_owner_module h = Some m \<and> IdStr m \<notin> set (module_ids s))"

definition hidden_socket :: "snapshot \<Rightarrow> socket_entity \<Rightarrow> bool" where
  "hidden_socket s e \<longleftrightarrow> so_in_table e \<and>
     (case (observations s ''procfs.sockets'', tid_to_tgid s) of
        (sockets # _, Inr m) \<Rightarrow>
          list_ex (\<lambda>key. entity_at sockets key = Inr (ESocket e)) (ob_entity_ids sockets) \<and>
          list_ex (\<lambda>pid. IdInt (fold_tid m pid) \<notin> set (procfs_listed s)) (so_owner_pids e)
      | _ \<Rightarrow> False)"

lemma hook_signals_of:
  assumes "signals_hooks s = Inr sigs"
  shows "set sigs = (\<Union>h \<in> {h. reported_hook s h}. set (hook_signals (module_ids s) h))"
proof (cases "observations s ''kernel.hooks''")
  case Nil
  then show ?thesis using assms by (simp add: signals_hooks_def reported_hook_def)
next
  case (Cons hooks hs)
  with assms obtain out where
    out: "mapE (\<lambda>key. bindE (entity_at hooks key) (\<lambda>e. bindE (as_hook e) (\<lambda>ent.
      Inr (hook_signals (module_ids s) ent)))) (ob_entity_ids hooks) = Inr out"
    and s: "set sigs = set (concat out)"
    by (auto simp: signals_hooks_def)
  define H where "H = {h. \<exists>key \<in> set (ob_entity_ids hooks). entity_at hooks key = Inr (EHook h)}"
  have "set out = hook_signals (module_ids s) ` H"
    unfolding mapE_range [OF out] by (auto simp: bindE_eq_Inr_iff H_def)
  moreover have "reported_hook s h \<longleftrightarrow> h \<in> H \<and> hook_signals (module_ids s) h \<noteq> []" for h
    by (auto simp: reported_hook_def hook_signals_def Cons list_ex_iff H_def split: option.split)
  ultimately show ?thesis by (auto simp: s)
qed

lemma owner_loop_signals:
  "g \<in> set (owner_loop m listed e pids reported) \<Longrightarrow> \<exists>n. g = socket_signal e n"
  by (induction pids arbitrary: reported) (auto simp: Let_def split: if_splits)

lemma owner_loop_nonempty:
  "owner_loop m listed e pids reported \<noteq> [] \<longleftrightarrow>
     (\<exists>pid \<in> set pids. IdInt (fold_tid m pid) \<notin> set listed \<and> fold_tid m pid \<notin> set reported)"
  by (induction pids arbitrary: reported) (auto simp: Let_def)

lemma socket_signals_of:
  assumes "signals_sockets s = Inr sigs"
  shows "g \<in> set sigs \<Longrightarrow> \<exists>e n. hidden_socket s e \<and> g = socket_signal e n"
    and "hidden_socket s e \<Longrightarrow> \<exists>n. socket_signal e n \<in> set sigs"
proof -
  have "set sigs = {} \<and> (\<forall>e. \<not> hidden_socket s e) \<or> (\<exists>m listed.
      set sigs = (\<Union>e \<in> {e. hidden_socket s e}. set (owner_loop m listed e (so_owner_pids e) [])) \<and>
      (\<forall>e. hidden_socket s e \<longrightarrow> owner_loop m listed e (so_owner_pids e) [] \<noteq> []))"
  proof (cases "observations s ''procfs.sockets''")
    case Nil
    then show ?thesis using assms by (simp add: signals_sockets_def hidden_socket_def)
  next
    case (Cons sockets ss)
    with assms obtain m out where m: "tid_to_tgid s = Inr m"
      and out: "mapE (\<lambda>key. bindE (entity_at sockets key) (\<lambda>x. bindE (as_socket x) (\<lambda>e.
        Inr (if so_in_table e then owner_loop m (procfs_listed s) e (so_owner_pids e) [] else []))))
          (ob_entity_ids sockets) = Inr out"
      and s: "set sigs = set (concat out)"
      by (auto simp: signals_sockets_def)
    define H where "H = {e. \<exists>key \<in> set (ob_entity_ids sockets). entity_at sockets key = Inr (ESocket e)}"
    define W where "W e = owner_loop m (procfs_listed s) e (so_owner_pids e) []" for e
    define V where "V e = (if so_in_table e then W e else [])" for e
    have "set out = V ` H"
      using mapE_range [OF out [folded W_def, folded V_def]]
      by (auto simp: bindE_eq_Inr_iff H_def)
    moreover have h: "hidden_socket s e \<longleftrightarrow> e \<in> H \<and> so_in_table e \<and> W e \<noteq> []" for e
      unfolding W_def owner_loop_nonempty
      by (auto simp: hidden_socket_def Cons m H_def list_ex_iff)
    ultimately have "set sigs = (\<Union>e \<in> {e. hidden_socket s e}. set (W e))"
      by (auto simp: s V_def split: if_splits)
    with h show ?thesis unfolding W_def by blast
  qed
  then show "g \<in> set sigs \<Longrightarrow> \<exists>e n. hidden_socket s e \<and> g = socket_signal e n"
    and "hidden_socket s e \<Longrightarrow> \<exists>n. socket_signal e n \<in> set sigs"
    using owner_loop_signals by (fastforce, metis (no_types, lifting) UN_I empty_iff
      hd_in_set mem_Collect_eq)
qed

lemma sweep_loop_readable:
  "sweep_loop procfs listed sweep ids reported = Inr sigs \<Longrightarrow> g \<in> set sigs \<Longrightarrow>
   \<not> isl (get_truthy (JDict (sg_evidence g)) ''comm'')"
  by (induction ids arbitrary: reported sigs) (auto simp: process_signal_reads split: if_splits)

text \<open>The signals of an analysis, by the channel that the extractor asks for.\<close>

lemma all_signals_parts:
  assumes "all_signals s b = Inr sigs"
  obtains s1 s3 s4 where "signals_processes s = Inr s1" "signals_hooks s = Inr s3"
    "signals_sockets s = Inr s4"
    "\<forall>g \<in> set sigs. sg_channel g \<in> {lit ''syscall_kill'', lit ''direct_status''} \<longleftrightarrow> g \<in> set s1"
    "\<forall>g \<in> set sigs. sg_channel g = lit ''unexpected_hook'' \<longleftrightarrow> g \<in> set s3"
    "\<forall>g \<in> set sigs. sg_channel g = lit ''socket_visible'' \<longleftrightarrow> g \<in> set s4"
    "set s1 \<union> set s3 \<union> set s4 \<subseteq> set sigs"
proof -
  from assms obtain s1 s2 s3 s4 s5 s6 where
    1: "signals_processes s = Inr s1" and 2: "signals_modules s = Inr s2" and
    3: "signals_hooks s = Inr s3" and 4: "signals_sockets s = Inr s4" and
    5: "signals_over_listed s = Inr s5" and
    6: "(case b of None \<Rightarrow> Inr [] | Some r \<Rightarrow> signals_baseline s r) = Inr s6" and
    s: "sigs = s1 @ s2 @ s3 @ s4 @ s5 @ s6"
    by (auto simp: all_signals_def)
  have "g \<in> set s6 \<Longrightarrow> sg_channel g = lit ''baseline_drift''" for g
    using 6 drift.law by (cases b) auto
  note channel = processes.law [OF 1] modules.law [OF 2] hooks.law [OF 3] sockets.law [OF 4]
    phantoms.law [OF 5] this
  have "(sg_channel g \<in> {lit ''syscall_kill'', lit ''direct_status''} \<longleftrightarrow> g \<in> set s1) \<and>
      (sg_channel g = lit ''unexpected_hook'' \<longleftrightarrow> g \<in> set s3) \<and>
      (sg_channel g = lit ''socket_visible'' \<longleftrightarrow> g \<in> set s4)" if "g \<in> set sigs" for g
    using that channel [of g] by (auto simp: s)
  then show ?thesis by (intro that [OF 1 3 4]) (auto simp: s)
qed

lemma all_readable:
  assumes "all_signals s b = Inr sigs" and "g \<in> set sigs"
  shows "readable g"
proof -
  obtain s1 s3 s4 where p: "signals_processes s = Inr s1" "signals_hooks s = Inr s3"
    "signals_sockets s = Inr s4"
    and c: "\<forall>g \<in> set sigs. sg_channel g \<in> {lit ''syscall_kill'', lit ''direct_status''} \<longleftrightarrow> g \<in> set s1"
    "\<forall>g \<in> set sigs. sg_channel g = lit ''unexpected_hook'' \<longleftrightarrow> g \<in> set s3"
    "\<forall>g \<in> set sigs. sg_channel g = lit ''socket_visible'' \<longleftrightarrow> g \<in> set s4"
    and "set s1 \<union> set s3 \<union> set s4 \<subseteq> set sigs"
    by (rule all_signals_parts [OF assms(1)]) blast
  have "g \<in> set s3 \<Longrightarrow> \<not> isl (get_truthy (JDict (sg_evidence g)) ''function'')"
    using hook_signals_of [OF p(2)] hook_signal_reads by fastforce
  moreover have "g \<in> set s1 \<Longrightarrow> \<not> isl (get_truthy (JDict (sg_evidence g)) ''comm'')"
    using p(1) sweep_loop_readable by (fastforce simp: signals_processes_def split: list.splits)
  moreover have "g \<in> set s4 \<Longrightarrow> \<not> isl (endpoints_of (JDict (sg_evidence g)))"
    using socket_signals_of(1) [OF p(3)] by fastforce
  ultimately show ?thesis
    using c assms(2) unfolding readable_def by blast
qed

section \<open>What a finding offers\<close>

lemma not_isl_iff: "\<not> isl r \<longleftrightarrow> (\<exists>x. r = Inr x)"
  by (cases r) auto

lemma set_somes: "set (somes xs) = {x. Some x \<in> set xs}"
  by (induction xs rule: somes.induct) auto

lemma mapE_not_isl: "(\<And>x. x \<in> set xs \<Longrightarrow> \<not> isl (f x)) \<Longrightarrow> \<exists>ys. mapE f xs = Inr ys"
  by (cases "mapE f xs") (fastforce dest!: mapE_Inl)+

lemma values_of_compose:
  assumes "\<And>g. g \<in> set ms \<Longrightarrow> sg_channel g = lit c \<Longrightarrow> \<not> isl (get_truthy (JDict (sg_evidence g)) k)"
  shows "\<exists>vs. values_of (compose u ms) c k = Inr vs \<and>
     set vs = {v. \<exists>g \<in> set ms. sg_channel g = lit c \<and> get_truthy (JDict (sg_evidence g)) k = Inr (Some v)}"
proof -
  let ?evs = "map (\<lambda>g. JDict (sg_evidence g)) (filter (\<lambda>g. sg_channel g = lit c) ms)"
  obtain xs where xs: "mapE (\<lambda>ev. get_truthy ev k) ?evs = Inr xs"
    using mapE_not_isl [of ?evs "\<lambda>ev. get_truthy ev k"] assms by auto
  then have "values_of (compose u ms) c k = Inr (somes xs)"
    by (simp add: values_of_def evidence_of_compose)
  moreover have "set (somes xs) =
      {v. \<exists>g \<in> set ms. sg_channel g = lit c \<and> get_truthy (JDict (sg_evidence g)) k = Inr (Some v)}"
    unfolding set_somes mapE_range [OF xs] by auto
  ultimately show ?thesis by blast
qed

lemma peers_of_compose:
  assumes "\<And>g. g \<in> set ms \<Longrightarrow> sg_channel g = lit ''socket_visible'' \<Longrightarrow>
      \<not> isl (endpoints_of (JDict (sg_evidence g)))"
  shows "\<exists>vs. peers_of (compose u ms) = Inr vs \<and>
     set vs = {v. \<not> placeholder_endpoint (Some v) \<and> (\<exists>g \<in> set ms. sg_channel g = lit ''socket_visible'' \<and>
       (\<exists>eps. endpoints_of (JDict (sg_evidence g)) = Inr eps \<and> Some v \<in> set eps))}"
proof -
  let ?evs = "map (\<lambda>g. JDict (sg_evidence g)) (filter (\<lambda>g. sg_channel g = lit ''socket_visible'') ms)"
  obtain xs where xs: "mapE endpoints_of ?evs = Inr xs"
    using mapE_not_isl [of ?evs endpoints_of] assms by auto
  have "peers_of (compose u ms) = Inr (somes (filter (\<lambda>e. \<not> placeholder_endpoint e) (concat xs)))"
    using xs by (simp add: peers_of_def evidence_of_compose)
  moreover have "set (somes (filter (\<lambda>e. \<not> placeholder_endpoint e) (concat xs))) =
      {v. \<not> placeholder_endpoint (Some v) \<and> (\<exists>g \<in> set ms. sg_channel g = lit ''socket_visible'' \<and>
       (\<exists>eps. endpoints_of (JDict (sg_evidence g)) = Inr eps \<and> Some v \<in> set eps))}"
    unfolding set_somes set_filter set_concat mapE_range [OF xs] by auto
  ultimately show ?thesis by blast
qed

text \<open>The indicators of one composed finding.\<close>

definition offers :: "suspect \<Rightarrow> signal list \<Rightarrow> ioc set" where
  "offers u ms =
     (let f = compose u ms in
      if fi_kind f = HIDDEN_MODULE then
        insert (mk_ioc f ''kernel_module'' (removeprefix (fi_subject f) (lit ''module '')))
          {mk_ioc f ''hooked_function'' v | v g. g \<in> set ms \<and> sg_channel g = lit ''unexpected_hook'' \<and>
             get_truthy (JDict (sg_evidence g)) ''function'' = Inr (Some v)}
      else if fi_kind f = HIDDEN_PROCESS then
        {mk_ioc f ''process_name'' v | v g. g \<in> set ms \<and>
             sg_channel g \<in> {lit ''syscall_kill'', lit ''direct_status''} \<and>
             get_truthy (JDict (sg_evidence g)) ''comm'' = Inr (Some v)} \<union>
        {mk_ioc f ''network_endpoint'' v | v g eps. g \<in> set ms \<and> \<not> placeholder_endpoint (Some v) \<and>
             sg_channel g = lit ''socket_visible'' \<and>
             endpoints_of (JDict (sg_evidence g)) = Inr eps \<and> Some v \<in> set eps}
      else {})"

lemma offered_compose:
  assumes "\<And>g. g \<in> set ms \<Longrightarrow> readable g"
  shows "\<exists>os. offered (compose u ms) = Inr os \<and> set os = offers u ms"
proof -
  let ?f = "compose u ms"
  have r: "\<And>g. g \<in> set ms \<Longrightarrow> sg_channel g = lit ''unexpected_hook'' \<Longrightarrow>
      \<not> isl (get_truthy (JDict (sg_evidence g)) ''function'')"
    "\<And>g. g \<in> set ms \<Longrightarrow> sg_channel g = lit ''syscall_kill'' \<Longrightarrow>
      \<not> isl (get_truthy (JDict (sg_evidence g)) ''comm'')"
    "\<And>g. g \<in> set ms \<Longrightarrow> sg_channel g = lit ''direct_status'' \<Longrightarrow>
      \<not> isl (get_truthy (JDict (sg_evidence g)) ''comm'')"
    "\<And>g. g \<in> set ms \<Longrightarrow> sg_channel g = lit ''socket_visible'' \<Longrightarrow>
      \<not> isl (endpoints_of (JDict (sg_evidence g)))"
    using assms unfolding readable_def by blast+
  obtain fns where fns: "values_of ?f ''unexpected_hook'' ''function'' = Inr fns"
    "set fns = {v. \<exists>g \<in> set ms. sg_channel g = lit ''unexpected_hook'' \<and>
       get_truthy (JDict (sg_evidence g)) ''function'' = Inr (Some v)}"
    using values_of_compose [of ms "''unexpected_hook''" "''function''" u, OF r(1)] by blast
  obtain c1 where c1: "values_of ?f ''syscall_kill'' ''comm'' = Inr c1"
    "set c1 = {v. \<exists>g \<in> set ms. sg_channel g = lit ''syscall_kill'' \<and>
       get_truthy (JDict (sg_evidence g)) ''comm'' = Inr (Some v)}"
    using values_of_compose [of ms "''syscall_kill''" "''comm''" u, OF r(2)] by blast
  obtain c2 where c2: "values_of ?f ''direct_status'' ''comm'' = Inr c2"
    "set c2 = {v. \<exists>g \<in> set ms. sg_channel g = lit ''direct_status'' \<and>
       get_truthy (JDict (sg_evidence g)) ''comm'' = Inr (Some v)}"
    using values_of_compose [of ms "''direct_status''" "''comm''" u, OF r(3)] by blast
  obtain eps where eps: "peers_of ?f = Inr eps"
    "set eps = {v. \<not> placeholder_endpoint (Some v) \<and> (\<exists>g \<in> set ms. sg_channel g = lit ''socket_visible'' \<and>
       (\<exists>eps. endpoints_of (JDict (sg_evidence g)) = Inr eps \<and> Some v \<in> set eps))}"
    using peers_of_compose [of ms u, OF r(4)] by blast
  consider (m) "fi_kind ?f = HIDDEN_MODULE" | (p) "fi_kind ?f = HIDDEN_PROCESS"
    | (o) "fi_kind ?f \<notin> {HIDDEN_MODULE, HIDDEN_PROCESS}" by blast
  then show ?thesis
  proof cases
    case m
    then have "offered ?f = Inr (mk_ioc ?f ''kernel_module'' (removeprefix (fi_subject ?f) (lit ''module '')) #
        map (mk_ioc ?f ''hooked_function'') fns)"
      by (simp add: offered_def fns(1) del: compose_sel)
    moreover have "mk_ioc ?f ''hooked_function'' ` set fns = {mk_ioc ?f ''hooked_function'' v | v g.
        g \<in> set ms \<and> sg_channel g = lit ''unexpected_hook'' \<and>
        get_truthy (JDict (sg_evidence g)) ''function'' = Inr (Some v)}"
      unfolding fns(2) by blast
    ultimately show ?thesis using m by (simp add: offers_def Let_def del: compose_sel)
  next
    case p
    then have "offered ?f = Inr (map (mk_ioc ?f ''process_name'') (c1 @ c2) @
        map (mk_ioc ?f ''network_endpoint'') eps)"
      by (simp add: offered_def c1(1) c2(1) eps(1) del: compose_sel)
    moreover have "mk_ioc ?f ''process_name'' ` (set c1 \<union> set c2) = {mk_ioc ?f ''process_name'' v | v g.
        g \<in> set ms \<and> sg_channel g \<in> {lit ''syscall_kill'', lit ''direct_status''} \<and>
        get_truthy (JDict (sg_evidence g)) ''comm'' = Inr (Some v)}"
      unfolding c1(2) c2(2) by blast
    moreover have "mk_ioc ?f ''network_endpoint'' ` set eps = {mk_ioc ?f ''network_endpoint'' v | v g eps.
        g \<in> set ms \<and> \<not> placeholder_endpoint (Some v) \<and> sg_channel g = lit ''socket_visible'' \<and>
        endpoints_of (JDict (sg_evidence g)) = Inr eps \<and> Some v \<in> set eps}"
      unfolding eps(2) by blast
    ultimately show ?thesis using p
      by (simp add: offers_def Let_def image_Un Un_assoc [symmetric] del: compose_sel)
  next
    case o
    then show ?thesis by (simp add: offered_def offers_def Let_def del: compose_sel)
  qed
qed

section \<open>From a finding to the whole analysis\<close>

lemma members_subset: "g \<in> set (members sigs u) \<Longrightarrow> g \<in> set sigs"
  by (auto simp: members_def named_signals_def anon_signals_def split: if_splits)

lemma unattributed_offers: "offered (unattributed cs anon) = Inr []"
  by (simp add: offered_def)

lemma finding_offers:
  assumes "all_signals s b = Inr sigs" and "f \<in> set (score sigs)"
  shows "\<exists>os. offered f = Inr os \<and> (\<forall>i. i \<in> set os \<longleftrightarrow>
     (\<exists>u. su_name u \<noteq> None \<and> agreeing sigs u \<noteq> {} \<and> f = compose u (members sigs u) \<and>
        i \<in> offers u (members sigs u)))"
proof -
  consider u where "su_name u \<noteq> None" "agreeing sigs u \<noteq> {}" "f = compose u (members sigs u)"
    | "f = unattributed (candidates sigs) (leftover sigs)"
    using assms(2) by (auto simp: finding_iff)
  then show ?thesis
  proof cases
    case 1
    then obtain os where os: "offered f = Inr os" "set os = offers u (members sigs u)"
      using offered_compose [of "members sigs u" u] all_readable [OF assms(1)] members_subset by blast
    have "set os = offers v (members sigs v)"
      if "su_name v \<noteq> None" "f = compose v (members sigs v)" for v
      using offered_compose [of "members sigs v" v] all_readable [OF assms(1)] members_subset
        os(1) that(2) by fastforce
    with 1 os show ?thesis by blast
  next
    case 2
    have "f \<noteq> compose v (members sigs v)" if "su_name v \<noteq> None" for v
    proof
      assume "f = compose v (members sigs v)"
      then have "fi_kind (compose v (members sigs v)) = SUSPECTED_HIDDEN_MODULE"
        using 2 by (metis unattributed_sel(1))
      with that show False by (simp add: compose_kind Let_def del: compose_sel split: if_splits)
    qed
    with 2 show ?thesis by (auto simp: unattributed_offers)
  qed
qed

lemma extract_of_score:
  assumes "all_signals s b = Inr sigs"
  shows "\<exists>iss. mapE offered (score sigs) = Inr iss \<and> (\<forall>i. i \<in> set (concat iss) \<longleftrightarrow>
     (\<exists>u. su_name u \<noteq> None \<and> agreeing sigs u \<noteq> {} \<and> i \<in> offers u (members sigs u)))"
proof -
  obtain iss where iss: "mapE offered (score sigs) = Inr iss"
    using mapE_not_isl [of "score sigs" offered] finding_offers [OF assms] by fastforce
  have "i \<in> set (concat iss) \<longleftrightarrow> (\<exists>f \<in> set (score sigs). \<exists>os. offered f = Inr os \<and> i \<in> set os)" for i
    unfolding set_concat mapE_range [OF iss] by auto
  moreover have "(\<exists>f \<in> set (score sigs). \<exists>os. offered f = Inr os \<and> i \<in> set os) \<longleftrightarrow>
      (\<exists>u. su_name u \<noteq> None \<and> agreeing sigs u \<noteq> {} \<and> i \<in> offers u (members sigs u))" (is "?L \<longleftrightarrow> ?R") for i
  proof
    assume ?L
    then obtain f os where f: "f \<in> set (score sigs)" "offered f = Inr os" "i \<in> set os" by blast
    from finding_offers [OF assms f(1)] f(2,3) show ?R by auto
  next
    assume ?R
    then obtain u where u: "su_name u \<noteq> None" "agreeing sigs u \<noteq> {}" "i \<in> offers u (members sigs u)"
      by blast
    then have f: "compose u (members sigs u) \<in> set (score sigs)" by (auto simp: finding_iff)
    from finding_offers [OF assms f] u f show ?L by blast
  qed
  ultimately show ?thesis using iss by simp
qed

lemma ioc_keys:
  assumes "all_signals s b = Inr sigs"
  shows "\<exists>iocs. extract_iocs (score sigs) = Inr iocs \<and> sorted_wrt (<) (map ioc_key iocs) \<and>
     ioc_key ` set iocs = {ioc_key i | i u. su_name u \<noteq> None \<and> agreeing sigs u \<noteq> {} \<and>
       i \<in> offers u (members sigs u) \<and> io_value i \<noteq> []} \<and>
     (\<forall>i \<in> set iocs. io_value i \<noteq> [] \<and> (\<exists>u. su_name u \<noteq> None \<and> agreeing sigs u \<noteq> {} \<and>
       i \<in> offers u (members sigs u)))"
proof -
  obtain iss where iss: "mapE offered (score sigs) = Inr iss"
    and mem: "\<And>i. i \<in> set (concat iss) \<longleftrightarrow>
      (\<exists>u. su_name u \<noteq> None \<and> agreeing sigs u \<noteq> {} \<and> i \<in> offers u (members sigs u))"
    using extract_of_score [OF assms] by blast
  define iocs where "iocs = sort_key ioc_key (firsts (concat iss) {})"
  have e: "extract_iocs (score sigs) = Inr iocs"
    by (simp add: extract_reference iss iocs_def)
  have "mset (map ioc_key iocs) = mset (map ioc_key (firsts (concat iss) {}))"
    by (simp add: iocs_def)
  from mset_eq_imp_distinct_iff [OF this] have "distinct (map ioc_key iocs)"
    using firsts_distinct [of "concat iss" "{}"] by blast
  then have "sorted_wrt (<) (map ioc_key iocs)"
    by (simp add: iocs_def strict_sorted_iff)
  moreover have "ioc_key ` set iocs = {ioc_key i | i u. su_name u \<noteq> None \<and> agreeing sigs u \<noteq> {} \<and>
       i \<in> offers u (members sigs u) \<and> io_value i \<noteq> []}"
    unfolding iocs_def set_sort firsts_keys mem by blast
  moreover have "\<forall>i \<in> set iocs. io_value i \<noteq> [] \<and> (\<exists>u. su_name u \<noteq> None \<and> agreeing sigs u \<noteq> {} \<and>
       i \<in> offers u (members sigs u))"
    using firsts_subset mem by (fastforce simp: iocs_def)
  ultimately show ?thesis using e by blast
qed

lemma ioc_present:
  assumes "all_signals s b = Inr sigs" and "extract_iocs (score sigs) = Inr iocs"
  shows "(\<exists>i \<in> set iocs. io_type i = t \<and> io_value i = v) \<longleftrightarrow> v \<noteq> [] \<and>
     (\<exists>i u. su_name u \<noteq> None \<and> agreeing sigs u \<noteq> {} \<and> i \<in> offers u (members sigs u) \<and>
        io_type i = t \<and> io_value i = v)"
proof -
  from ioc_keys [OF assms(1)] assms(2)
  have k: "ioc_key ` set iocs = {ioc_key i | i u. su_name u \<noteq> None \<and> agreeing sigs u \<noteq> {} \<and>
       i \<in> offers u (members sigs u) \<and> io_value i \<noteq> []}" by auto
  have "(\<exists>i \<in> set iocs. io_type i = t \<and> io_value i = v) \<longleftrightarrow> (t, v) \<in> ioc_key ` set iocs" by auto
  also have "\<dots> \<longleftrightarrow> (\<exists>i u. su_name u \<noteq> None \<and> agreeing sigs u \<noteq> {} \<and> i \<in> offers u (members sigs u) \<and>
      io_value i \<noteq> [] \<and> io_type i = t \<and> io_value i = v)"
    unfolding k by auto
  finally show ?thesis by auto
qed

lemma mk_ioc_sel [simp]:
  "io_type (mk_ioc f t v) = lit t" "io_value (mk_ioc f t v) = v"
  "io_confidence (mk_ioc f t v) = confidence_value (fi_confidence f)"
  "io_source (mk_ioc f t v) = fi_subject f"
  by (simp_all add: mk_ioc_def)

lemma removeprefix_append [simp]: "removeprefix (p @ s) p = s"
  by (simp add: removeprefix_def startswith_def)

text \<open>The suspects whose finding exports anything.\<close>

lemma offers_kind:
  assumes "all_signals s b = Inr sigs" and "su_name u \<noteq> None" and "agreeing sigs u \<noteq> {}"
    and "i \<in> offers u (members sigs u)"
  shows "(\<exists>n. u = module_suspect n \<and> fi_kind (compose u (members sigs u)) = HIDDEN_MODULE \<and>
        io_type i \<in> {lit ''kernel_module'', lit ''hooked_function''}) \<or>
     (\<exists>n. u = process_suspect n \<and> fi_kind (compose u (members sigs u)) = HIDDEN_PROCESS \<and>
        io_type i \<in> {lit ''process_name'', lit ''network_endpoint''})"
proof -
  from suspect_cases [OF assms(1,3)] assms(2) consider n where "u = process_suspect n"
    | n where "u = module_suspect n" by auto
  then show ?thesis
    using assms(4)
    by cases (auto simp: offers_def Let_def compose_kind simp del: compose_sel split: if_splits)
qed

lemma infected_iocs:
  "\<exists>fs iocs. analyze infected (Some clean) = Inr fs \<and> extract_iocs fs = Inr iocs"
proof -
  obtain sigs where sigs: "all_signals infected (Some clean) = Inr sigs"
    using infected_signals by blast
  from ioc_keys [OF sigs] sigs show ?thesis by (auto simp: analyze_def)
qed

section \<open>Properties of the exported indicators\<close>

text \<open>
  C27: On the findings of any analysis the indicator extraction returns a result. The indicators come
  strictly ascending by type and value, so no pair occurs twice; none is empty; each cites a
  finding of the analysis with that finding's subject and confidence; modules and functions
  come from hidden modules only, process names and endpoints from hidden processes only, and nothing
  is exported for a suspected, over-listed or drifted module.
\<close>

theorem iocs_of_analysis:
  assumes "analyze s b = Inr fs"
  shows "\<exists>iocs. extract_iocs fs = Inr iocs \<and> sorted_wrt (<) (map (\<lambda>i. (io_type i, io_value i)) iocs) \<and>
     (\<forall>i \<in> set iocs. io_value i \<noteq> [] \<and> (\<exists>f \<in> set fs. io_source i = fi_subject f \<and>
        io_confidence i = confidence_value (fi_confidence f) \<and>
        (fi_kind f = HIDDEN_MODULE \<and> io_type i \<in> {lit ''kernel_module'', lit ''hooked_function''} \<or>
         fi_kind f = HIDDEN_PROCESS \<and> io_type i \<in> {lit ''process_name'', lit ''network_endpoint''})))"
proof -
  from assms obtain sigs where all: "all_signals s b = Inr sigs" and fs: "fs = score sigs"
    by (rule analyzeE)
  have "\<exists>f \<in> set fs. io_source i = fi_subject f \<and>
        io_confidence i = confidence_value (fi_confidence f) \<and>
        (fi_kind f = HIDDEN_MODULE \<and> io_type i \<in> {lit ''kernel_module'', lit ''hooked_function''} \<or>
         fi_kind f = HIDDEN_PROCESS \<and> io_type i \<in> {lit ''process_name'', lit ''network_endpoint''})"
    if u: "su_name u \<noteq> None" "agreeing sigs u \<noteq> {}" "i \<in> offers u (members sigs u)" for i u
  proof -
    have "compose u (members sigs u) \<in> set fs" using u by (auto simp: fs finding_iff)
    moreover have "io_source i = fi_subject (compose u (members sigs u))"
      "io_confidence i = confidence_value (fi_confidence (compose u (members sigs u)))"
      using u(3) by (auto simp: offers_def Let_def simp del: compose_sel split: if_splits)
    ultimately show ?thesis using offers_kind [OF all u] by (auto simp del: compose_sel)
  qed
  note source = this
  from ioc_keys [OF all] obtain iocs where e: "extract_iocs fs = Inr iocs"
    and o: "sorted_wrt (<) (map ioc_key iocs)"
    and m: "\<forall>i \<in> set iocs. io_value i \<noteq> [] \<and> (\<exists>u. su_name u \<noteq> None \<and> agreeing sigs u \<noteq> {} \<and>
       i \<in> offers u (members sigs u))"
    unfolding fs by blast
  show ?thesis
  proof (intro exI conjI)
    show "extract_iocs fs = Inr iocs" by (rule e)
    show "sorted_wrt (<) (map ioc_key iocs)" by (rule o)
  qed (use m source in blast)
qed

theorem iocs_of_analysis_witness:
  "\<exists>fs iocs. analyze infected (Some clean) = Inr fs \<and> extract_iocs fs = Inr iocs \<and>
     sorted_wrt (<) (map (\<lambda>i. (io_type i, io_value i)) iocs)"
proof -
  obtain fs where fs: "analyze infected (Some clean) = Inr fs" using infected_analyzed by blast
  from fs iocs_of_analysis [OF fs] show ?thesis by blast
qed

text \<open>
  The kernel-module indicators are exactly the non-empty names of the modules that ftrace or a
  hook shows and the listing hides.
\<close>

theorem ioc_modules:
  assumes "analyze s b = Inr fs" and "extract_iocs fs = Inr iocs"
  shows "(\<exists>i \<in> set iocs. io_type i = lit ''kernel_module'' \<and> io_value i = n) \<longleftrightarrow>
     n \<noteq> [] \<and> (ftrace_hidden s n \<or> hook_hidden s n)"
proof -
  from assms obtain sigs where all: "all_signals s b = Inr sigs" and fs: "fs = score sigs"
    by (elim analyzeE)
  have "(\<exists>i u. su_name u \<noteq> None \<and> agreeing sigs u \<noteq> {} \<and> i \<in> offers u (members sigs u) \<and>
        io_type i = lit ''kernel_module'' \<and> io_value i = n) \<longleftrightarrow> ftrace_hidden s n \<or> hook_hidden s n"
    (is "?L \<longleftrightarrow> ?R")
  proof
    assume ?L
    then obtain i u where u: "su_name u \<noteq> None" "agreeing sigs u \<noteq> {}" "i \<in> offers u (members sigs u)"
      "io_type i = lit ''kernel_module''" "io_value i = n" by blast
    from offers_kind [OF all u(1-3)] u(4) obtain m where m: "u = module_suspect m"
      and k: "fi_kind (compose u (members sigs u)) = HIDDEN_MODULE" by auto
    from u(3-5) k have "n = m"
      by (auto simp: offers_def Let_def m module_subject simp del: compose_sel)
    with k show ?R
      by (auto simp: m module_finding_kind [OF all] module_verdict_def simp del: compose_sel split: if_splits)
  next
    assume R: ?R
    let ?u = "module_suspect n"
    have "fi_kind (compose ?u (members sigs ?u)) = HIDDEN_MODULE"
      using R by (simp add: module_finding_kind [OF all] module_verdict_def del: compose_sel)
    then have "mk_ioc (compose ?u (members sigs ?u)) ''kernel_module'' n \<in> offers ?u (members sigs ?u)"
      by (simp add: offers_def Let_def module_subject del: compose_sel)
    moreover have "agreeing sigs ?u \<noteq> {}" using R agreeing_nonempty(2) [OF all] by blast
    ultimately show ?L by (intro exI conjI) auto
  qed
  then show ?thesis using ioc_present [OF all] assms(2) unfolding fs by simp
qed

theorem ioc_modules_witness:
  "\<exists>fs iocs. analyze infected (Some clean) = Inr fs \<and> extract_iocs fs = Inr iocs \<and>
     (\<exists>i \<in> set iocs. io_type i = lit ''kernel_module'' \<and> io_value i = lit ''evil'') \<and>
     \<not> (\<exists>i \<in> set iocs. io_type i = lit ''kernel_module'' \<and> io_value i = lit ''ghost'')"
proof -
  obtain fs iocs where fs: "analyze infected (Some clean) = Inr fs" "extract_iocs fs = Inr iocs"
    using infected_iocs by blast
  have "ftrace_hidden infected (lit ''evil'')" "\<not> ftrace_hidden infected (lit ''ghost'')"
    "\<not> hook_hidden infected (lit ''ghost'')" by code_simp+
  then show ?thesis using fs ioc_modules [OF fs] by (auto simp: lit_eq_Nil_iff)
qed

text \<open>
  C9: The network-endpoint indicators are exactly the usable peer ends of the sockets that a process
  outside every listing holds: the remote end in a state that has a peer, the local end of a
  listener, both otherwise, and never an end without address or with port 0.
\<close>

theorem ioc_endpoints:
  assumes "analyze s b = Inr fs" and "extract_iocs fs = Inr iocs"
  shows "(\<exists>i \<in> set iocs. io_type i = lit ''network_endpoint'' \<and> io_value i = v) \<longleftrightarrow>
     \<not> placeholder_endpoint (Some v) \<and> (\<exists>e. hidden_socket s e \<and> Some v \<in> set (named_ends e))"
proof -
  from assms obtain sigs where all: "all_signals s b = Inr sigs" and fs: "fs = score sigs"
    by (elim analyzeE)
  obtain s4 where s4: "signals_sockets s = Inr s4"
    and ch: "\<forall>g \<in> set sigs. sg_channel g = lit ''socket_visible'' \<longleftrightarrow> g \<in> set s4" and sub: "set s4 \<subseteq> set sigs"
    using all_signals_parts [OF all] by (metis Un_subset_iff)
  have "(\<exists>i u. su_name u \<noteq> None \<and> agreeing sigs u \<noteq> {} \<and> i \<in> offers u (members sigs u) \<and>
        io_type i = lit ''network_endpoint'' \<and> io_value i = v) \<longleftrightarrow>
      \<not> placeholder_endpoint (Some v) \<and> (\<exists>e. hidden_socket s e \<and> Some v \<in> set (named_ends e))"
    (is "?L \<longleftrightarrow> ?R")
  proof
    assume ?L
    then obtain i u where u: "i \<in> offers u (members sigs u)" "io_type i = lit ''network_endpoint''"
      "io_value i = v" by blast
    then obtain g eps where g: "g \<in> set (members sigs u)" "sg_channel g = lit ''socket_visible''"
      "endpoints_of (JDict (sg_evidence g)) = Inr eps" "Some v \<in> set eps"
      and p: "\<not> placeholder_endpoint (Some v)"
      by (auto simp: offers_def Let_def simp del: compose_sel split: if_splits)
    from g(1,2) have "g \<in> set s4" using ch members_subset by blast
    with socket_signals_of(1) [OF s4] obtain e n where "hidden_socket s e" "g = socket_signal e n" by blast
    with g(3,4) p show ?R by auto
  next
    assume R: ?R
    then obtain e where e: "hidden_socket s e" "Some v \<in> set (named_ends e)" by blast
    then obtain n where g: "socket_signal e n \<in> set sigs" using socket_signals_of(2) [OF s4] sub by blast
    let ?u = "process_suspect n"
    have "sg_suspect (socket_signal e n) = ?u"
      by (simp add: socket_signal_def process_suspect_def mk_signal_def)
    then have m: "socket_signal e n \<in> set (members sigs ?u)" and "agreeing sigs ?u \<noteq> {}"
      using g fired_I [OF g] by (auto simp: members_def named_signals_def agreeing_def)
    moreover have "fi_kind (compose ?u (members sigs ?u)) = HIDDEN_PROCESS"
      by (simp add: compose_kind Let_def del: compose_sel)
    then have "mk_ioc (compose ?u (members sigs ?u)) ''network_endpoint'' v \<in> offers ?u (members sigs ?u)"
      using m e R by (auto simp: offers_def Let_def simp del: compose_sel
          intro!: exI [of _ "socket_signal e n"])
    ultimately show ?L by (intro exI conjI) auto
  qed
  moreover have "\<not> placeholder_endpoint (Some v) \<Longrightarrow> v \<noteq> []" by (auto simp: placeholder_endpoint_def)
  ultimately show ?thesis using ioc_present [OF all] assms(2) unfolding fs by auto
qed


theorem ioc_endpoints_witness:
  "\<exists>fs iocs. analyze infected (Some clean) = Inr fs \<and> extract_iocs fs = Inr iocs \<and>
     (\<exists>i \<in> set iocs. io_type i = lit ''network_endpoint'' \<and> io_value i = lit ''0.0.0.0:31337'')"
proof -
  obtain fs iocs where fs: "analyze infected (Some clean) = Inr fs" "extract_iocs fs = Inr iocs"
    using infected_iocs by blast
  let ?e = "\<lparr>so_inode = 77, so_kind = lit ''tcp'', so_state = Some (lit ''LISTEN''),
     so_local = Some (lit ''0.0.0.0:31337''), so_remote = Some (lit ''0.0.0.0:0''), so_uid = None,
     so_in_table = True, so_owner_pids = [666]\<rparr>"
  have "hidden_socket infected ?e" "Some (lit ''0.0.0.0:31337'') \<in> set (named_ends ?e)"
    "\<not> placeholder_endpoint (Some (lit ''0.0.0.0:31337''))" by code_simp+
  then show ?thesis using fs ioc_endpoints [OF fs] by blast
qed

end
