(* ===== verification/Notes.thy ===== *)
theory Notes
  imports Detector_Facts Sample
begin

text \<open>
  The channel notes of \<open>analysis/signals.py\<close> against the detectors: a channel that cannot
  corroborate says so, and never while it reports a suspect.
\<close>

section \<open>The taint channel\<close>

text \<open>The bits the channel reads, and those of them that some listed module accounts for.\<close>

definition raised_bits :: "int \<Rightarrow> (nat \<times> int) set" where
  "raised_bits t = {(b, letter) \<in> set taint_bit_letter. bit t b}"

lemma raised_bits_simp:
  "raised_bits t = (if bit t 12 then {(12, 79)} else {}) \<union> (if bit t 13 then {(13, 69)} else {})"
  by (auto simp: raised_bits_def taint_bit_letter_def)

lemma tr_unexplained_raised:
  "set (tr_unexplained (reconcile t listed)) =
     {int b | b letter. (b, letter) \<in> raised_bits t \<and> owners_of letter listed = []}"
  by (auto simp: reconcile_simps raised_bits_simp)

lemma tr_explained_raised:
  "set (tr_explained_by (reconcile t listed)) =
     {(int b, owners_of letter listed) | b letter.
        (b, letter) \<in> raised_bits t \<and> owners_of letter listed \<noteq> []}"
  by (auto simp: reconcile_simps raised_bits_simp)

lemma saturated_iff:
  "saturated (reconcile t listed) \<longleftrightarrow>
     raised_bits t \<noteq> {} \<and> (\<forall>(b, letter) \<in> raised_bits t. owners_of letter listed \<noteq> [])"
  by (auto simp: saturated_def reconcile_simps raised_bits_simp)

text \<open>
  C31: The reconciliation of the taint word: the unexplained bits are the watched bits that are
  set and whose marker no listed module carries; each other watched bit that is set is
  explained by exactly the listed modules with its marker, in sorted order; the channel is saturated
  when some watched bit is set and each of them is explained.
\<close>

theorem taint_reconciliation:
  "set (tr_unexplained (reconcile t listed)) =
     {int b | b letter. (b, letter) \<in> raised_bits t \<and>
        {n. \<exists>m. (n, m) \<in> set listed \<and> carries letter m} = {}} \<and>
   set (tr_explained_by (reconcile t listed)) =
     {(int b, sort owners) | b letter owners. (b, letter) \<in> raised_bits t \<and> owners \<noteq> [] \<and>
        owners = map fst (filter (\<lambda>(n, m). carries letter m) listed)} \<and>
   (saturated (reconcile t listed) \<longleftrightarrow>
     raised_bits t \<noteq> {} \<and> set (tr_unexplained (reconcile t listed)) = {})"
proof (intro conjI)
  show "set (tr_unexplained (reconcile t listed)) =
     {int b | b letter. (b, letter) \<in> raised_bits t \<and>
        {n. \<exists>m. (n, m) \<in> set listed \<and> carries letter m} = {}}"
    unfolding tr_unexplained_raised set_owners_of [symmetric] by simp
  show "set (tr_explained_by (reconcile t listed)) =
     {(int b, sort owners) | b letter owners. (b, letter) \<in> raised_bits t \<and> owners \<noteq> [] \<and>
        owners = map fst (filter (\<lambda>(n, m). carries letter m) listed)}"
    unfolding tr_explained_raised owners_of_def by auto
  show "saturated (reconcile t listed) \<longleftrightarrow>
     raised_bits t \<noteq> {} \<and> set (tr_unexplained (reconcile t listed)) = {}"
    unfolding saturated_iff tr_unexplained_raised by auto
qed

text \<open>
  C29: The taint channel of a snapshot that has a module listing is in one of three states: no
  watched bit is set and it stays silent, some bit is unexplained and it reports a
  hidden module, or every bit is explained and it leaves the note that it is saturated. It never
  reports and excuses itself at once.
\<close>

theorem taint_channel_states:
  assumes "observations s ''procfs.modules'' = listing # ls"
    and "observations s ''kernel.module_evidence'' = ev # evs"
    and "stat_get ev ''taint'' (JInt 0) = JInt t" and "listed_markers s = Inr markers"
  shows "\<exists>sigs notes. taint_signals (JInt t) markers = Inr sigs \<and> taint_notes s = Inr notes \<and>
     (if raised_bits t = {} then sigs = [] \<and> notes = []
      else if set (tr_unexplained (reconcile t markers)) \<noteq> {}
      then fired sigs = {(lit ''taint'', anon_suspect)} \<and> notes = []
      else sigs = [] \<and> map cn_reason notes = [lit ''saturated''])"
proof -
  have sat: "saturated (reconcile t markers) \<longleftrightarrow>
      raised_bits t \<noteq> {} \<and> set (tr_unexplained (reconcile t markers)) = {}"
    by (auto simp: saturated_iff tr_unexplained_raised)
  moreover have "raised_bits t = {} \<Longrightarrow> tr_unexplained (reconcile t markers) = []"
    by (auto simp: raised_bits_simp reconcile_simps split: if_splits)
  ultimately show ?thesis
    using assms by (auto simp: taint_signals_def taint_notes_def Let_def anon_suspect_def)
qed

theorem taint_channel_states_witness:
  "\<exists>sigs notes. taint_signals (JInt 4096) [(lit ''ext4'', None), (lit ''ghost'', None)] = Inr sigs \<and>
     taint_notes infected = Inr notes \<and> fired sigs = {(lit ''taint'', anon_suspect)} \<and> notes = []"
proof -
  have 1: "observations infected ''procfs.modules'' =
      hd (observations infected ''procfs.modules'') # tl (observations infected ''procfs.modules'')"
    and 2: "observations infected ''kernel.module_evidence'' =
      hd (observations infected ''kernel.module_evidence'') #
      tl (observations infected ''kernel.module_evidence'')"
    and 3: "stat_get (hd (observations infected ''kernel.module_evidence'')) ''taint'' (JInt 0) = JInt 4096"
    and 4: "listed_markers infected = Inr [(lit ''ext4'', None), (lit ''ghost'', None)]"
    and 5: "tr_unexplained (reconcile 4096 [(lit ''ext4'', None), (lit ''ghost'', None)]) = [12]"
    by code_simp+
  have "raised_bits 4096 \<noteq> {}" by (simp add: raised_bits_simp)
  with taint_channel_states [OF 1 2 3 4] 5 show ?thesis by simp
qed

section \<open>The over-listing channel\<close>

definition both_readable :: "snapshot \<Rightarrow> bool" where
  "both_readable s \<longleftrightarrow>
     (case (observations s ''kernel.module_evidence'', observations s ''kernel.hooks'') of
        (ev # _, hooks # _) \<Rightarrow>
          truthy (stat_get ev ''ftrace_available'' JNull) \<and>
          truthy (stat_get hooks ''kallsyms_available'' JNull)
      | _ \<Rightarrow> False)"

lemma corroboration_readable:
  "over_listed_corroboration s = Inr (Some p) \<Longrightarrow> both_readable s"
  by (auto simp: over_listed_corroboration_def both_readable_def Let_def
      split: list.splits if_splits)

lemma mapE_nonempty: "mapE f xs = Inr ys \<Longrightarrow> ys = [] \<longleftrightarrow> xs = []"
  by (cases xs) auto

lemma over_listed_notes_cases:
  assumes "over_listed_notes s = Inr notes"
  shows "if \<exists>listed corroborated. over_listed_corroboration s = Inr (Some (listed, corroborated)) \<and>
            listed \<noteq> [] \<and> set listed \<inter> IdStr ` set corroborated = {}
         then map cn_reason notes = [lit ''uncorroborated''] else notes = []"
proof -
  from assms obtain corrob where c: "over_listed_corroboration s = Inr corrob"
    by (auto simp: over_listed_notes_def)
  have "A - B = A \<longleftrightarrow> A \<inter> B = {}" for A B :: "eid set" by blast
  with assms c show ?thesis
    by (cases corrob) (auto simp: over_listed_notes_def set_uncorroborated_ids)
qed

text \<open>
  C30: The over-listing channel reports a module only when the ftrace and the kallsyms channel were
  both readable, and either names suspects or leaves the note that all of the listing is
  uncorroborated, never both; when both channels are readable and every listed module is
  corroborated it does neither. The note is left exactly when the listing is not empty and disjoint
  from what the two channels name; the suspects are the over-listed modules.
\<close>

theorem over_listed_or_note:
  assumes "signals_over_listed s = Inr sigs" and "over_listed_notes s = Inr notes"
  shows "(if both_readable s then \<not> (sigs \<noteq> [] \<and> notes \<noteq> []) else sigs = [] \<and> notes = []) \<and>
     (if \<exists>listed corroborated. over_listed_corroboration s = Inr (Some (listed, corroborated)) \<and>
            listed \<noteq> [] \<and> set listed \<inter> IdStr ` set corroborated = {}
      then map cn_reason notes = [lit ''uncorroborated''] else notes = []) \<and>
     fired sigs = {(lit ''over_listed'', module_suspect n) | n. over_listed s n}"
proof (intro conjI)
  from assms obtain corrob where c: "over_listed_corroboration s = Inr corrob"
    by (auto simp: signals_over_listed_def bindE_eq_Inr_iff)
  then show "if both_readable s then \<not> (sigs \<noteq> [] \<and> notes \<noteq> []) else sigs = [] \<and> notes = []"
    using assms corroboration_readable [of s]
    by (cases corrob) (auto simp: signals_over_listed_def over_listed_notes_def Let_def split: if_splits)
qed (use assms over_listed_notes_cases fired_over_listed in blast)+

theorem over_listed_or_note_witness:
  "\<exists>sigs. signals_over_listed infected = Inr sigs \<and> over_listed_notes infected = Inr [] \<and> sigs \<noteq> []"
proof -
  have "\<not> isl (signals_over_listed infected) \<and> projr (signals_over_listed infected) \<noteq> []"
    by code_simp
  then obtain sigs where sigs: "signals_over_listed infected = Inr sigs" "sigs \<noteq> []"
    by (cases "signals_over_listed infected") auto
  have "\<not> isl (over_listed_notes infected)" and r: "both_readable infected" by code_simp+
  then obtain ns where ns: "over_listed_notes infected = Inr ns"
    by (cases "over_listed_notes infected") auto
  from over_listed_or_note [OF sigs(1) ns] sigs(2) r have "ns = []" by simp
  with sigs ns show ?thesis by blast
qed

end
