(* ===== verification/Redact.thy ===== *)
theory Redact
  imports Verdicts
begin

text \<open>
  \<open>reporting/redact.py\<close>: the argument vectors of a snapshot are replaced by a placeholder. The
  rewriting acts on the JSON tree; what it means for the loaded snapshot, and that no conclusion of
  the analysis changes, is shown here.
\<close>

section \<open>On the JSON tree\<close>

definition redacted_argv :: "pystr list" where
  "redacted_argv = [lit ''[redacted]'']"

text \<open>\<open>isinstance(entity, dict) and "cmdline" in entity\<close>.\<close>

fun redact_entity :: "json \<Rightarrow> json" where
  "redact_entity (JDict d) =
     JDict (if lit ''cmdline'' \<in> fst ` set d
            then AList.update (lit ''cmdline'') (strs_json redacted_argv) d else d)"
| "redact_entity v = v"

fun redact_entities :: "json \<Rightarrow> json result" where
  "redact_entities (JDict es) = Inr (JDict (map (\<lambda>(k, e). (k, redact_entity e)) es))"
| "redact_entities _ = Inl AttributeError"

text \<open>\<open>obs.get("entities", {}).values()\<close>: the tree is changed in place under its key.\<close>

fun redact_observation :: "json \<Rightarrow> json result" where
  "redact_observation (JDict d) =
     (case map_of d (lit ''entities'') of
        None \<Rightarrow> Inr (JDict d)
      | Some es \<Rightarrow> bindE (redact_entities es) (\<lambda>es'.
          Inr (JDict (AList.update (lit ''entities'') es' d))))"
| "redact_observation _ = Inl AttributeError"

fun redact_snapshot :: "json \<Rightarrow> json result" where
  "redact_snapshot (JDict d) =
     (case map_of d (lit ''observations'') of
        None \<Rightarrow> Inr (JDict d)
      | Some (JList os) \<Rightarrow> bindE (mapE redact_observation os) (\<lambda>os'.
          Inr (JDict (AList.update (lit ''observations'') (JList os') d)))
      | Some v \<Rightarrow> bindE (py_list v) (\<lambda>os. bindE (mapE redact_observation os) (\<lambda>_. Inr (JDict d))))"
| "redact_snapshot _ = Inl AttributeError"

section \<open>On the loaded snapshot\<close>

fun redact_process :: "entity \<Rightarrow> entity" where
  "redact_process (EProcess p) = EProcess (p\<lparr>pe_cmdline := redacted_argv\<rparr>)"
| "redact_process e = e"

definition redact_loaded :: "observation \<Rightarrow> observation" where
  "redact_loaded o' = o'\<lparr>ob_entities := map (\<lambda>(k, e). (k, redact_process e)) (ob_entities o')\<rparr>"

definition redacted :: "snapshot \<Rightarrow> snapshot" where
  "redacted s = s\<lparr>sn_observations := map redact_loaded (sn_observations s)\<rparr>"

lemma map_of_update [simp]: "map_of (AList.update k v d) k' = (if k = k' then Some v else map_of d k')"
  by (simp add: update_conv')

lemma fld_update [simp]:
  "k' \<noteq> lit k \<Longrightarrow> fld (JDict (AList.update k' v d)) k conv = fld (JDict d) k conv"
  "k' \<noteq> lit k \<Longrightarrow> get_item (JDict (AList.update k' v d)) (lit k) = get_item (JDict d) (lit k)"
  by (simp_all add: fld_def)

lemma item_redact [simp]:
  "lit k \<noteq> lit ''cmdline'' \<Longrightarrow> fld (redact_entity e) k conv = fld e k conv"
  by (cases e) (simp_all add: fld_def split: if_splits)

lemma get_item_redact [simp]:
  "lit k \<noteq> lit ''cmdline'' \<Longrightarrow> get_item (redact_entity e) (lit k) = get_item e (lit k)"
  by (cases e) (simp_all split: if_splits)

lemma fld_cmdline:
  "fld e ''cmdline'' conv = Inr x \<Longrightarrow>
   fld (redact_entity e) ''cmdline'' conv = conv (strs_json redacted_argv)"
  by (cases e) (auto simp: fld_def split: option.splits dest: map_of_SomeD intro: rev_image_eqI)

lemma entity_redact:
  assumes "entity_from_dict c e = Inr x"
  shows "entity_from_dict c (redact_entity e) = Inr (redact_process x)"
proof (cases c)
  case CProcess
  then obtain p where p: "process_from_dict e = Inr p" and x: "x = EProcess p"
    using assms by auto
  then obtain cmdline where "fld e ''cmdline'' (list_of as_str) = Inr cmdline"
    by (auto simp: process_from_dict_def)
  from fld_cmdline [OF this] have "fld (redact_entity e) ''cmdline'' (list_of as_str) = Inr redacted_argv"
    by simp
  with p have "process_from_dict (redact_entity e) = Inr (p\<lparr>pe_cmdline := redacted_argv\<rparr>)"
    by (auto simp: process_from_dict_def)
  then show ?thesis by (simp add: CProcess x)
qed (use assms in \<open>auto simp: sweep_from_dict_def module_from_dict_def hook_from_dict_def
    socket_from_dict_def\<close>)

abbreviation map_values :: "('v \<Rightarrow> 'w) \<Rightarrow> ('k \<times> 'v) list \<Rightarrow> ('k \<times> 'w) list" where
  "map_values g d \<equiv> map (\<lambda>(k, v). (k, g v)) d"

lemma update_map_values: "AList.update k (g v) (map_values g d) = map_values g (AList.update k v d)"
  by (induction d) auto

lemma dict_of_map_values:
  "dict_of fst snd (map_values g es) = map_values g (dict_of fst snd es)"
  by (induction es rule: rev_induct) (auto simp: dict_of_def update_map_values)

lemma entities_redact:
  assumes "entities_from_dict collector (JDict es) = Inr out"
  shows "entities_from_dict collector (JDict (map_values redact_entity es)) =
     Inr (map_values redact_process out)"
proof (cases "entity_types collector")
  case None
  with assms show ?thesis by (simp add: entities_from_dict_def)
next
  case (Some c)
  let ?f = "\<lambda>(k, e). bindE (cast_id collector k) (\<lambda>i. bindE (entity_from_dict c e) (\<lambda>x. Inr (i, x)))"
  from assms Some obtain kes where kes: "mapE ?f es = Inr kes" and out: "out = dict_of fst snd kes"
    by (auto simp: entities_from_dict_def)
  have "mapE ?f (map_values redact_entity es) = Inr (map_values redact_process kes)"
    using kes by (induction es arbitrary: kes) (auto simp: entity_redact)
  with Some show ?thesis by (simp add: entities_from_dict_def out dict_of_map_values)
qed

lemma observation_redact:
  assumes "observation_from_dict d = Inr o'" and "redact_observation d = Inr d'"
  shows "observation_from_dict d' = Inr (redact_loaded o')"
proof -
  obtain kvs where d: "d = JDict kvs" using assms(2) by (cases d) auto
  show ?thesis
  proof (cases "map_of kvs (lit ''entities'')")
    case None
    then have "fld d ''entities'' (entities_from_dict c) = Inl KeyError" for c
      by (simp add: d fld_def)
    with assms None show ?thesis
      by (auto simp: d observation_from_dict_def redact_loaded_def split: if_splits)
  next
    case (Some es)
    with assms(2) obtain items where es: "es = JDict items"
      and d': "d' = JDict (AList.update (lit ''entities'') (JDict (map_values redact_entity items)) kvs)"
      by (cases es) (auto simp: d)
    have ents: "fld d' ''entities'' (entities_from_dict c) = Inr (map_values redact_process out)"
      if "fld d ''entities'' (entities_from_dict c) = Inr out" for c out
      using that entities_redact [of c items out] by (simp add: d d' fld_def Some es)
    from assms(1) obtain collector out where
      c: "fld d ''collector'' as_str = Inr collector"
      and out: "(if entity_types collector = None then Inr []
         else fld d ''entities'' (entities_from_dict collector)) = Inr out"
      and o': "ob_entities o' = out"
      by (auto simp: observation_from_dict_def)
    then have "(if entity_types collector = None then Inr []
         else fld d' ''entities'' (entities_from_dict collector)) = Inr (map_values redact_process out)"
      using ents [of collector out] by (auto split: if_splits)
    with assms(1) c out show ?thesis
      by (auto simp: observation_from_dict_def d d' redact_loaded_def simp del: get_item.simps)
  qed
qed

lemma mapE_redact:
  "mapE observation_from_dict os = Inr xs \<Longrightarrow> mapE redact_observation os = Inr os' \<Longrightarrow>
   mapE observation_from_dict os' = Inr (map redact_loaded xs)"
  by (induction os arbitrary: xs os') (auto simp: observation_redact)

lemma check_schema_update:
  assumes "lit ''observations'' \<in> fst ` set d" and "check_schema_version (JDict d) = Inr w"
  shows "check_schema_version (JDict (AList.update (lit ''observations'') v d)) = Inr w"
proof -
  have "map fst (AList.update (lit ''observations'') v d) = map fst d"
    using assms(1) by (simp add: update_keys)
  then show ?thesis
    using assms(2) by (auto simp: check_schema_version_def Let_def simp del: get_item.simps
        split: if_splits sum.splits)
qed

lemma snapshot_redact:
  assumes "snapshot_from_dict d = Inr s" and "redact_snapshot d = Inr d'"
  shows "snapshot_from_dict d' = Inr (redacted s)"
proof -
  obtain kvs where d: "d = JDict kvs" using assms(2) by (cases d) auto
  obtain v w where v: "map_of kvs (lit ''observations'') = Some v"
    and w: "check_schema_version d = Inr w"
    using assms(1) by (auto simp: d snapshot_from_dict_def fld_def split: option.splits)
  obtain xs where xs: "list_of observation_from_dict v = Inr xs"
    and obs_s: "sn_observations s = xs"
    using assms(1) v by (auto simp: d snapshot_from_dict_def fld_def)
  show ?thesis
  proof (cases "\<exists>os. v = JList os")
    case True
    then obtain os os' where os: "v = JList os" and "mapE redact_observation os = Inr os'"
      and d': "d' = JDict (AList.update (lit ''observations'') (JList os') kvs)"
      using assms(2) v by (auto simp: d)
    then have "mapE observation_from_dict os' = Inr (map redact_loaded xs)"
      using xs mapE_redact by (simp add: list_of_def)
    then have "fld d' ''observations'' (list_of observation_from_dict) = Inr (map redact_loaded xs)"
      by (simp add: d' fld_def list_of_def)
    moreover have "check_schema_version d' = Inr w"
      using w v check_schema_update [of kvs w] unfolding d d'
      by (metis map_of_eq_None_iff option.distinct(1))
    ultimately show ?thesis
      using assms(1) obs_s unfolding snapshot_from_dict_def
      by (auto simp: d d' redacted_def simp del: item.simps)
  next
    case False
    then obtain os os' where os: "py_list v = Inr os" "mapE redact_observation os = Inr os'"
      and d': "d' = d"
      using assms(2) v by (cases v) (auto simp: d)
    have "os = []"
      using False os by (cases v; cases os) auto
    then have "xs = []" using xs os by (simp add: list_of_def)
    with assms(1) obs_s show ?thesis by (simp add: d' redacted_def)
  qed
qed

section \<open>No conclusion changes\<close>

lemma redact_loaded_simps [simp]:
  "ob_collector (redact_loaded o') = ob_collector o'"
  "ob_entity_ids (redact_loaded o') = ob_entity_ids o'"
  "ob_pass (redact_loaded o') = ob_pass o'"
  "ob_entities (redact_loaded o') = map_values redact_process (ob_entities o')"
  "stat_get (redact_loaded o') k v = stat_get o' k v"
  "extra_get (redact_loaded o') k = extra_get o' k"
  "pass_or_unknown (redact_loaded o') = pass_or_unknown o'"
  by (simp_all add: redact_loaded_def stat_get_def extra_get_def pass_or_unknown_def)

lemma observations_redacted [simp]:
  "observations (redacted s) c = map redact_loaded (observations s c)"
  by (simp add: observations_def redacted_def filter_map comp_def)

lemma as_redacted [simp]:
  "as_module (redact_process e) = as_module e" "as_hook (redact_process e) = as_hook e"
  "as_sweep (redact_process e) = as_sweep e" "as_socket (redact_process e) = as_socket e"
  by (cases e; simp)+

lemma entity_at_redacted:
  "entity_at (redact_loaded o') k = bindE (entity_at o' k) (\<lambda>e. Inr (redact_process e))"
  by (simp add: entity_at_def map_of_map split: option.split)

lemma bindE_assoc: "bindE (bindE r f) g = bindE r (\<lambda>x. bindE (f x) g)"
  by (cases r) auto

lemma module_ids_redacted [simp]: "module_ids (redacted s) = module_ids s"
  by (simp add: module_ids_def split: list.split)

lemma listed_markers_redacted [simp]: "listed_markers (redacted s) = listed_markers s"
  by (simp add: listed_markers_def case_prod_unfold split: list.split)

lemma signals_modules_redacted [simp]: "signals_modules (redacted s) = signals_modules s"
  by (simp add: signals_modules_def split: list.split)

lemma signals_hooks_redacted [simp]: "signals_hooks (redacted s) = signals_hooks s"
  by (simp add: signals_hooks_def entity_at_redacted bindE_assoc split: list.split)

lemma procfs_listed_redacted [simp]: "procfs_listed (redacted s) = procfs_listed s"
  by (simp add: procfs_listed_def comp_def)

lemma process_signals_redacted [simp]:
  "process_signals (map redact_loaded procfs) ent = process_signals procfs ent"
  by (simp add: process_signals_def process_evidence_def filter_map comp_def)

lemma sweep_loop_redacted [simp]:
  "sweep_loop (map redact_loaded procfs) listed (redact_loaded sweep) ids reported =
   sweep_loop procfs listed sweep ids reported"
  by (induction procfs listed sweep ids reported rule: sweep_loop.induct)
    (auto simp: entity_at_redacted bindE_assoc intro!: bindE_cong)

lemma signals_processes_redacted [simp]: "signals_processes (redacted s) = signals_processes s"
proof -
  have "sweep_loop (redact_loaded p # map redact_loaded ps) listed (redact_loaded sweep) ids [] =
      sweep_loop (p # ps) listed sweep ids []" for p ps listed sweep ids
    using sweep_loop_redacted [of "p # ps"] by simp
  then show ?thesis by (simp add: signals_processes_def split: list.split)
qed

lemma tid_to_tgid_redacted [simp]: "tid_to_tgid (redacted s) = tid_to_tgid s"
  by (simp add: tid_to_tgid_def entity_at_redacted bindE_assoc split: list.split)

lemma signals_sockets_redacted [simp]: "signals_sockets (redacted s) = signals_sockets s"
  by (simp add: signals_sockets_def entity_at_redacted bindE_assoc split: list.split cong: if_cong)

lemma corroboration_redacted [simp]:
  "over_listed_corroboration (redacted s) = over_listed_corroboration s"
  by (simp add: over_listed_corroboration_def Let_def split: list.split cong: if_cong)

lemma all_signals_redacted [simp]: "all_signals (redacted s) b = all_signals s b"
  by (simp add: all_signals_def signals_over_listed_def signals_baseline_def cong: option.case_cong)

lemma channel_notes_redacted [simp]: "channel_notes (redacted s) = channel_notes s"
  by (simp add: channel_notes_def taint_notes_def over_listed_notes_def split: list.split)

text \<open>No process of the snapshot keeps its arguments.\<close>

definition argv_hidden :: "snapshot \<Rightarrow> bool" where
  "argv_hidden s \<longleftrightarrow> list_all (\<lambda>o'. list_all (\<lambda>(_, e).
     case e of EProcess p \<Rightarrow> pe_cmdline p = redacted_argv | _ \<Rightarrow> True) (ob_entities o')) (sn_observations s)"

lemma argv_hidden_redacted: "argv_hidden (redacted s)"
proof -
  have "case redact_process e of EProcess p \<Rightarrow> pe_cmdline p = redacted_argv | _ \<Rightarrow> True" for e
    by (cases e) simp_all
  then show ?thesis
    by (simp add: argv_hidden_def redacted_def redact_loaded_def list_all_iff case_prod_beta)
qed

section \<open>The property\<close>

text \<open>
  C10: Redacting a stored snapshot that the program can load gives a file that it can load
  again; the reloaded snapshot has no command line of any process left, all of its other
  fields are those of the original, and the analysis of it, against any baseline, gives the same
  findings and the same channel notes.
\<close>

theorem redaction_keeps_conclusions:
  assumes "snapshot_from_dict d = Inr s" and "redact_snapshot d = Inr d'"
  shows "\<exists>s'. snapshot_from_dict d' = Inr s' \<and> argv_hidden s' \<and>
    analyze s' b = analyze s b \<and> channel_notes s' = channel_notes s \<and>
    map ob_entity_ids (sn_observations s') = map ob_entity_ids (sn_observations s) \<and>
    s' = s\<lparr>sn_observations := sn_observations s'\<rparr>"
proof (intro exI conjI)
  show "snapshot_from_dict d' = Inr (redacted s)" by (rule snapshot_redact [OF assms])
  show "argv_hidden (redacted s)" by (rule argv_hidden_redacted)
  show "analyze (redacted s) b = analyze s b" by (simp add: analyze_def)
  show "channel_notes (redacted s) = channel_notes s" by simp
qed (simp_all add: redacted_def)

theorem redaction_keeps_conclusions_witness:
  "\<exists>d d' s'. snapshot_to_dict clean = Inr d \<and> redact_snapshot d = Inr d' \<and>
     snapshot_from_dict d' = Inr s' \<and> argv_hidden s' \<and> \<not> argv_hidden clean \<and>
     analyze s' None = analyze clean None"
proof -
  have "snapshot_norm clean = clean"
    by (simp add: snapshot_norm_def clean_def snapshot_of_def obs_def observation_norm_def
        entities_norm_def sample_process_def)
  then obtain d where d: "snapshot_to_dict clean = Inr d" "snapshot_from_dict d = Inr clean"
    using snapshot_roundtrip [of clean] clean_ok by auto
  moreover obtain d' where "redact_snapshot d = Inr d'"
    using d(1) by (auto simp: snapshot_to_dict_def clean_def snapshot_of_def obs_def
        observation_to_dict_def sort_ids_def jobj_def entities_json_def)
  moreover have "\<not> argv_hidden clean" by code_simp
  ultimately show ?thesis
    using redaction_keeps_conclusions [of d clean d' None] by blast
qed

end
