(* ===== verification/Escape.thy ===== *)
theory Escape
  imports Py_Num
begin

text \<open>
  \<open>reporting/escape.py\<close>: untrusted strings made safe to show. No invisible character survives, no
  two strings look the same, and no value closes the code span or the fence it is put into.
\<close>

section \<open>Visible text\<close>

text \<open>Backslash is 92; n, r, t, x, u and U are 110, 114, 116, 120, 117 and 85.\<close>

definition printable_char :: "int \<Rightarrow> pystr" where
  "printable_char c =
     (if c = 10 then [92, 110]
      else if c = 13 then [92, 114]
      else if c = 9 then [92, 116]
      else if c = 92 then [92, 92]
      else if is_invisible c then
        (if c < 256 then [92, 120] @ hex_width 2 c
         else if c < 65536 then [92, 117] @ hex_width 4 c
         else [92, 85] @ hex_width 8 c)
      else [c])"

definition printable :: "pystr \<Rightarrow> pystr" where
  "printable s = concat (map printable_char s)"

definition backtick_step :: "int \<Rightarrow> nat \<times> nat \<Rightarrow> nat \<times> nat" where
  "backtick_step c st =
     (let (longest, run) = st; run' = (if c = 96 then run + 1 else 0) in (max longest run', run'))"

definition longest_backtick_run :: "pystr \<Rightarrow> nat" where
  "longest_backtick_run s = fst (fold backtick_step s (0, 0))"

definition md_code :: "pystr \<Rightarrow> pystr" where
  "md_code s' =
     (let s = printable s' in
      if s = [] then lit ''(empty)''
      else let fence = replicate (longest_backtick_run s + 1) 96;
               body = (if hd s \<in> {96, 32} \<or> last s \<in> {96, 32} then 32 # s @ [32] else s)
        in fence @ body @ fence)"

definition md_block :: "pystr list \<Rightarrow> pystr list" where
  "md_block lines =
     (let body = map printable lines;
          longest = fold max (map longest_backtick_run body) 0;
          fence = replicate (max 3 (longest + 1)) 96
      in [fence @ lit ''text''] @ body @ [fence])"

section \<open>Nothing invisible, nothing ambiguous\<close>

lemma ascii_visible: "32 \<le> c \<Longrightarrow> c \<le> 126 \<Longrightarrow> \<not> is_invisible c"
  by (simp add: is_invisible_def invisible_ranges_def)

lemma hex_width_range: "c \<in> set (hex_width w n) \<Longrightarrow> 48 \<le> c \<and> c \<le> 102"
proof (induction w arbitrary: n)
  case (Suc w)
  have "0 \<le> n mod 16" "n mod 16 < 16" by simp_all
  then have "48 \<le> hex_char (n mod 16) \<and> hex_char (n mod 16) \<le> 102"
    by (auto simp: hex_char_def)
  with Suc show ?case by auto
qed simp

lemma printable_char_visible: "c \<in> set (printable_char d) \<Longrightarrow> \<not> is_invisible c"
proof -
  assume c: "c \<in> set (printable_char d)"
  show ?thesis
  proof (cases "c = d \<and> \<not> is_invisible d")
    case False
    with c have "32 \<le> c \<and> c \<le> 126"
      by (auto simp: printable_char_def split: if_splits dest!: hex_width_range)
    then show ?thesis by (simp add: ascii_visible)
  qed simp
qed

text \<open>
  What is shown to a person holds no control, format, surrogate or separator character, so no
  value can move the cursor, reorder text or start a new line.
\<close>

theorem printable_visible: "list_all (\<lambda>c. \<not> is_invisible c) (printable s)"
  by (auto simp: printable_def list_all_iff dest: printable_char_visible)

text \<open>The escapes are a prefix code: the first characters of a shown string determine its first one.\<close>

lemma hex_width_cancel:
  "length h = length h' \<Longrightarrow> h @ u = h' @ v \<Longrightarrow> h = h' \<and> u = v"
  by simp

lemma printable_char_head:
  assumes "is_code_point c" and "is_code_point d" and eq: "printable_char c @ u = printable_char d @ v"
  shows "c = d \<and> u = v"
proof -
  have range: "0 \<le> c" "0 \<le> d" "c < 16 ^ 8" "d < 16 ^ 8"
    using assms(1,2) by (auto simp: is_code_point_def)
  have hex: "c = d \<and> u = v" if "hex_width w c @ u = hex_width w d @ v" "c < 16 ^ w" "d < 16 ^ w" for w
    using hex_width_cancel [OF _ that(1)] hex_width_inj [of c w d] range that by auto
  have esc: "\<not> is_invisible e \<Longrightarrow> e \<noteq> 92 \<Longrightarrow> e \<noteq> 10 \<Longrightarrow> e \<noteq> 13 \<Longrightarrow> e \<noteq> 9 \<Longrightarrow>
      printable_char e = [e]" for e by (simp add: printable_char_def)
  have inv: "is_invisible 10" "is_invisible 13" "is_invisible 9"
    by (simp_all add: is_invisible_def invisible_ranges_def)
  define K where "K e = (if e = 10 then 110 else if e = 13 then 114 else if e = 9 then 116
    else if e = 92 then 92 else if e < 256 then 120 else if e < 65536 then 117 else (85::int))" for e :: int
  define H where "H e = (if e \<in> {10, 13, 9, 92} then [] else if e < 256 then hex_width 2 e
    else if e < 65536 then hex_width 4 e else hex_width 8 e)" for e :: int
  have form: "printable_char e = (if is_invisible e \<or> e = 92 then 92 # K e # H e else [e])" for e
    using inv by (auto simp: printable_char_def K_def H_def)
  consider (plain) "\<not> (is_invisible c \<or> c = 92)" | (both) "is_invisible c \<or> c = 92" "is_invisible d \<or> d = 92"
    | (mixed) "is_invisible c \<or> c = 92" "\<not> (is_invisible d \<or> d = 92)" by blast
  then show ?thesis
  proof cases
    case plain
    with eq show ?thesis by (auto simp: form split: if_splits)
  next
    case mixed
    with eq show ?thesis by (auto simp: form split: if_splits)
  next
    case both
    with eq have k: "K c = K d" and h: "H c @ u = H d @ v" by (simp_all add: form)
    show ?thesis
    proof (cases "c \<in> {10, 13, 9, 92}")
      case True
      with k have "d = c" by (auto simp: K_def split: if_splits)
      with h show ?thesis by simp
    next
      case False
      with k have d: "d \<notin> {10, 13, 9, 92}" by (auto simp: K_def split: if_splits)
      from k False d have "c < 256 \<longleftrightarrow> d < 256" "c < 65536 \<longleftrightarrow> d < 65536"
        by (auto simp: K_def split: if_splits)
      note size = this
      consider "c < 256" | "256 \<le> c" "c < 65536" | "65536 \<le> c" by linarith
      then show ?thesis
      proof cases
        case 1
        with h False d size have "hex_width 2 c @ u = hex_width 2 d @ v" by (simp add: H_def)
        with 1 size show ?thesis by (intro hex [of 2]) simp_all
      next
        case 2
        with h False d size have "hex_width 4 c @ u = hex_width 4 d @ v" by (simp add: H_def)
        with 2 size show ?thesis by (intro hex [of 4]) simp_all
      next
        case 3
        with h False d size have "hex_width 8 c @ u = hex_width 8 d @ v" by (simp add: H_def)
        with range show ?thesis by (intro hex [of 8]) simp_all
      qed
    qed
  qed
qed

lemma printable_eqD:
  assumes "list_all is_code_point s" and "list_all is_code_point t" and "printable s = printable t"
  shows "s = t"
  using assms
proof (induction s arbitrary: t)
  case Nil
  then show ?case
    by (cases t) (auto simp: printable_def printable_char_def split: if_splits)
next
  case (Cons c s)
  show ?case
  proof (cases t)
    case Nil
    with Cons.prems show ?thesis
      by (auto simp: printable_def printable_char_def split: if_splits)
  next
    case (Cons d t')
    with Cons.prems have "printable_char c @ printable s = printable_char d @ printable t'"
      by (simp add: printable_def)
    then have "c = d \<and> printable s = printable t'"
      using Cons.prems Cons by (intro printable_char_head) simp_all
    with Cons.IH [of t'] Cons.prems Cons show ?thesis by simp
  qed
qed

text \<open>
  C38: Two different strings are never shown alike, so what is printed, escapes included, determines
  the original string.
\<close>

theorem printable_inj:
  assumes "list_all is_code_point s" and "list_all is_code_point t" and "s \<noteq> t"
  shows "printable s \<noteq> printable t"
  using assms printable_eqD by blast

theorem printable_inj_witness:
  "printable [27] \<noteq> printable (lit [CHR 0x5C, CHR ''x'', CHR ''1'', CHR ''b''])"
  by (rule printable_inj) (simp_all add: is_code_point_def lit_def)

section \<open>Backtick runs\<close>

lemma suffix_replicate_iff:
  "suffix (replicate n x) s \<longleftrightarrow> n \<le> length (takeWhile (\<lambda>c. c = x) (rev s))"
proof (induction s arbitrary: n rule: rev_induct)
  case (snoc c s)
  then show ?case
  proof (cases n)
    case (Suc m)
    have "replicate (Suc m) x = replicate m x @ [x]" by (simp add: replicate_append_same)
    then show ?thesis using snoc [of m] by (auto simp: Suc)
  qed simp
qed (cases n; simp)

lemma backtick_fold:
  "snd (fold backtick_step s (0, 0)) = length (takeWhile (\<lambda>c. c = 96) (rev s)) \<and>
   (sublist (replicate n 96) s \<longleftrightarrow> n \<le> fst (fold backtick_step s (0, 0)))"
proof (induction s arbitrary: n rule: rev_induct)
  case Nil
  show ?case by (cases n) simp_all
next
  case (snoc c s)
  let ?st = "fold backtick_step s (0, 0)"
  have run: "snd ?st = length (takeWhile (\<lambda>c. c = 96) (rev s))" using snoc by blast
  have sub: "sublist (replicate n 96) s \<longleftrightarrow> n \<le> fst ?st" for n using snoc by blast
  have step: "fold backtick_step (s @ [c]) (0, 0) =
      (max (fst ?st) (if c = 96 then snd ?st + 1 else 0), if c = 96 then snd ?st + 1 else 0)"
    by (simp add: backtick_step_def Let_def split: prod.split)
  show ?case
    unfolding step sublist_snoc suffix_replicate_iff sub using run by auto
qed

lemma backtick_run_iff: "sublist (replicate n 96) s \<longleftrightarrow> n \<le> longest_backtick_run s"
  using backtick_fold [of s n] by (simp add: longest_backtick_run_def)

text \<open>
  C39: A value shown in a code span cannot end it: the fence is a run of backticks that does not
  occur in the body, the body neither starts nor ends with a backtick, and the body is the visible
  form of the value, with one space on both sides when it would otherwise touch the fence.
\<close>

theorem md_code_fenced:
  assumes "s \<noteq> []"
  shows "\<exists>n body. md_code s = replicate (Suc n) 96 @ body @ replicate (Suc n) 96 \<and>
     \<not> sublist (replicate (Suc n) 96) body \<and> hd body \<noteq> 96 \<and> last body \<noteq> 96 \<and>
     (body = printable s \<or> body = 32 # printable s @ [32])"
proof -
  let ?p = "printable s" and ?n = "longest_backtick_run (printable s)"
  define body where "body = (if hd ?p \<in> {96, 32} \<or> last ?p \<in> {96, 32} then 32 # ?p @ [32] else ?p)"
  have p: "?p \<noteq> []"
    using assms by (cases s) (auto simp: printable_def printable_char_def)
  have md: "md_code s = replicate (Suc ?n) 96 @ body @ replicate (Suc ?n) 96"
    using p by (simp add: md_code_def Let_def body_def)
  have "\<not> sublist (replicate (Suc ?n) 96) ?p" by (simp add: backtick_run_iff del: replicate_Suc)
  moreover have "\<not> sublist (replicate (Suc ?n) 96) (32 # ?p @ [32])"
  proof -
    have "\<not> prefix (replicate (Suc ?n) 96) (32 # ?p @ [32])" by simp
    moreover have "\<not> suffix (replicate (Suc ?n) 96) (?p @ [32])"
      unfolding suffix_replicate_iff by simp
    ultimately show ?thesis
      using \<open>\<not> sublist (replicate (Suc ?n) 96) ?p\<close>
      by (simp only: sublist_Cons_right sublist_snoc simp_thms)
  qed
  ultimately have "\<not> sublist (replicate (Suc ?n) 96) body" by (simp add: body_def del: replicate_Suc)
  with md p show ?thesis
    by (intro exI [of _ ?n] exI [of _ body]) (auto simp: body_def)
qed

theorem md_code_fenced_witness:
  "\<exists>n body. md_code (lit ''a`b'') = replicate (Suc n) 96 @ body @ replicate (Suc n) 96 \<and>
     \<not> sublist (replicate (Suc n) 96) body"
proof -
  have "lit ''a`b'' \<noteq> []" by simp
  from md_code_fenced [OF this] show ?thesis by blast
qed

lemma fold_max_ge: "x \<in> set xs \<Longrightarrow> x \<le> fold max xs (a::nat)"
proof (induction xs arbitrary: a)
  case (Cons y xs)
  have "b \<le> fold max ys b" for ys and b :: nat
    by (induction ys arbitrary: b) (auto intro: order_trans [OF max.cobounded2])
  then have "y \<le> fold max xs (max y a)" by (metis max.bounded_iff)
  with Cons show ?case by auto
qed simp

text \<open>
  C40: No line inside a fenced block can close it: the block is an opening fence, the visible form of
  each line, and a closing fence of at least three backticks that is longer than every run of
  backticks in any line.
\<close>

theorem md_block_fenced:
  "\<exists>n. n \<ge> 3 \<and> md_block ls = (replicate n 96 @ lit ''text'') # map printable ls @ [replicate n 96] \<and>
     list_all (\<lambda>l. \<not> sublist (replicate n 96) (printable l)) ls"
proof -
  let ?L = "fold max (map longest_backtick_run (map printable ls)) 0"
  have "longest_backtick_run (printable l) \<le> ?L" if "l \<in> set ls" for l
    using that by (intro fold_max_ge) auto
  then have "\<not> sublist (replicate (max 3 (?L + 1)) 96) (printable l)" if "l \<in> set ls" for l
    unfolding backtick_run_iff using that by (fastforce simp: not_le less_max_iff_disj)
  then show ?thesis
    by (intro exI [of _ "max 3 (?L + 1)"]) (simp add: md_block_def Let_def list_all_iff)
qed

end
