(* ===== verification/Json_Text.thy ===== *)
theory Json_Text
  imports Py_Json
begin

text \<open>
  \<open>json.dumps(..., sort_keys=True)\<close> in the two layouts the program writes (compact separators,
  indent 2) and \<open>json.loads\<close>: documents as text. The lemmas give the round trip: what was dumped
  loads again as the same value with the keys of every object in order.
\<close>

section \<open>Writing\<close>

definition u_escape :: "int \<Rightarrow> pystr" where
  "u_escape n = 92 # 117 # hex_width 4 n"

text \<open>\<open>ensure_ascii\<close>: everything but printable ASCII is escaped, above the BMP as a pair.\<close>

definition escape_char :: "int \<Rightarrow> pystr" where
  "escape_char c =
     (if c = 34 \<or> c = 92 then [92, c]
      else if c = 10 then [92, 110] else if c = 13 then [92, 114] else if c = 9 then [92, 116]
      else if c = 12 then [92, 102] else if c = 8 then [92, 98]
      else if 32 \<le> c \<and> c \<le> 126 then [c]
      else if c < 65536 then u_escape c
      else u_escape (55296 + (c - 65536) div 1024) @ u_escape (56320 + (c - 65536) mod 1024))"

definition string_text :: "pystr \<Rightarrow> pystr" where
  "string_text s = 34 # concat (map escape_char s) @ [34]"

text \<open>The layout: \<open>None\<close> is compact, \<open>Some n\<close> the indentation of the current line.\<close>

type_synonym layout = "nat option"

definition line_break :: "layout \<Rightarrow> pystr" where
  "line_break l = (case l of None \<Rightarrow> [] | Some n \<Rightarrow> 10 # replicate n 32)"

definition deeper :: "layout \<Rightarrow> layout" where
  "deeper l = map_option (\<lambda>n. n + 2) l"

definition key_sep :: "layout \<Rightarrow> pystr" where
  "key_sep l = (case l of None \<Rightarrow> lit '':'' | Some _ \<Rightarrow> lit '': '')"

definition bracketed :: "layout \<Rightarrow> int \<Rightarrow> int \<Rightarrow> pystr list \<Rightarrow> pystr" where
  "bracketed l opn cls items =
     (if items = [] then [opn, cls]
      else opn # line_break (deeper l) @ join (44 # line_break (deeper l)) items @
           line_break l @ [cls])"

fun json_text :: "layout \<Rightarrow> json \<Rightarrow> pystr" where
  "json_text l JNull = lit ''null''"
| "json_text l (JBool b) = (if b then lit ''true'' else lit ''false'')"
| "json_text l (JInt i) = str_int i"
| "json_text l (JStr s) = string_text s"
| "json_text l (JList xs) = bracketed l 91 93 (map (json_text (deeper l)) xs)"
| "json_text l (JDict d) =
     bracketed l 123 125 (map (\<lambda>(k, t). string_text k @ key_sep l @ t)
       (sort_key fst (map (\<lambda>(k, v). (k, json_text (deeper l) v)) d)))"

section \<open>Reading\<close>

definition json_space :: "int \<Rightarrow> bool" where
  "json_space c \<longleftrightarrow> c \<in> {32, 9, 10, 13}"

definition skip_space :: "pystr \<Rightarrow> pystr" where
  "skip_space s = dropWhile json_space s"

text \<open>Four hexadecimal digits at the front.\<close>

fun hex4 :: "pystr \<Rightarrow> (int \<times> pystr) option" where
  "hex4 (a # b # c # d # r) =
     (case (hex_digit a, hex_digit b, hex_digit c, hex_digit d) of
        (Some x, Some y, Some z, Some w) \<Rightarrow> Some (((x * 16 + y) * 16 + z) * 16 + w, r)
      | _ \<Rightarrow> None)"
| "hex4 _ = None"

definition high_surrogate :: "int \<Rightarrow> bool" where
  "high_surrogate c \<longleftrightarrow> 55296 \<le> c \<and> c < 56320"

definition low_surrogate :: "int \<Rightarrow> bool" where
  "low_surrogate c \<longleftrightarrow> 56320 \<le> c \<and> c < 57344"

definition join_surrogates :: "int \<Rightarrow> int \<Rightarrow> int" where
  "join_surrogates h m = 65536 + (h - 55296) * 1024 + (m - 56320)"

text \<open>
  The code point after a backslash and an u: a high surrogate takes a low one that follows as an
  escape of its own.
\<close>

definition u_code :: "pystr \<Rightarrow> (int \<times> pystr) option" where
  "u_code s =
     (case hex4 s of
        None \<Rightarrow> None
      | Some (n, r) \<Rightarrow>
          if high_surrogate n then
            (case r of
               b # u # r' \<Rightarrow>
                 if b = 92 \<and> u = 117 then
                   (case hex4 r' of
                      None \<Rightarrow> None
                    | Some (m, r'') \<Rightarrow>
                        if low_surrogate m then Some (join_surrogates n m, r'') else Some (n, r))
                 else Some (n, r)
             | _ \<Rightarrow> Some (n, r))
          else Some (n, r))"

definition short_escape :: "int \<Rightarrow> int option" where
  "short_escape e =
     (if e \<in> {34, 92, 47} then Some e
      else if e = 98 then Some 8 else if e = 102 then Some 12 else if e = 110 then Some 10
      else if e = 114 then Some 13 else if e = 116 then Some 9 else None)"

text \<open>One character of a string literal behind its opening quote; \<open>None\<close> is malformed.\<close>

definition string_char :: "pystr \<Rightarrow> (int \<times> pystr) option" where
  "string_char s =
     (case s of
        [] \<Rightarrow> None
      | c # cs \<Rightarrow>
          if c = 92 then
            (case cs of
               [] \<Rightarrow> None
             | e # r \<Rightarrow>
                 if e = 117 then u_code r
                 else map_option (\<lambda>x. (x, r)) (short_escape e))
          else if c < 32 then None
          else Some (c, cs))"

lemma hex4_length: "hex4 s = Some (n, r) \<Longrightarrow> length r < length s"
  by (induction s rule: hex4.induct) (auto split: option.splits)

lemma u_code_length: "u_code s = Some (n, r) \<Longrightarrow> length r < length s"
  by (auto simp: u_code_def split: option.splits list.splits if_splits dest!: hex4_length)

lemma string_char_length: "string_char s = Some (c, r) \<Longrightarrow> length r < length s"
  by (auto simp: string_char_def split: list.splits if_splits dest!: u_code_length)

function (sequential) scan_string :: "pystr \<Rightarrow> (pystr \<times> pystr) result" where
  "scan_string [] = Inl JSONDecodeError"
| "scan_string (c # cs) =
     (if c = 34 then Inr ([], cs)
      else case string_char (c # cs) of
        None \<Rightarrow> Inl JSONDecodeError
      | Some (x, r) \<Rightarrow> bindE (scan_string r) (\<lambda>(xs, r'). Inr (x # xs, r')))"
  by pat_completeness auto
termination
  by (relation "measure length") (auto dest: string_char_length)

lemma scan_string_length: "scan_string s = Inr (cs, r) \<Longrightarrow> length r < length s"
proof (induction s arbitrary: cs rule: scan_string.induct)
  case (2 c s)
  show ?case
  proof (cases "c = 34")
    case False
    with 2 obtain x t ys where t: "string_char (c # s) = Some (x, t)" "scan_string t = Inr (ys, r)"
      by (auto split: option.splits)
    from 2(1) [OF False t(1) refl t(2)] string_char_length [OF t(1)] show ?thesis by simp
  qed (use 2 in auto)
qed simp

text \<open>A number; one with a fraction or an exponent is a float, which the model does not have.\<close>

definition is_float_tail :: "pystr \<Rightarrow> bool" where
  "is_float_tail r \<longleftrightarrow>
     (case r of
        c # r' \<Rightarrow>
          c = 46 \<and> r' \<noteq> [] \<and> is_ascii_digit (hd r') \<or>
          c \<in> {101, 69} \<and> (r' \<noteq> [] \<and> (is_ascii_digit (hd r') \<or>
            hd r' \<in> {43, 45} \<and> tl r' \<noteq> [] \<and> is_ascii_digit (hd (tl r'))))
      | [] \<Rightarrow> False)"

definition scan_digits :: "pystr \<Rightarrow> (pystr \<times> pystr) option" where
  "scan_digits s =
     (case s of
        [] \<Rightarrow> None
      | c # cs \<Rightarrow>
          if c = 48 then Some ([c], cs)
          else if is_ascii_digit c then Some (takeWhile is_ascii_digit s, dropWhile is_ascii_digit s)
          else None)"

definition scan_number :: "pystr \<Rightarrow> (json \<times> pystr) result" where
  "scan_number s =
     (let (sign, u) = (case s of c # cs \<Rightarrow> if c = 45 then ([c], cs) else ([], s) | [] \<Rightarrow> ([], s)) in
      case scan_digits u of
        None \<Rightarrow> if sign \<noteq> [] \<and> startswith u (lit ''Infinity'') then Inl OutOfContract
                else Inl JSONDecodeError
      | Some (ds, r) \<Rightarrow>
          if is_float_tail r then Inl OutOfContract
          else bindE (py_int (sign @ ds)) (\<lambda>i. Inr (JInt i, r)))"

definition scan_word :: "pystr \<Rightarrow> (json \<times> pystr) option" where
  "scan_word s =
     (if startswith s (lit ''null'') then Some (JNull, drop 4 s)
      else if startswith s (lit ''true'') then Some (JBool True, drop 4 s)
      else if startswith s (lit ''false'') then Some (JBool False, drop 5 s)
      else None)"

text \<open>
  The recursive scanner. \<open>scan_items\<close> reads the elements of an array up to its closing bracket,
  \<open>scan_members\<close> the members of an object. The fuel bounds the recursion; \<open>loads\<close> gives twice the
  length of the text, which is shown to be enough.
\<close>

fun scan_value :: "nat \<Rightarrow> pystr \<Rightarrow> (json \<times> pystr) result"
  and scan_items :: "nat \<Rightarrow> pystr \<Rightarrow> (json list \<times> pystr) result"
  and scan_members :: "nat \<Rightarrow> pystr \<Rightarrow> ((pystr \<times> json) list \<times> pystr) result"
where
  "scan_value 0 s = Inl OutOfContract"
| "scan_value (Suc n) [] = Inl JSONDecodeError"
| "scan_value (Suc n) (c # cs) =
     (if c = 34 then bindE (scan_string cs) (\<lambda>(t, r). Inr (JStr t, r))
      else if c = 123 then
        (let s = skip_space cs in
         if s \<noteq> [] \<and> hd s = 125 then Inr (JDict [], tl s)
         else bindE (scan_members n s) (\<lambda>(d, r). Inr (JDict (dict_of fst snd d), r)))
      else if c = 91 then
        (let s = skip_space cs in
         if s \<noteq> [] \<and> hd s = 93 then Inr (JList [], tl s)
         else bindE (scan_items n s) (\<lambda>(xs, r). Inr (JList xs, r)))
      else case scan_word (c # cs) of
        Some (v, r) \<Rightarrow> Inr (v, r)
      | None \<Rightarrow>
          if startswith (c # cs) (lit ''NaN'') \<or> startswith (c # cs) (lit ''Infinity'')
          then Inl OutOfContract else scan_number (c # cs))"
| "scan_items 0 s = Inl OutOfContract"
| "scan_items (Suc n) s =
     bindE (scan_value n s) (\<lambda>(x, r).
     let s' = skip_space r in
     if s' = [] then Inl JSONDecodeError
     else if hd s' = 93 then Inr ([x], tl s')
     else if hd s' = 44
     then bindE (scan_items n (skip_space (tl s'))) (\<lambda>(xs, r'). Inr (x # xs, r'))
     else Inl JSONDecodeError)"
| "scan_members 0 s = Inl OutOfContract"
| "scan_members (Suc n) [] = Inl JSONDecodeError"
| "scan_members (Suc n) (c # cs) =
     (if c \<noteq> 34 then Inl JSONDecodeError
      else bindE (scan_string cs) (\<lambda>(k, r).
       let s1 = skip_space r in
       if s1 = [] \<or> hd s1 \<noteq> 58 then Inl JSONDecodeError
       else bindE (scan_value n (skip_space (tl s1))) (\<lambda>(v, r').
         let s2 = skip_space r' in
         if s2 = [] then Inl JSONDecodeError
         else if hd s2 = 125 then Inr ([(k, v)], tl s2)
         else if hd s2 = 44
         then bindE (scan_members n (skip_space (tl s2))) (\<lambda>(d, r''). Inr ((k, v) # d, r''))
         else Inl JSONDecodeError)))"

text \<open>A byte order mark at the front is refused; anything behind the value is extra data.\<close>

definition loads :: "pystr \<Rightarrow> json result" where
  "loads s =
     (if s \<noteq> [] \<and> hd s = 65279 then Inl JSONDecodeError
      else bindE (scan_value (2 * length s + 1) (skip_space s)) (\<lambda>(v, r).
        if skip_space r = [] then Inr v else Inl JSONDecodeError))"

section \<open>Strings and numbers read back\<close>

lemma hex_width_4:
  assumes "0 \<le> n" and "n < 65536"
  obtains a b c d where "hex_width 4 n = [hex_char a, hex_char b, hex_char c, hex_char d]"
    "0 \<le> a" "a < 16" "0 \<le> b" "b < 16" "0 \<le> c" "c < 16" "0 \<le> d" "d < 16"
    "((a * 16 + b) * 16 + c) * 16 + d = n"
proof (rule that)
  have q: "0 \<le> n div 16 div 16 div 16" "n div 16 div 16 div 16 < 16"
    using assms by (auto simp: div_less_iff_less_mult pos_imp_zdiv_nonneg_iff)
  have "hex_width 4 n = [hex_char (n div 16 div 16 div 16 mod 16), hex_char (n div 16 div 16 mod 16),
      hex_char (n div 16 mod 16), hex_char (n mod 16)]"
    by (simp add: numeral_eq_Suc)
  also have "n div 16 div 16 div 16 mod 16 = n div 16 div 16 div 16"
    using q by (rule mod_pos_pos_trivial)
  finally show "hex_width 4 n = [hex_char (n div 16 div 16 div 16), hex_char (n div 16 div 16 mod 16),
      hex_char (n div 16 mod 16), hex_char (n mod 16)]" .
  show "((n div 16 div 16 div 16 * 16 + n div 16 div 16 mod 16) * 16 + n div 16 mod 16) * 16 +
      n mod 16 = n"
    by (simp only: div_mult_mod_eq)
  show "0 \<le> n div 16 div 16 div 16" "n div 16 div 16 div 16 < 16" by (rule q)+
qed simp_all

lemma hex4_hex_width:
  assumes "0 \<le> n" and "n < 65536"
  shows "hex4 (hex_width 4 n @ r) = Some (n, r)"
proof -
  obtain a b c d where h: "hex_width 4 n = [hex_char a, hex_char b, hex_char c, hex_char d]"
    and r: "0 \<le> a" "a < 16" "0 \<le> b" "b < 16" "0 \<le> c" "c < 16" "0 \<le> d" "d < 16"
    and n: "((a * 16 + b) * 16 + c) * 16 + d = n"
    by (rule hex_width_4 [OF assms])
  have "hex4 ([hex_char a, hex_char b, hex_char c, hex_char d] @ r) =
      Some (((a * 16 + b) * 16 + c) * 16 + d, r)"
    using r by (simp add: hex_digit_hex_char)
  then show ?thesis by (simp only: h n)
qed

text \<open>
  Texts whose code points stand for themselves in UTF-16: a high surrogate directly before a low one
  would be read as one character.
\<close>

definition clash :: "int \<Rightarrow> pystr \<Rightarrow> bool" where
  "clash c s \<longleftrightarrow> high_surrogate c \<and> s \<noteq> [] \<and> low_surrogate (hd s)"

fun str_ok :: "pystr \<Rightarrow> bool" where
  "str_ok [] \<longleftrightarrow> True"
| "str_ok (c # cs) \<longleftrightarrow> 0 \<le> c \<and> c < 1114112 \<and> \<not> clash c cs \<and> str_ok cs"

lemma escape_char_cases:
  assumes "0 \<le> c" and "c < 1114112"
  obtains
    (short) e where "escape_char c = [92, e]" "e \<noteq> 117" "short_escape e = Some c"
  | (plain) "escape_char c = [c]" "c \<noteq> 34" "c \<noteq> 92" "32 \<le> c"
  | (bmp) "escape_char c = u_escape c" "c < 65536"
  | (pair) h m where "escape_char c = u_escape h @ u_escape m" "high_surrogate h" "low_surrogate m"
      "join_surrogates h m = c"
proof -
  consider "c \<in> {34, 92, 10, 13, 9, 12, 8}" | "c \<notin> {34, 92, 10, 13, 9, 12, 8}" "32 \<le> c" "c \<le> 126"
    | "c \<notin> {34, 92, 10, 13, 9, 12, 8}" "\<not> (32 \<le> c \<and> c \<le> 126)" "c < 65536"
    | "65536 \<le> c" by force
  then show ?thesis
  proof cases
    case 1
    then show ?thesis by (auto simp: escape_char_def short_escape_def intro: short)
  next
    case 2
    then show ?thesis by (intro plain) (auto simp: escape_char_def)
  next
    case 3
    then show ?thesis by (intro bmp) (auto simp: escape_char_def)
  next
    case 4
    with assms have "(c - 65536) div 1024 < 1024" by (simp add: div_less_iff_less_mult)
    then show ?thesis
      using 4 by (intro pair [of "55296 + (c - 65536) div 1024" "56320 + (c - 65536) mod 1024"])
        (auto simp: escape_char_def high_surrogate_def low_surrogate_def join_surrogates_def
          pos_imp_zdiv_nonneg_iff)
  qed
qed

abbreviation escaped :: "pystr \<Rightarrow> pystr \<Rightarrow> pystr" where
  "escaped cs r \<equiv> concat (map escape_char cs) @ 34 # r"

lemma high_before_escaped:
  assumes "high_surrogate n" and "str_ok cs" and "\<not> (cs \<noteq> [] \<and> low_surrogate (hd cs))"
  shows "u_code (hex_width 4 n @ escaped cs r) = Some (n, escaped cs r)"
proof -
  have n: "0 \<le> n" "n < 65536" using assms(1) by (auto simp: high_surrogate_def)
  show ?thesis
  proof (cases cs)
    case Nil
    then show ?thesis by (simp add: u_code_def hex4_hex_width [OF n] split: list.split)
  next
    case (Cons d ds)
    with assms have d: "0 \<le> d" "d < 1114112" "\<not> low_surrogate d" by auto
    from d(1,2) show ?thesis
    proof (cases d rule: escape_char_cases)
      case bmp
      then show ?thesis using d(1,3)
        by (simp add: u_code_def hex4_hex_width [OF n] Cons u_escape_def hex4_hex_width)
    next
      case (pair h m)
      then have "0 \<le> h" "h < 65536" "\<not> low_surrogate h"
        by (auto simp: high_surrogate_def low_surrogate_def)
      with pair show ?thesis
        by (simp add: u_code_def hex4_hex_width [OF n] Cons u_escape_def hex4_hex_width)
    qed (auto simp: u_code_def hex4_hex_width [OF n] Cons split: list.split)
  qed
qed

lemma string_char_escaped:
  assumes "str_ok (c # cs)"
  shows "string_char (escape_char c @ escaped cs r) = Some (c, escaped cs r)"
proof -
  from assms have c: "0 \<le> c" "c < 1114112" "\<not> clash c cs" "str_ok cs" by auto
  from c(1,2) show ?thesis
  proof (cases c rule: escape_char_cases)
    case bmp
    show ?thesis
    proof (cases "high_surrogate c")
      case True
      with c bmp high_before_escaped [OF True] show ?thesis
        by (simp add: string_char_def u_escape_def clash_def)
    next
      case False
      with c bmp show ?thesis
        by (simp add: string_char_def u_escape_def u_code_def hex4_hex_width)
    qed
  next
    case (pair h m)
    then have "0 \<le> h" "h < 65536" "0 \<le> m" "m < 65536"
      by (auto simp: high_surrogate_def low_surrogate_def)
    with pair show ?thesis
      by (simp add: string_char_def u_escape_def u_code_def hex4_hex_width)
  qed (auto simp: string_char_def)
qed

lemma escape_char_head:
  assumes "0 \<le> c" and "c < 1114112"
  shows "\<exists>e t. escape_char c = e # t \<and> e \<noteq> 34"
  using assms by (cases c rule: escape_char_cases) (auto simp: u_escape_def)

lemma scan_string_text: "str_ok s \<Longrightarrow> scan_string (escaped s r) = Inr (s, r)"
proof (induction s)
  case (Cons c cs)
  then obtain e t where e: "escape_char c = e # t" "e \<noteq> 34"
    using escape_char_head [of c] by auto
  from string_char_escaped [OF Cons.prems, of r]
  have "string_char (e # t @ escaped cs r) = Some (c, escaped cs r)" by (simp add: e)
  with Cons show ?case by (simp add: e(1)) (simp add: e(2))
qed simp

lemma dec_digits_head: "n \<noteq> 0 \<Longrightarrow> hd (dec_digits n) \<noteq> 48"
proof (induction n rule: dec_digits.induct)
  case (1 n)
  then show ?case
    by (subst dec_digits.simps) (auto simp: hd_append)
qed

text \<open>What can follow a value inside a document: the end, a comma, a closing bracket, space.\<close>

definition terminator :: "pystr \<Rightarrow> bool" where
  "terminator r \<longleftrightarrow> r = [] \<or> hd r \<in> {44, 93, 125, 10, 32}"

lemma scan_digits_text:
  assumes "terminator r"
  shows "scan_digits (dec_digits n @ r) = Some (dec_digits n, r)"
proof (cases "n = 0")
  case True
  then show ?thesis by (simp add: scan_digits_def dec_digits.simps)
next
  case False
  obtain c cs where c: "dec_digits n = c # cs" "c \<noteq> 48"
    using dec_digits_head [OF False] by (cases "dec_digits n") auto
  have d: "\<forall>x \<in> set (dec_digits n). is_ascii_digit x"
    using dec_digits_ascii [of n] by (simp add: list_all_iff)
  have "r = [] \<or> \<not> is_ascii_digit (hd r)"
    using assms by (auto simp: terminator_def is_ascii_digit_def)
  then have "takeWhile is_ascii_digit r = []" "dropWhile is_ascii_digit r = r"
    by (cases r; auto)+
  then have "takeWhile is_ascii_digit (dec_digits n @ r) = dec_digits n"
    "dropWhile is_ascii_digit (dec_digits n @ r) = r"
    using d by (simp_all add: takeWhile_append2 dropWhile_append2)
  then show ?thesis using d c by (simp add: scan_digits_def)
qed

lemma terminator_no_float: "terminator r \<Longrightarrow> \<not> is_float_tail r"
  by (cases r) (auto simp: terminator_def is_float_tail_def)

lemma scan_number_text:
  assumes "printable_int i" and "terminator r"
  shows "scan_number (str_int i @ r) = Inr (JInt i, r)"
proof (cases "i < 0")
  case True
  then show ?thesis
    using scan_digits_text [OF assms(2), of "nat (- i)"] py_int_str_int [OF assms(1)]
      terminator_no_float [OF assms(2)]
    by (simp add: scan_number_def str_int_def)
next
  case False
  obtain c cs where c: "dec_digits (nat i) = c # cs" by (cases "dec_digits (nat i)") auto
  then have "c \<noteq> 45" using dec_digits_ascii [of "nat i"] by (auto simp: is_ascii_digit_def)
  then show ?thesis
    using False scan_digits_text [OF assms(2), of "nat i"] py_int_str_int [OF assms(1)]
      terminator_no_float [OF assms(2)] c
    by (simp add: scan_number_def str_int_def)
qed

section \<open>Documents read back\<close>

fun json_ok :: "json \<Rightarrow> bool" where
  "json_ok (JInt i) \<longleftrightarrow> printable_int i"
| "json_ok (JStr s) \<longleftrightarrow> str_ok s"
| "json_ok (JList xs) \<longleftrightarrow> list_all json_ok xs"
| "json_ok (JDict d) \<longleftrightarrow> distinct (map fst d) \<and> list_all (\<lambda>(k, v). str_ok k \<and> json_ok v) d"
| "json_ok _ \<longleftrightarrow> True"

text \<open>The value with the keys of every object in ascending order.\<close>

fun json_sorted :: "json \<Rightarrow> json" where
  "json_sorted (JList xs) = JList (map json_sorted xs)"
| "json_sorted (JDict d) = JDict (sort_key fst (map (\<lambda>(k, v). (k, json_sorted v)) d))"
| "json_sorted v = v"

lemma skip_space_append: "list_all json_space b \<Longrightarrow> skip_space (b @ s) = skip_space s"
  by (simp add: skip_space_def dropWhile_append2 list_all_iff)

lemma skip_space_head [simp]: "\<not> json_space c \<Longrightarrow> skip_space (c # s) = c # s"
  by (simp add: skip_space_def)

lemma json_break_space [simp]: "list_all json_space (line_break l)"
  by (auto simp: line_break_def json_space_def list_all_iff split: option.split)

definition value_head :: "int \<Rightarrow> bool" where
  "value_head c \<longleftrightarrow> c \<in> {34, 91, 123, 110, 116, 102, 45} \<or> is_ascii_digit c"

lemma str_int_head: "\<exists>c t. str_int i = c # t \<and> (c = 45 \<or> is_ascii_digit c)"
proof (cases "dec_digits (nat \<bar>i\<bar>)")
  case (Cons c t)
  then show ?thesis using dec_digits_ascii [of "nat \<bar>i\<bar>"] by (auto simp: str_int_def)
qed simp

lemma json_text_head: "\<exists>c t. json_text l v = c # t \<and> value_head c"
proof (cases v)
  case (JInt i)
  then show ?thesis using str_int_head [of i] by (auto simp: value_head_def)
qed (auto simp: value_head_def lit_def string_text_def bracketed_def)

lemma value_head_facts:
  "value_head c \<Longrightarrow> \<not> json_space c" "value_head c \<Longrightarrow> c \<noteq> 93" "value_head c \<Longrightarrow> c \<noteq> 125"
  by (auto simp: value_head_def json_space_def is_ascii_digit_def)

lemma skip_json_text: "skip_space (json_text l v @ r) = json_text l v @ r"
proof -
  obtain c t where "json_text l v = c # t" "value_head c" using json_text_head by blast
  then show ?thesis by (simp add: value_head_facts)
qed

definition reads_back :: "layout \<Rightarrow> json \<Rightarrow> bool" where
  "reads_back l v \<longleftrightarrow> (\<forall>n r. terminator r \<longrightarrow> 2 * length (json_text l v) + 1 \<le> n \<longrightarrow>
     scan_value n (json_text l v @ r) = Inr (json_sorted v, r))"

lemma terminator_break: "terminator (line_break l @ 44 # r)" "terminator (line_break l @ 93 # r)"
  "terminator (line_break l @ 125 # r)" "terminator (44 # r)"
  by (auto simp: terminator_def line_break_def split: option.split)

lemma skip_to_bracket [simp]:
  "skip_space (line_break l @ 93 # r) = 93 # r" "skip_space (line_break l @ 125 # r) = 125 # r"
  by (simp_all add: skip_space_append json_space_def)

lemma join_front: "\<exists>t. join sep (x # xs) = x @ t"
  by (cases xs) auto

lemma skip_items:
  "xs \<noteq> [] \<Longrightarrow> skip_space (line_break l @ join sep (map (json_text l') xs) @ r) =
     join sep (map (json_text l') xs) @ r"
proof (cases xs)
  case (Cons y ys)
  moreover obtain t where "join sep (json_text l' y # map (json_text l') ys) = json_text l' y @ t"
    using join_front by blast
  ultimately show ?thesis by (simp add: skip_space_append skip_json_text)
qed simp

lemma scan_items_text:
  assumes "xs \<noteq> []" and "\<And>x. x \<in> set xs \<Longrightarrow> reads_back l x"
    and "2 * length (join (44 # line_break l) (map (json_text l) xs)) + 2 \<le> n"
  shows "scan_items n (join (44 # line_break l) (map (json_text l) xs) @ line_break l' @ 93 # r) =
     Inr (map json_sorted xs, r)"
  using assms
proof (induction xs arbitrary: n)
  case (Cons x xs)
  from Cons.prems(3) obtain m where n: "n = Suc m" by (cases n) auto
  show ?case
  proof (cases "xs = []")
    case True
    with Cons.prems n have "scan_value m (json_text l x @ line_break l' @ 93 # r) =
        Inr (json_sorted x, line_break l' @ 93 # r)"
      using terminator_break(2) by (auto simp: reads_back_def)
    then show ?thesis by (simp add: n True)
  next
    case False
    let ?rest = "join (44 # line_break l) (map (json_text l) xs)"
    have j: "join (44 # line_break l) (map (json_text l) (x # xs)) =
        json_text l x @ 44 # line_break l @ ?rest"
      using False by (cases xs) auto
    have "scan_value m (json_text l x @ 44 # line_break l @ ?rest @ line_break l' @ 93 # r) =
        Inr (json_sorted x, 44 # line_break l @ ?rest @ line_break l' @ 93 # r)"
      using Cons.prems(2,3) terminator_break(4) unfolding reads_back_def n j by simp
    moreover have "scan_items m (?rest @ line_break l' @ 93 # r) = Inr (map json_sorted xs, r)"
      using Cons.prems(2,3) False unfolding n j by (intro Cons.IH) auto
    ultimately show ?thesis unfolding n j
      using skip_items [OF False] by (simp add: json_space_def)
  qed
qed simp

text \<open>The same for the members of an object.\<close>

abbreviation member_text :: "layout \<Rightarrow> pystr \<times> json \<Rightarrow> pystr" where
  "member_text l \<equiv> \<lambda>(k, v). string_text k @ key_sep l @ json_text l v"

lemma skip_members:
  "d \<noteq> [] \<Longrightarrow> skip_space (line_break l @ join sep (map (member_text l') d) @ r) =
     join sep (map (member_text l') d) @ r"
proof (cases d)
  case (Cons y ys)
  moreover obtain t where "join sep (member_text l' y # map (member_text l') ys) = member_text l' y @ t"
    using join_front by blast
  ultimately show ?thesis
    by (cases y) (simp add: skip_space_append string_text_def json_space_def)
qed simp

lemma key_sep_deeper [simp]: "key_sep (deeper l) = key_sep l"
  by (simp add: key_sep_def deeper_def split: option.split)

lemma skip_key_sep: "\<exists>t. key_sep l = 58 # t \<and> list_all json_space t"
  by (auto simp: key_sep_def lit_def json_space_def split: option.split)

lemma scan_member_value:
  assumes "str_ok k" and "reads_back l v" and "terminator r"
    and "2 * length (member_text l (k, v)) + 1 \<le> Suc n"
  shows "scan_string (escaped k (key_sep l @ json_text l v @ r)) =
      Inr (k, key_sep l @ json_text l v @ r)"
    and "\<exists>t. key_sep l @ json_text l v @ r = 58 # t \<and>
      scan_value n (skip_space t) = Inr (json_sorted v, r)"
proof -
  show "scan_string (escaped k (key_sep l @ json_text l v @ r)) =
      Inr (k, key_sep l @ json_text l v @ r)"
    by (rule scan_string_text [OF assms(1)])
  obtain t where t: "key_sep l = 58 # t" "list_all json_space t" using skip_key_sep by blast
  have "scan_value n (json_text l v @ r) = Inr (json_sorted v, r)"
    using assms(2,3,4) t(1) by (simp add: reads_back_def string_text_def)
  then show "\<exists>t. key_sep l @ json_text l v @ r = 58 # t \<and>
      scan_value n (skip_space t) = Inr (json_sorted v, r)"
    using t by (auto simp: skip_space_append skip_json_text)
qed

lemma scan_members_text:
  assumes "d \<noteq> []" and "\<And>k v. (k, v) \<in> set d \<Longrightarrow> str_ok k \<and> reads_back l v"
    and "2 * length (join (44 # line_break l) (map (member_text l) d)) + 2 \<le> n"
  shows "scan_members n (join (44 # line_break l) (map (member_text l) d) @ line_break l' @ 125 # r) =
     Inr (map (\<lambda>(k, v). (k, json_sorted v)) d, r)"
  using assms
proof (induction d arbitrary: n)
  case (Cons x d)
  obtain k v where x: "x = (k, v)" by (cases x)
  from Cons.prems(3) obtain m where n: "n = Suc m" by (cases n) auto
  have ok: "str_ok k" "reads_back l v" using Cons.prems(2) [of k v] x by auto
  show ?case
  proof (cases "d = []")
    case True
    with Cons.prems(3) n x have "2 * length (member_text l (k, v)) + 1 \<le> Suc m" by simp
    note mv = scan_member_value [OF ok terminator_break(3) this, of l' r]
    from mv(2) obtain t where t: "key_sep l @ json_text l v @ line_break l' @ 125 # r = 58 # t"
      "scan_value m (skip_space t) = Inr (json_sorted v, line_break l' @ 125 # r)" by blast
    from mv(1) t show ?thesis
      by (simp add: n x True string_text_def json_space_def)
  next
    case False
    let ?rest = "join (44 # line_break l) (map (member_text l) d)"
    have j: "join (44 # line_break l) (map (member_text l) (x # d)) =
        member_text l x @ 44 # line_break l @ ?rest"
      using False by (cases d) auto
    have "2 * length (member_text l (k, v)) + 1 \<le> Suc m"
      using Cons.prems(3) unfolding j n by (simp add: x)
    note mv = scan_member_value [OF ok terminator_break(4) this,
        of "line_break l @ ?rest @ line_break l' @ 125 # r"]
    from mv(2) obtain t where t: "key_sep l @ json_text l v @ 44 # line_break l @ ?rest @
          line_break l' @ 125 # r = 58 # t"
      "scan_value m (skip_space t) =
        Inr (json_sorted v, 44 # line_break l @ ?rest @ line_break l' @ 125 # r)" by blast
    have "scan_members m (?rest @ line_break l' @ 125 # r) =
        Inr (map (\<lambda>(k, v). (k, json_sorted v)) d, r)"
      using Cons.prems(2,3) False unfolding n j by (intro Cons.IH) auto
    then show ?thesis unfolding n j
      using skip_members [OF False] mv(1) t
      by (simp add: x string_text_def json_space_def)
  qed
qed simp

lemma scan_word_text [simp]:
  "scan_word (lit ''null'' @ r) = Some (JNull, r)"
  "scan_word (lit ''true'' @ r) = Some (JBool True, r)"
  "scan_word (lit ''false'' @ r) = Some (JBool False, r)"
  by (simp_all add: scan_word_def startswith_def lit_def)

lemma scan_number_value:
  assumes "str_int i = c # t" and "0 < n"
  shows "scan_value n (c # s) = scan_number (c # s)"
proof -
  obtain m where "n = Suc m" using assms(2) by (cases n) auto
  moreover have "c = 45 \<or> is_ascii_digit c" using str_int_head [of i] assms(1) by auto
  ultimately show ?thesis
    by (auto simp: scan_word_def startswith_def lit_def is_ascii_digit_def)
qed

lemma reads_back_int:
  assumes "printable_int i"
  shows "reads_back l (JInt i)"
proof -
  obtain c t where c: "str_int i = c # t" using str_int_head by blast
  have "scan_value n (str_int i @ r) = Inr (JInt i, r)"
    if "terminator r" "2 * length (str_int i) + 1 \<le> n" for n r
    using scan_number_value [OF c, of n "t @ r"] scan_number_text [OF assms that(1)] that(2)
    by (simp add: c)
  then show ?thesis by (simp add: reads_back_def)
qed

lemma reads_back_word: "v = JNull \<or> v = JBool b \<Longrightarrow> reads_back l v"
proof -
  have "scan_value n (lit ''null'' @ r) = Inr (JNull, r)"
    "scan_value n (lit ''true'' @ r) = Inr (JBool True, r)"
    "scan_value n (lit ''false'' @ r) = Inr (JBool False, r)" if "0 < n" for n r
    using scan_word_text that by (cases n; simp add: lit_def)+
  then show "v = JNull \<or> v = JBool b \<Longrightarrow> reads_back l v"
    by (auto simp: reads_back_def)
qed

lemma reads_back_str: "str_ok s \<Longrightarrow> reads_back l (JStr s)"
  unfolding reads_back_def
proof (intro allI impI)
  fix n r
  assume "str_ok s" and "2 * length (json_text l (JStr s)) + 1 \<le> n"
  then show "scan_value n (json_text l (JStr s) @ r) = Inr (json_sorted (JStr s), r)"
    using scan_string_text [of s r] by (cases n) (auto simp: string_text_def)
qed

lemma skip_items_break:
  assumes "xs \<noteq> []"
  shows "skip_space (line_break l @ join sep (map (json_text l') xs) @ r) =
     join sep (map (json_text l') xs) @ r"
    and "\<exists>c t. join sep (map (json_text l') xs) @ r = c # t \<and> c \<noteq> 93"
proof -
  show "skip_space (line_break l @ join sep (map (json_text l') xs) @ r) =
     join sep (map (json_text l') xs) @ r"
    by (rule skip_items [OF assms])
  obtain y ys where xs: "xs = y # ys" using assms by (cases xs) auto
  obtain t where "join sep (json_text l' y # map (json_text l') ys) = json_text l' y @ t"
    using join_front by blast
  moreover obtain c u where "json_text l' y = c # u" "value_head c" using json_text_head by blast
  ultimately show "\<exists>c t. join sep (map (json_text l') xs) @ r = c # t \<and> c \<noteq> 93"
    using value_head_facts(2) by (auto simp: xs)
qed

lemma reads_back_list:
  assumes "\<And>x. x \<in> set xs \<Longrightarrow> reads_back (deeper l) x"
  shows "reads_back l (JList xs)"
proof (cases "xs = []")
  case True
  have "scan_value n (91 # 93 # r) = Inr (JList [], r)" if "0 < n" for n r
    using that by (cases n) (simp_all add: json_space_def)
  then show ?thesis by (simp add: reads_back_def bracketed_def True)
next
  case False
  let ?l = "deeper l"
  let ?body = "join (44 # line_break ?l) (map (json_text ?l) xs)"
  have doc: "json_text l (JList xs) = 91 # line_break ?l @ ?body @ line_break l @ [93]"
    using False by (simp add: bracketed_def)
  show ?thesis unfolding reads_back_def
  proof (intro allI impI)
    fix n r
    assume n: "2 * length (json_text l (JList xs)) + 1 \<le> n"
    then obtain m where m: "n = Suc m" by (cases n) auto
    let ?rest = "?body @ line_break l @ 93 # r"
    have "scan_items m ?rest = Inr (map json_sorted xs, r)"
      using n unfolding doc m by (intro scan_items_text [OF False assms]) simp_all
    moreover have "skip_space (line_break ?l @ ?rest) = ?rest"
      by (rule skip_items_break(1) [OF False])
    moreover obtain c t where "?rest = c # t" "c \<noteq> 93"
      using skip_items_break(2) [OF False] by blast
    ultimately show "scan_value n (json_text l (JList xs) @ r) = Inr (json_sorted (JList xs), r)"
      unfolding doc m by (simp add: Let_def)
  qed
qed

lemma map_key_sort: "(\<And>x. g (f x) = h x) \<Longrightarrow> sort_key g (map f xs) = map f (sort_key h xs)"
proof (induction xs)
  case (Cons x xs)
  have "insort_key g (f x) (map f ys) = map f (insort_key h x ys)" for ys
    using Cons.prems by (induction ys) auto
  with Cons show ?case by simp
qed simp

lemma reads_back_dict:
  assumes ok: "json_ok (JDict d)" and "\<And>k v. (k, v) \<in> set d \<Longrightarrow> reads_back (deeper l) v"
  shows "reads_back l (JDict d)"
proof (cases "d = []")
  case True
  have "scan_value n (123 # 125 # r) = Inr (JDict [], r)" if "0 < n" for n r
    using that by (cases n) (simp_all add: json_space_def)
  then show ?thesis by (simp add: reads_back_def bracketed_def True)
next
  case False
  let ?l = "deeper l"
  let ?d = "sort_key fst d"
  let ?body = "join (44 # line_break ?l) (map (member_text ?l) ?d)"
  have ne: "?d \<noteq> []" using False by (metis set_empty set_sort)
  have "sort_key fst (map (\<lambda>(k, v). (k, json_text ?l v)) d) =
      map (\<lambda>(k, v). (k, json_text ?l v)) ?d"
    by (rule map_key_sort) auto
  then have doc: "json_text l (JDict d) =
      123 # line_break ?l @ ?body @ line_break l @ [125]"
    using ne by (simp add: bracketed_def comp_def case_prod_unfold)
  have sorted: "json_sorted (JDict d) = JDict (map (\<lambda>(k, v). (k, json_sorted v)) ?d)"
    by (simp add: map_key_sort case_prod_unfold)
  have "distinct (map fst ?d)"
    using ok distinct_sort [of "\<lambda>k. k" "map fst d"] map_key_sort [of "\<lambda>k. k" fst fst d] by simp
  then have dict: "dict_of fst snd (map (\<lambda>(k, v). (k, json_sorted v)) ?d) =
      map (\<lambda>(k, v). (k, json_sorted v)) ?d"
    by (subst dict_of_fresh) (simp_all add: case_prod_unfold comp_def)
  have mem: "str_ok k \<and> reads_back ?l v" if "(k, v) \<in> set ?d" for k v
    using that ok assms(2) by (auto simp: list_all_iff)
  show ?thesis unfolding reads_back_def
  proof (intro allI impI)
    fix n r
    assume n: "2 * length (json_text l (JDict d)) + 1 \<le> n"
    then obtain m where m: "n = Suc m" by (cases n) auto
    let ?rest = "?body @ line_break l @ 125 # r"
    have "scan_members m ?rest = Inr (map (\<lambda>(k, v). (k, json_sorted v)) ?d, r)"
      using n unfolding doc m by (intro scan_members_text [OF ne mem]) simp_all
    moreover have "skip_space (line_break ?l @ ?rest) = ?rest"
      by (rule skip_members [OF ne])
    moreover have "hd ?rest \<noteq> 125 \<and> ?rest \<noteq> []"
    proof -
      obtain y ys where y: "?d = y # ys" using ne by (cases ?d) auto
      obtain t where "join (44 # line_break ?l) (member_text ?l y # map (member_text ?l) ys) =
          member_text ?l y @ t"
        using join_front by blast
      then show ?thesis by (cases y) (simp add: y string_text_def)
    qed
    ultimately show "scan_value n (json_text l (JDict d) @ r) = Inr (json_sorted (JDict d), r)"
      unfolding doc m sorted by (simp add: Let_def dict)
  qed
qed

lemma json_ok_reads_back: "json_ok v \<Longrightarrow> reads_back l v"
proof (induction v arbitrary: l)
  case (JList xs)
  then show ?case by (intro reads_back_list) (auto simp: list_all_iff)
next
  case (JDict d)
  show ?case
  proof (rule reads_back_dict [OF JDict.prems])
    fix k v
    assume kv: "(k, v) \<in> set d"
    then have "json_ok v" using JDict.prems by (auto simp: list_all_iff)
    then show "reads_back (deeper l) v"
      by (rule JDict.IH [of "(k, v)" v, rotated 2]) (use kv in auto)
  qed
qed (auto simp: reads_back_int reads_back_str reads_back_word)

text \<open>What was written reads back, with any number of line ends behind it.\<close>

lemma loads_json_text:
  assumes "json_ok v"
  shows "loads (json_text l v @ replicate m 10) = Inr (json_sorted v)"
proof -
  let ?r = "replicate m (10::int)"
  obtain c t where c: "json_text l v = c # t" "value_head c" using json_text_head by blast
  then have "c \<noteq> 65279" by (auto simp: value_head_def is_ascii_digit_def)
  moreover have "terminator ?r" by (cases m) (simp_all add: terminator_def)
  then have "scan_value (2 * length (json_text l v @ ?r) + 1) (json_text l v @ ?r) =
      Inr (json_sorted v, ?r)"
    using json_ok_reads_back [OF assms, of l] by (simp add: reads_back_def)
  moreover have "skip_space ?r = []" by (simp add: skip_space_def json_space_def)
  ultimately show ?thesis using c(1) skip_json_text [of l v ?r] by (simp add: loads_def)
qed

text \<open>The written text is ASCII, whatever the value holds.\<close>

definition plain_text :: "pystr \<Rightarrow> bool" where
  "plain_text s \<longleftrightarrow> list_all (\<lambda>c. c = 10 \<or> 32 \<le> c \<and> c \<le> 126) s"

lemma plain_text_simps [simp]:
  "plain_text []"
  "plain_text (c # s) \<longleftrightarrow> (c = 10 \<or> 32 \<le> c \<and> c \<le> 126) \<and> plain_text s"
  "plain_text (s @ t) \<longleftrightarrow> plain_text s \<and> plain_text t"
  by (simp_all add: plain_text_def)

lemma plain_hex_width: "plain_text (hex_width w n)"
proof (induction w arbitrary: n)
  case (Suc w)
  have "0 \<le> n mod 16" "n mod 16 < 16" by simp_all
  then have "48 \<le> hex_char (n mod 16) \<and> hex_char (n mod 16) \<le> 102" by (auto simp: hex_char_def)
  with Suc show ?case by simp
qed simp

lemma plain_string_text: "plain_text (string_text s)"
proof -
  have "plain_text (escape_char c)" for c
    by (simp add: escape_char_def u_escape_def plain_hex_width)
  then have "plain_text (concat (map escape_char s))" by (induction s) simp_all
  then show ?thesis by (simp add: string_text_def)
qed

lemma plain_str_int: "plain_text (str_int i)"
proof -
  have "plain_text (dec_digits n)" for n
    using dec_digits_ascii [of n] by (auto simp: plain_text_def list_all_iff is_ascii_digit_def)
  then show ?thesis by (simp add: str_int_def)
qed

lemma plain_join: "plain_text sep \<Longrightarrow> list_all plain_text xs \<Longrightarrow> plain_text (join sep xs)"
  by (induction sep xs rule: join.induct) simp_all

lemma plain_line_break [simp]: "plain_text (line_break l)"
  by (auto simp: line_break_def plain_text_def list_all_iff split: option.split)

lemma plain_bracketed:
  "list_all plain_text xs \<Longrightarrow> 32 \<le> opn \<Longrightarrow> opn \<le> 126 \<Longrightarrow> 32 \<le> cls \<Longrightarrow> cls \<le> 126 \<Longrightarrow>
   plain_text (bracketed l opn cls xs)"
  by (simp add: bracketed_def plain_join)

lemma plain_key_sep [simp]: "plain_text (key_sep l)"
  by (simp add: key_sep_def lit_def split: option.split)

lemma plain_json_text: "plain_text (json_text l v)"
proof (induction v arbitrary: l)
  case (JList xs)
  then show ?case by (simp add: list_all_iff plain_bracketed)
next
  case (JDict d)
  have "list_all plain_text (map (\<lambda>(k, t). string_text k @ key_sep l @ t)
      (sort_key fst (map (\<lambda>(k, v). (k, json_text (deeper l) v)) d)))"
    using JDict by (auto simp: list_all_iff plain_string_text)
  then show ?case by (simp add: plain_bracketed)
qed (simp_all add: plain_str_int plain_string_text, simp_all add: lit_def)

text \<open>Sorting the keys of a value does not change its text.\<close>

lemma sort_key_sorted: "sorted (map f xs) \<Longrightarrow> sort_key f xs = xs"
  by (induction xs) (auto simp: insort_is_Cons)

lemma sort_key_twice: "(\<And>x. fst (f x) = fst x) \<Longrightarrow>
   sort_key fst (map f (sort_key fst xs)) = map f (sort_key fst xs)"
  by (rule sort_key_sorted) (simp add: comp_def)

lemma json_sorted_dict:
  "json_sorted (JDict d) = JDict (map (\<lambda>(k, v). (k, json_sorted v)) (sort_key fst d))"
  by (simp add: map_key_sort case_prod_unfold)

lemma json_sorted_idem: "json_sorted (json_sorted v) = json_sorted v"
proof (induction v)
  case (JDict d)
  then have "json_sorted (json_sorted w) = json_sorted w" if "(k, w) \<in> set d" for k w
    using that by force
  then have "map (\<lambda>(k, v). (k, json_sorted v)) (map (\<lambda>(k, v). (k, json_sorted v)) (sort_key fst d))
      = map (\<lambda>(k, v). (k, json_sorted v)) (sort_key fst d)"
    by auto
  moreover have "sort_key fst (map (\<lambda>(k, v). (k, json_sorted v)) (sort_key fst d)) =
      map (\<lambda>(k, v). (k, json_sorted v)) (sort_key fst d)"
    by (rule sort_key_twice) auto
  ultimately show ?case by (simp only: json_sorted_dict)
qed simp_all

lemma json_text_sorted: "json_text l (json_sorted v) = json_text l v"
proof (induction v arbitrary: l)
  case (JList xs)
  then have "map (json_text (deeper l)) (map json_sorted xs) = map (json_text (deeper l)) xs"
    by simp
  then show ?case by (simp add: bracketed_def del: map_map)
next
  case (JDict d)
  have "json_text (deeper l) (json_sorted w) = json_text (deeper l) w" if "(k, w) \<in> set d" for k w
    using that JDict by force
  then have "map (\<lambda>(k, v). (k, json_text (deeper l) v)) (map (\<lambda>(k, v). (k, json_sorted v)) (sort_key fst d))
      = map (\<lambda>(k, v). (k, json_text (deeper l) v)) (sort_key fst d)"
    by auto
  moreover have "sort_key fst (map (\<lambda>(k, v). (k, json_text (deeper l) v)) d) =
      map (\<lambda>(k, v). (k, json_text (deeper l) v)) (sort_key fst d)"
    by (rule map_key_sort) auto
  moreover have "sort_key fst (map (\<lambda>(k, v). (k, json_text (deeper l) v)) (sort_key fst d)) =
      map (\<lambda>(k, v). (k, json_text (deeper l) v)) (sort_key fst d)"
    by (rule sort_key_twice) auto
  ultimately show ?case by (simp only: json_sorted_dict json_text.simps)
qed simp_all

section \<open>The fuel is enough\<close>

lemma scan_number_length: "scan_number s = Inr (v, r) \<Longrightarrow> length r < length s"
proof -
  assume s: "scan_number s = Inr (v, r)"
  have d: "length t < length u" if "scan_digits u = Some (ds, t)" for u ds t
    using that length_dropWhile_le [of is_ascii_digit "tl u"]
    by (auto simp: scan_digits_def split: list.splits if_splits)
  from s show ?thesis
    by (auto simp: scan_number_def split: list.splits option.splits if_splits dest!: d)
qed

lemma scan_word_length: "scan_word s = Some (v, r) \<Longrightarrow> length r < length s"
  by (auto simp: scan_word_def startswith_def lit_def prefix_def split: if_splits)

lemma skip_space_length: "length (skip_space s) \<le> length s"
  by (simp add: skip_space_def length_dropWhile_le)

definition consumes :: "(pystr \<Rightarrow> ('a \<times> pystr) result) \<Rightarrow> bool" where
  "consumes f \<longleftrightarrow> (\<forall>s x r. f s = Inr (x, r) \<longrightarrow> length r < length s)"

lemma consumes_space:
  assumes "consumes f" and "f (skip_space s) = Inr (x, r)"
  shows "length r < length s"
  using assms skip_space_length [of s] unfolding consumes_def by (meson less_le_trans)

lemma consumes_D: "consumes f \<Longrightarrow> f s = Inr (x, r) \<Longrightarrow> length r < length s"
  unfolding consumes_def by blast

lemma tl_space_less: "skip_space r \<noteq> [] \<Longrightarrow> length (tl (skip_space r)) < length r"
  using skip_space_length [of r] by (cases "skip_space r") auto

lemma consumes_value_step:
  assumes "consumes (scan_items n)" and "consumes (scan_members n)"
  shows "consumes (scan_value (Suc n))"
  unfolding consumes_def
proof (intro allI impI)
  fix s v r
  assume s: "scan_value (Suc n) s = Inr (v, r)"
  then obtain c cs where cs: "s = c # cs" by (cases s) auto
  note sub = consumes_space [OF assms(1), of cs] consumes_space [OF assms(2), of cs]
    tl_space_less [of cs] scan_string_length [of cs]
    scan_word_length [of "c # cs"] scan_number_length [of "c # cs"]
  from s show "length r < length s"
    by (auto simp: cs Let_def split: if_splits option.splits dest!: sub)
qed

lemma consumes_items_step:
  assumes "consumes (scan_value n)" and "consumes (scan_items n)"
  shows "consumes (scan_items (Suc n))"
  unfolding consumes_def
proof (intro allI impI)
  fix s xs r
  assume "scan_items (Suc n) s = Inr (xs, r)"
  then obtain x t where x: "scan_value n s = Inr (x, t)" "skip_space t \<noteq> []"
    and r: "r = tl (skip_space t) \<or>
      (\<exists>ys. scan_items n (skip_space (tl (skip_space t))) = Inr (ys, r))"
    by (auto simp: Let_def split: if_splits)
  from r have "length r < length t"
    using tl_space_less [OF x(2)] consumes_space [OF assms(2)] by (meson less_trans)
  with consumes_D [OF assms(1) x(1)] show "length r < length s" by simp
qed

lemma consumes_members_step:
  assumes "consumes (scan_value n)" and "consumes (scan_members n)"
  shows "consumes (scan_members (Suc n))"
  unfolding consumes_def
proof (intro allI impI)
  fix s d r
  assume "scan_members (Suc n) s = Inr (d, r)"
  then obtain c cs k t v t' where s: "s = c # cs" "scan_string cs = Inr (k, t)" "skip_space t \<noteq> []"
      "scan_value n (skip_space (tl (skip_space t))) = Inr (v, t')" "skip_space t' \<noteq> []"
    and r: "r = tl (skip_space t') \<or>
      (\<exists>e. scan_members n (skip_space (tl (skip_space t'))) = Inr (e, r))"
    by (cases s) (auto simp: Let_def split: if_splits)
  from r have "length r < length t'"
    using tl_space_less [OF s(5)] consumes_space [OF assms(2)] by (meson less_trans)
  moreover have "length t' < length t"
    using tl_space_less [OF s(3)] consumes_space [OF assms(1) s(4)] by simp
  moreover have "length t < length cs" by (rule scan_string_length [OF s(2)])
  ultimately show "length r < length s" by (simp add: s(1))
qed

lemma scan_consumes: "consumes (scan_value n) \<and> consumes (scan_items n) \<and> consumes (scan_members n)"
proof (induction n)
  case 0
  then show ?case by (simp add: consumes_def)
next
  case (Suc n)
  then show ?case
    by (simp add: consumes_value_step consumes_items_step consumes_members_step
        del: scan_value.simps scan_items.simps scan_members.simps)
qed

text \<open>One more unit of fuel changes nothing once there is enough for the length of the text.\<close>

definition settled :: "nat \<Rightarrow> bool" where
  "settled n \<longleftrightarrow>
     (\<forall>s. 2 * length s + 1 \<le> n \<longrightarrow> scan_value (Suc n) s = scan_value n s) \<and>
     (\<forall>s. 2 * length s + 2 \<le> n \<longrightarrow> scan_items (Suc n) s = scan_items n s) \<and>
     (\<forall>s. 2 * length s + 2 \<le> n \<longrightarrow> scan_members (Suc n) s = scan_members n s)"

lemma settled_value_step:
  assumes "settled n" and "2 * length s + 1 \<le> Suc n"
  shows "scan_value (Suc (Suc n)) s = scan_value (Suc n) s"
proof (cases s)
  case (Cons c cs)
  have "2 * length (skip_space cs) + 2 \<le> n"
    using assms(2) skip_space_length [of cs] by (simp add: Cons)
  then have "scan_items (Suc n) (skip_space cs) = scan_items n (skip_space cs)"
    "scan_members (Suc n) (skip_space cs) = scan_members n (skip_space cs)"
    using assms(1) by (auto simp: settled_def)
  then show ?thesis
    unfolding Cons scan_value.simps(3) [of "Suc n" c cs] scan_value.simps(3) [of n c cs]
    by (simp only: Let_def)
qed simp

lemma settled_items_step:
  assumes "settled n" and "2 * length s + 2 \<le> Suc n"
  shows "scan_items (Suc (Suc n)) s = scan_items (Suc n) s"
proof -
  have v: "scan_value (Suc n) s = scan_value n s" using assms by (auto simp: settled_def)
  have i: "scan_items (Suc n) (skip_space (tl (skip_space r))) =
      scan_items n (skip_space (tl (skip_space r)))"
    if "scan_value n s = Inr (x, r)" "skip_space r \<noteq> []" for x r
  proof -
    have "length r < length s" using that(1) scan_consumes consumes_D by metis
    moreover have "length (skip_space (tl (skip_space r))) < length r"
      using tl_space_less [OF that(2)] skip_space_length [of "tl (skip_space r)"] by linarith
    ultimately have "2 * length (skip_space (tl (skip_space r))) + 2 \<le> n"
      using assms(2) by linarith
    then show ?thesis using assms(1) by (simp add: settled_def)
  qed
  show ?thesis
    unfolding scan_items.simps(2) [of "Suc n" s] scan_items.simps(2) [of n s] v
    by (rule bindE_cong) (auto simp: Let_def i simp del: scan_items.simps)
qed

lemma settled_members_step:
  assumes "settled n" and "2 * length s + 2 \<le> Suc n"
  shows "scan_members (Suc (Suc n)) s = scan_members (Suc n) s"
proof (cases s)
  case (Cons c cs)
  have v: "scan_value (Suc n) (skip_space (tl (skip_space t))) =
      scan_value n (skip_space (tl (skip_space t)))" (is ?v)
    and m: "scan_value n (skip_space (tl (skip_space t))) = Inr (x, r) \<Longrightarrow> skip_space r \<noteq> [] \<Longrightarrow>
      scan_members (Suc n) (skip_space (tl (skip_space r))) =
      scan_members n (skip_space (tl (skip_space r)))"
    if "scan_string cs = Inr (k, t)" "skip_space t \<noteq> []" for k t x r
  proof -
    have l: "length (skip_space (tl (skip_space t))) < length cs"
      using scan_string_length [OF that(1)] tl_space_less [OF that(2)]
        skip_space_length [of "tl (skip_space t)"] by linarith
    then show ?v using assms by (simp add: settled_def Cons)
    assume r: "scan_value n (skip_space (tl (skip_space t))) = Inr (x, r)" "skip_space r \<noteq> []"
    have "length r < length (skip_space (tl (skip_space t)))"
      using r(1) scan_consumes consumes_D by metis
    then have "2 * length (skip_space (tl (skip_space r))) + 2 \<le> n"
      using l tl_space_less [OF r(2)] skip_space_length [of "tl (skip_space r)"] assms(2)
      by (simp add: Cons)
    then show "scan_members (Suc n) (skip_space (tl (skip_space r))) =
        scan_members n (skip_space (tl (skip_space r)))"
      using assms(1) by (simp add: settled_def)
  qed
  show ?thesis
    unfolding Cons scan_members.simps(3) [of "Suc n" c cs] scan_members.simps(3) [of n c cs]
    by (auto simp: Let_def v m simp del: scan_members.simps scan_value.simps
        intro!: bindE_cong)
qed simp

lemma scan_settled: "settled n"
proof (induction n)
  case (Suc n)
  then show ?case
    unfolding settled_def [of "Suc n"]
    by (auto intro: settled_value_step settled_items_step settled_members_step
        simp del: scan_value.simps scan_items.simps scan_members.simps)
qed (simp add: settled_def)

lemma scan_value_fuel:
  assumes "2 * length s + 1 \<le> n"
  shows "scan_value n s = scan_value (2 * length s + 1) s"
  using assms
proof (induction n rule: dec_induct)
  case (step m)
  then show ?case
    using scan_settled [of m] by (simp add: settled_def del: scan_value.simps)
qed simp

declare json_sorted.simps(2) [simp del]

end
