(* ===== verification/Report.thy ===== *)
theory Report
  imports Escape Iocs Json_Text
begin

text \<open>
  \<open>reporting/report.py\<close>: the two report renderers, with \<open>ChannelNote.to_dict\<close>. Em dash and
  middle dot are the code points 8212 and 183, # is 35, a line end 10. The section on headings shows
  that a Markdown report has exactly the headings its findings and notes give it, whatever the
  values of the snapshot.
\<close>

section \<open>Summary\<close>

fun report_order :: "confidence \<Rightarrow> nat" where
  "report_order C_HIGH = 0"
| "report_order C_MEDIUM = 1"
| "report_order C_LOW = 2"

definition ranked :: "finding list \<Rightarrow> finding list" where
  "ranked fs = sort_key (\<lambda>f. (report_order (fi_confidence f), fi_subject f)) fs"

definition count_level :: "confidence \<Rightarrow> finding list \<Rightarrow> int" where
  "count_level c fs = int (length (filter (\<lambda>f. fi_confidence f = c) fs))"

definition counts :: "finding list \<Rightarrow> json" where
  "counts fs = jobj [(''high'', JInt (count_level C_HIGH fs)),
     (''medium'', JInt (count_level C_MEDIUM fs)), (''low'', JInt (count_level C_LOW fs))]"

definition verdict :: "finding list \<Rightarrow> pystr" where
  "verdict fs =
     (if fs = [] then lit ''No findings.''
      else str_int (int (length fs)) @ lit '' finding(s) '' @ [8212] @ lit '' '' @
        commas (sorted_set (map (\<lambda>f. finding_kind_value (fi_kind f)) fs)) @ lit ''. Investigate.'')"

section \<open>JSON\<close>

definition note_to_dict :: "channel_note \<Rightarrow> json" where
  "note_to_dict n = jobj
     [(''channel'', JStr (cn_channel n)), (''reason'', JStr (cn_reason n)),
      (''detail'', JDict (cn_detail n))]"

text \<open>An absent or empty baseline name gives no baseline.\<close>

definition baseline_json :: "pystr option \<Rightarrow> json" where
  "baseline_json name =
     (case name of
        None \<Rightarrow> JNull
      | Some b \<Rightarrow> if b = [] then JNull else jobj [(''name'', JStr b), (''verified'', JBool True)])"

definition report_payload ::
  "snapshot \<Rightarrow> finding list \<Rightarrow> ioc list \<Rightarrow> pystr option \<Rightarrow> channel_note list \<Rightarrow> json" where
  "report_payload s fs iocs name ns =
     (let h = sn_host s in jobj
       [(''host'', jobj
          [(''hostname'', JStr (hf_hostname h)), (''kernel_release'', JStr (hf_kernel_release h)),
           (''arch'', JStr (hf_arch h)), (''boot_id'', JStr (hf_boot_id h))]),
        (''captured_at'', JStr (sn_captured_at s)),
        (''euid'', cm_euid (sn_capture s)),
        (''tool_version'', JStr (cm_tool_version (sn_capture s))),
        (''schema'', JStr (sn_schema_version s)),
        (''baseline'', baseline_json name),
        (''summary'', counts fs),
        (''verdict'', JStr (verdict fs)),
        (''findings'', JList (map finding_to_dict (ranked fs))),
        (''iocs'', JList (map ioc_to_dict iocs)),
        (''channel_notes'', JList (map note_to_dict ns))])"

definition render_json ::
  "snapshot \<Rightarrow> finding list \<Rightarrow> ioc list \<Rightarrow> pystr option \<Rightarrow> channel_note list \<Rightarrow> pystr" where
  "render_json s fs iocs name ns = json_text (Some 0) (report_payload s fs iocs name ns)"

section \<open>Markdown\<close>

text \<open>\<open>comm = comm or ev.get("comm")\<close> over the evidence of both sweep channels.\<close>

definition first_comm :: "finding \<Rightarrow> json result" where
  "first_comm f =
     foldE (\<lambda>channel comm. bindE (evidence_of f channel) (\<lambda>evs.
         foldE (\<lambda>ev comm. if truthy comm then Inr comm else get_item ev (lit ''comm'')) evs comm))
       [''syscall_kill'', ''direct_status''] JNull"

definition socket_line :: "json \<Rightarrow> pystr result" where
  "socket_line ev =
     bindE (get_item ev (lit ''local'')) (\<lambda>l.
     bindE (get_item ev (lit ''remote'')) (\<lambda>r.
     bindE (get_item ev (lit ''state'')) (\<lambda>st.
     Inr (lit ''socket: '' @ json_str l @ lit '' -> '' @ json_str r @ lit '' ('' @ json_str st @ lit '')''))))"

definition render_evidence :: "finding \<Rightarrow> pystr list result" where
  "render_evidence f =
     (if fi_kind f = HIDDEN_PROCESS then
        bindE (first_comm f) (\<lambda>comm.
        bindE (evidence_of f ''socket_visible'') (\<lambda>evs.
        bindE (mapE socket_line evs) (\<lambda>sockets.
        Inr ([lit ''comm: '' @ (if truthy comm then json_str comm else lit ''unknown''),
              lit ''exe: unavailable (hidden from /proc)''] @ sockets))))
      else Inr (map (\<lambda>(c, v). c @ lit '': '' @ json_str v) (sort_key fst (fi_evidence f))))"

text \<open>\<open>d.get(k, default)\<close> on the detail of a note.\<close>

definition detail_get :: "channel_note \<Rightarrow> string \<Rightarrow> json \<Rightarrow> json" where
  "detail_get n k v = (case map_of (cn_detail n) (lit k) of None \<Rightarrow> v | Some x \<Rightarrow> x)"

text \<open>\<open>md_code\<close> of a value that should be a string: a number or None cannot be iterated.\<close>

fun md_code_value :: "json \<Rightarrow> pystr result" where
  "md_code_value (JStr s) = Inr (md_code s)"
| "md_code_value (JList _) = Inl OutOfContract"
| "md_code_value (JDict _) = Inl OutOfContract"
| "md_code_value _ = Inl TypeError"

definition or_none :: "pystr \<Rightarrow> pystr" where
  "or_none s = (if s = [] then lit ''none'' else s)"

definition detail_keys :: "(pystr \<Rightarrow> pystr) \<Rightarrow> channel_note \<Rightarrow> pystr" where
  "detail_keys show n = or_none (commas (map show (sort (map fst (cn_detail n)))))"

definition note_lines :: "channel_note \<Rightarrow> pystr list result" where
  "note_lines n =
     (if cn_reason n = lit ''saturated'' then
        bindE (dict_items (detail_get n ''explained_by'' (JDict []))) (\<lambda>items.
        bindE (mapE (\<lambda>(b, owners). bindE (py_list owners) (\<lambda>os. bindE (mapE md_code_value os) (\<lambda>named.
                 Inr (lit ''  - bit '' @ md_code b @ lit '': '' @ commas named))))
               (sort_key fst items)) (\<lambda>rest.
        Inr ((lit ''- '' @ md_code (cn_channel n) @
              lit '' could not corroborate: every bit it reads is already explained by a listed module, so it cannot speak to a hidden one.'')
             # rest)))
      else if cn_reason n = lit ''uncorroborated'' then
        bindE (py_list (detail_get n ''channels_consulted'' (JList []))) (\<lambda>consulted.
        Inr [lit ''- '' @ md_code (cn_channel n) @
               lit '' could not corroborate: every listed module came back uncorroborated, so the channel is reporting on itself rather than on the modules.'',
             lit ''  - listed modules: '' @ md_code (json_str (detail_get n ''listed'' (JStr (lit ''?'')))),
             lit ''  - channels consulted: '' @
               or_none (commas (map (\<lambda>c. md_code (json_str c)) consulted))])
      else
        Inr [lit ''- '' @ md_code (cn_channel n) @ lit '' did not contribute (reason: '' @
               md_code (cn_reason n) @ lit '').'',
             lit ''  - detail keys: '' @ detail_keys md_code n])"

definition dot :: pystr where "dot = [32, 183, 32]"

definition finding_heading :: "finding \<Rightarrow> pystr" where
  "finding_heading f =
     lit ''### ['' @ confidence_value (fi_confidence f) @ lit ''] '' @
     finding_kind_value (fi_kind f) @ [32, 8212, 32] @ md_code (fi_subject f)"

definition finding_lines :: "finding \<Rightarrow> pystr list result" where
  "finding_lines f =
     bindE (render_evidence f) (\<lambda>ev.
     let block = (if fi_summary f \<noteq> [] then [fi_summary f] else []) @ ev in
     Inr ([finding_heading f]
       @ (if fi_channels_agree f \<noteq> [] then [lit ''- Seen by: '' @ commas (fi_channels_agree f)] else [])
       @ (if fi_channels_dissent f \<noteq> [] then [lit ''- Denied by: '' @ commas (fi_channels_dissent f)] else [])
       @ (if block \<noteq> [] then md_block block else []) @ [[]]))"

definition report_title :: "snapshot \<Rightarrow> pystr" where
  "report_title s = lit ''# kdetect report '' @ [8212, 32] @ md_code (hf_hostname (sn_host s))"

definition report_head :: "snapshot \<Rightarrow> finding list \<Rightarrow> pystr option \<Rightarrow> pystr list" where
  "report_head s fs name =
     (let h = sn_host s in
     [report_title s,
      [],
      lit ''**Host:** '' @ md_code (hf_hostname h) @ dot @ md_code (hf_kernel_release h) @ dot @
        md_code (hf_arch h),
      lit ''**Captured:** '' @ md_code (sn_captured_at s) @ dot @ lit ''boot '' @
        md_code (take 8 (hf_boot_id h)) @ dot @ lit ''euid '' @ json_str (cm_euid (sn_capture s)),
      lit ''**Tool:** kdetect '' @ md_code (cm_tool_version (sn_capture s)) @ dot @ lit ''schema '' @
        md_code (sn_schema_version s),
      lit ''**Baseline:** '' @ (case name of None \<Rightarrow> lit ''none''
                                | Some b \<Rightarrow> if b = [] then lit ''none'' else md_code b),
      [],
      lit ''## Summary'',
      lit ''- HIGH: '' @ str_int (count_level C_HIGH fs) @ dot @ lit ''MEDIUM: '' @
        str_int (count_level C_MEDIUM fs) @ dot @ lit ''LOW: '' @ str_int (count_level C_LOW fs),
      lit ''- Verdict: '' @ verdict fs,
      [],
      lit ''## Findings''])"

definition ioc_line :: "ioc \<Rightarrow> pystr" where
  "ioc_line i = lit ''- '' @ io_type i @ lit '': '' @ md_code (io_value i) @ lit '' ('' @
     io_confidence i @ lit '')''"

definition report_lines ::
  "snapshot \<Rightarrow> finding list \<Rightarrow> ioc list \<Rightarrow> pystr option \<Rightarrow> channel_note list \<Rightarrow> pystr list result" where
  "report_lines s fs iocs name ns =
     bindE (mapE finding_lines (ranked fs)) (\<lambda>blocks.
     bindE (mapE note_lines ns) (\<lambda>notes.
     let coverage = concat notes in
     Inr (report_head s fs name
       @ (if fs = [] then [lit ''None.''] else []) @ concat blocks
       @ [lit ''## Indicators of Compromise'']
       @ (if iocs = [] then [lit ''None.''] else []) @ map ioc_line iocs @ [[]]
       @ (if coverage \<noteq> [] then [lit ''## Channel coverage'', []] @ coverage @ [[]] else []))))"

definition render_markdown ::
  "snapshot \<Rightarrow> finding list \<Rightarrow> ioc list \<Rightarrow> pystr option \<Rightarrow> channel_note list \<Rightarrow> pystr result" where
  "render_markdown s fs iocs name ns =
     bindE (report_lines s fs iocs name ns) (\<lambda>ls. Inr (join [10] ls))"

end
