(* ===== verification/Snapshot_Text.thy ===== *)
theory Snapshot_Text
  imports Json_Text Snapshot_Props
begin

text \<open>
  \<open>Snapshot.to_json\<close>: the text of a snapshot file, and what comes back when that text is parsed and
  decoded. Sorting the keys of every object reorders the entities, so the reloaded snapshot has them
  in the order of their keys as text; writing it again gives the same bytes.
\<close>

definition snapshot_to_json :: "bool \<Rightarrow> snapshot \<Rightarrow> pystr result" where
  "snapshot_to_json pretty s =
     bindE (snapshot_to_dict s) (\<lambda>d. Inr (json_text (if pretty then Some 0 else None) d))"

section \<open>Decoders do not see the order of keys\<close>

lemma map_of_sorted:
  assumes "distinct (map fst d)"
  shows "map_of (sort_key fst d) k = map_of d k"
proof -
  have "distinct (map fst (sort_key fst d))"
    using assms distinct_sort [of "\<lambda>k. k" "map fst d"] map_key_sort [of "\<lambda>k. k" fst fst d] by simp
  then have "map_of (sort_key fst d) = map_of d"
    using assms by (simp add: map_of_inject_set)
  then show ?thesis by simp
qed

lemma item_sorted:
  "distinct (map fst d) \<Longrightarrow>
   item (json_sorted (JDict d)) k = bindE (item (JDict d) k) (\<lambda>v. Inr (json_sorted v))"
  by (simp add: json_sorted_dict map_of_map map_of_sorted
      split: option.split)

lemma get_item_sorted:
  "distinct (map fst d) \<Longrightarrow>
   get_item (json_sorted (JDict d)) k = bindE (get_item (JDict d) k) (\<lambda>v. Inr (json_sorted v))"
  by (simp add: json_sorted_dict map_of_map map_of_sorted
      split: option.split)

lemma distinct_ldict [simp]: "distinct (map fst (ldict kvs)) \<longleftrightarrow> distinct (map (\<lambda>kv. lit (fst kv)) kvs)"
  by (simp add: ldict_def case_prod_unfold comp_def)

lemma fld_sorted:
  "distinct (map (\<lambda>kv. lit (fst kv)) kvs) \<Longrightarrow>
   fld (json_sorted (jobj kvs)) k conv = bindE (item (jobj kvs) (lit k)) (\<lambda>v. conv (json_sorted v))"
  by (simp add: fld_def jobj_def item_sorted bindE_def del: item.simps split: sum.split)

lemma item_jobj_sorted:
  "distinct (map (\<lambda>kv. lit (fst kv)) kvs) \<Longrightarrow>
   item (json_sorted (jobj kvs)) k = bindE (item (jobj kvs) k) (\<lambda>v. Inr (json_sorted v))"
  by (simp add: jobj_def item_sorted del: item.simps)

lemma get_item_jobj_sorted:
  "distinct (map (\<lambda>kv. lit (fst kv)) kvs) \<Longrightarrow>
   get_item (json_sorted (jobj kvs)) k = bindE (get_item (jobj kvs) k) (\<lambda>v. Inr (json_sorted v))"
  by (simp add: jobj_def get_item_sorted del: get_item.simps)

lemma json_sorted_flat [simp]:
  "json_sorted (ints_json xs) = ints_json xs"
  "json_sorted (strs_json ss) = strs_json ss"
  "json_sorted (opt_json JStr t) = opt_json JStr t"
  "json_sorted (opt_json JInt i) = opt_json JInt i"
  "json_sorted (opt_json ints_json ys) = opt_json ints_json ys"
  "json_sorted (eid_json k) = eid_json k"
  by (cases t; cases i; cases ys; cases k; simp add: ints_json_def strs_json_def opt_json_def)+

text \<open>The contract of a class whose encoding is stored as text.\<close>

locale text_codec = json_codec enc dec norm
  for enc :: "'a \<Rightarrow> json" and dec :: "json \<Rightarrow> 'a result" and norm :: "'a \<Rightarrow> 'a" +
  assumes dec_sorted: "dec (json_sorted (enc x)) = Inr (norm x)"
begin

lemma list_of_dec_sorted: "list_of dec (json_sorted (JList (map enc xs))) = Inr (map norm xs)"
  by (induction xs) (simp_all add: list_of_def dec_sorted)

lemma dec_text:
  assumes "json_ok (enc x)"
  shows "bindE (loads (json_text l (enc x) @ replicate m 10)) dec = Inr (norm x)"
  by (simp add: loads_json_text [OF assms] dec_sorted)

end

interpretation error_text: text_codec error_to_dict error_from_dict "\<lambda>e. e"
  by unfold_locales (simp add: error_to_dict_def error_from_dict_def fld_sorted)

interpretation process_text: text_codec process_to_dict process_from_dict
  "\<lambda>p. p\<lparr>pe_partial := sort (pe_partial p)\<rparr>"
  by unfold_locales (simp add: process_to_dict_def process_from_dict_def fld_sorted)

interpretation sweep_text: text_codec sweep_to_dict sweep_from_dict "\<lambda>e. e"
  by unfold_locales
    (simp add: sweep_to_dict_def sweep_from_dict_def fld_sorted get_item_jobj_sorted)

interpretation module_text: text_codec module_to_dict module_from_dict "\<lambda>m. m"
  by unfold_locales (simp add: module_to_dict_def module_from_dict_def fld_sorted)

interpretation hook_text: text_codec hook_to_dict hook_from_dict "\<lambda>h. h"
  by unfold_locales (simp add: hook_to_dict_def hook_from_dict_def fld_sorted)

interpretation socket_text: text_codec socket_to_dict socket_from_dict
  "\<lambda>e. e\<lparr>so_owner_pids := sort (so_owner_pids e)\<rparr>"
  by unfold_locales (simp add: socket_to_dict_def socket_from_dict_def fld_sorted)

interpretation host_text: text_codec host_to_dict host_from_dict "\<lambda>h. h"
  by unfold_locales (simp add: host_to_dict_def host_from_dict_def fld_sorted)

lemma entity_text:
  "entity_class_of e = c \<Longrightarrow>
   entity_from_dict c (json_sorted (entity_to_dict e)) = Inr (entity_norm e)"
  by (cases e) (auto simp: process_text.dec_sorted sweep_text.dec_sorted module_text.dec_sorted
      hook_text.dec_sorted socket_text.dec_sorted)

section \<open>The reloaded snapshot\<close>

definition items_filed :: "(pystr \<times> json) list \<Rightarrow> (pystr \<times> json) list" where
  "items_filed d = map (\<lambda>(k, v). (k, json_sorted v)) (sort_key fst d)"

definition entities_filed :: "(eid \<times> entity) list \<Rightarrow> (eid \<times> entity) list" where
  "entities_filed es = entities_norm (sort_key (\<lambda>e. eid_str (fst e)) es)"

definition observation_filed :: "observation \<Rightarrow> observation" where
  "observation_filed o' =
     o'\<lparr>ob_entity_ids := sort (ob_entity_ids o'), ob_entities := entities_filed (ob_entities o'),
        ob_stats := items_filed (ob_stats o'), ob_extra := map_option items_filed (ob_extra o'),
        ob_duration_ms := json_sorted (ob_duration_ms o')\<rparr>"

definition capture_filed :: "capture_meta \<Rightarrow> capture_meta" where
  "capture_filed c = c\<lparr>cm_euid := json_sorted (cm_euid c)\<rparr>"

lemma capture_filed [simp]:
  "capture_from_dict (json_sorted (capture_to_dict c)) = Inr (capture_filed c)"
  "json_sorted (capture_to_dict (capture_filed c)) = json_sorted (capture_to_dict c)"
  by (simp_all add: capture_to_dict_def capture_from_dict_def fld_sorted capture_filed_def)
    (simp_all add: jobj_def ldict_def json_sorted.simps(2) json_sorted_idem)

definition snapshot_filed :: "snapshot \<Rightarrow> snapshot" where
  "snapshot_filed s =
     s\<lparr>sn_observations := map observation_filed (sn_observations s),
       sn_capture := capture_filed (sn_capture s)\<rparr>"

lemma entities_ok_sorted: "entities_ok c (sort_key f es) \<longleftrightarrow> entities_ok c es"
proof -
  have "distinct (map fst (sort_key f es)) \<longleftrightarrow> distinct (map fst es)"
    by (metis mset_map mset_sort mset_eq_imp_distinct_iff)
  then show ?thesis by (simp add: entities_ok_def list_all_iff)
qed

lemma entities_norm_ok [simp]: "entities_ok c (entities_norm es) \<longleftrightarrow> entities_ok c es"
  by (auto simp: entities_ok_def entities_norm_def list_all_iff case_prod_unfold comp_def)

lemma entities_json_sorted:
  assumes "entities_ok c es"
  shows "json_sorted (entities_json es) =
     JDict (map (\<lambda>(k, e). (eid_str k, json_sorted (entity_to_dict e)))
       (sort_key (\<lambda>e. eid_str (fst e)) es))"
proof -
  have "sort_key fst (map (\<lambda>(k, e). (eid_str k, entity_to_dict e)) es) =
      map (\<lambda>(k, e). (eid_str k, entity_to_dict e)) (sort_key (\<lambda>e. eid_str (fst e)) es)"
    by (rule map_key_sort) auto
  then show ?thesis
    by (simp add: entities_json_ok [OF assms] json_sorted_dict case_prod_unfold comp_def)
qed

lemma entities_reload:
  assumes ok: "entities_ok collector es" and ne: "entity_types collector = Some c"
  shows "entities_from_dict collector (json_sorted (entities_json es)) = Inr (entities_filed es)"
proof -
  let ?es = "sort_key (\<lambda>e. eid_str (fst e)) es"
  have ok': "entities_ok collector ?es" using ok by (simp add: entities_ok_sorted)
  have "mapE (\<lambda>(k, e). bindE (cast_id collector k) (\<lambda>i.
            bindE (entity_from_dict c e) (\<lambda>x. Inr (i, x))))
          (map (\<lambda>(k, e). (eid_str k, json_sorted (entity_to_dict e))) ?es)
        = Inr (map (\<lambda>(k, e). (k, entity_norm e)) ?es)"
    unfolding mapE_map
  proof (rule mapE_total, clarsimp)
    fix k e
    assume "(k, e) \<in> set es"
    then have "key_ok collector k" and "entity_class_of e = c"
      using ok ne by (auto simp: entities_ok_def list_all_iff)
    then show "bindE (cast_id collector (eid_str k)) (\<lambda>i. bindE (entity_from_dict c
        (json_sorted (entity_to_dict e))) (\<lambda>x. Inr (i, x))) = Inr (k, entity_norm e)"
      by (simp add: cast_id_eid_str entity_text)
  qed
  moreover have "distinct (map fst (entities_norm ?es))"
    using ok' entities_norm_ok [of collector ?es] by (simp add: entities_ok_def)
  then have "dict_of fst snd (entities_norm ?es) = entities_norm ?es" by (simp add: dict_of_fresh)
  ultimately show ?thesis
    using ne by (simp add: entities_from_dict_def entities_json_sorted [OF ok] entities_filed_def
        entities_norm_def)
qed

lemma entities_refiled:
  assumes "entities_ok c es"
  shows "json_sorted (entities_json (entities_filed es)) = json_sorted (entities_json es)"
proof -
  have "sort_key (\<lambda>e. eid_str (fst e)) (entities_filed es) = entities_filed es"
    by (rule sort_key_sorted)
      (simp add: entities_filed_def entities_norm_def case_prod_unfold comp_def)
  moreover have "entities_ok c (entities_filed es)"
    using assms by (simp add: entities_filed_def entities_ok_sorted)
  ultimately show ?thesis
    using assms by (simp add: entities_json_sorted entities_filed_def entities_norm_def
        case_prod_unfold comp_def)
qed

text \<open>The members of an encoded observation that are always there, in the order of the code.\<close>

lemma observation_reload:
  assumes ok: "observation_ok o'" and d: "observation_to_dict o' = Inr d"
  shows "observation_from_dict (json_sorted d) = Inr (observation_filed o')"
proof -
  have ids: "sort_ids (ob_entity_ids o') = Inr (sort (ob_entity_ids o'))"
    using ok by (simp add: observation_ok_def sort_ids_def)
  have ents: "(if entity_types (ob_collector o') = None then Inr []
      else entities_from_dict (ob_collector o') (json_sorted (entities_json (ob_entities o'))))
      = Inr (entities_filed (ob_entities o'))"
    using ok entities_reload entities_ok_none
    by (auto simp: observation_ok_def entities_filed_def entities_norm_def)
  have idl: "list_of as_eid (json_sorted (JList (map eid_json xs))) = Inr xs" for xs
    using list_of_as_eid [of xs] by (simp add: comp_def)
  have items: "json_sorted (JDict x) = JDict (items_filed x)" for x
    by (simp add: json_sorted_dict items_filed_def)
  note els = error_text.list_of_dec_sorted [of "ob_errors o'"]
  obtain kvs where kvs: "d = jobj kvs" "distinct (map (\<lambda>kv. lit (fst kv)) kvs)"
    using d by (cases "ob_pass o'"; cases "ob_extra o'")
      (auto simp: observation_to_dict_def ids)
  have flds: "fld (json_sorted d) k conv = bindE (item d (lit k)) (\<lambda>v. conv (json_sorted v))"
    for k and conv :: "json \<Rightarrow> 'b result"
    using kvs fld_sorted by simp
  have gets: "get_item (json_sorted d) k = bindE (get_item d k) (\<lambda>v. Inr (json_sorted v))" for k
    using kvs get_item_jobj_sorted by simp
  note dd = d [unfolded observation_to_dict_def ids bindE_Inr sum.inject, symmetric]
  show ?thesis
    using ents els idl [of "sort (ob_entity_ids o')"]
    unfolding observation_from_dict_def flds gets
    by (cases "ob_pass o'"; cases "ob_extra o'")
      (auto simp: dd opt_of_def observation_filed_def items simp del: json_sorted.simps(1)
        split: if_splits)
qed

lemma jobj_sorted_cong:
  assumes "map (\<lambda>(k, v). (k, json_sorted v)) kvs = map (\<lambda>(k, v). (k, json_sorted v)) kvs'"
  shows "json_sorted (jobj kvs) = json_sorted (jobj kvs')"
proof -
  have "map (\<lambda>(k, v). (k, json_sorted v)) (ldict l) =
      map (\<lambda>(k, v). (lit k, v)) (map (\<lambda>(k, v). (k, json_sorted v)) l)" for l
    by (simp add: ldict_def case_prod_unfold comp_def)
  then show ?thesis using assms by (simp add: jobj_def json_sorted.simps(2) del: map_map)
qed

lemma observation_refiled:
  assumes ok: "observation_ok o'" and d: "observation_to_dict o' = Inr d"
  shows "\<exists>d'. observation_to_dict (observation_filed o') = Inr d' \<and> json_sorted d' = json_sorted d"
proof -
  have ids: "sort_ids (ob_entity_ids o') = Inr (sort (ob_entity_ids o'))"
    "sort_ids (sort (ob_entity_ids o')) = Inr (sort (ob_entity_ids o'))"
    using ok by (auto simp: observation_ok_def sort_ids_def list_all_iff)
  have ents: "json_sorted (entities_json (entities_filed (ob_entities o'))) =
      json_sorted (entities_json (ob_entities o'))"
    using ok entities_refiled by (auto simp: observation_ok_def)
  have items: "json_sorted (JDict (items_filed x)) = json_sorted (JDict x)" for x
    using json_sorted_idem [of "JDict x"] by (simp add: json_sorted_dict items_filed_def)
  show ?thesis
    using d by (cases "ob_pass o'"; cases "ob_extra o'")
      (auto simp: observation_to_dict_def observation_filed_def ids ents items json_sorted_idem
        intro!: jobj_sorted_cong)
qed

lemma mapE_refiled:
  assumes "list_all2 (\<lambda>x y. f x = Inr y) xs ys"
    and "\<And>x y. x \<in> set xs \<Longrightarrow> f x = Inr y \<Longrightarrow> \<exists>y'. f (g x) = Inr y' \<and> h y' = h y"
  shows "\<exists>ys'. mapE f (map g xs) = Inr ys' \<and> map h ys' = map h ys"
  using assms
proof (induction rule: list_all2_induct)
  case (Cons x xs y ys)
  then obtain ys' where "mapE f (map g xs) = Inr ys'" "map h ys' = map h ys" by auto
  moreover obtain y' where "f (g x) = Inr y'" "h y' = h y" using Cons.prems Cons.hyps by auto
  ultimately show ?case by auto
qed simp

lemma schema_readable:
  assumes "get_item (JDict kvs) (lit ''schema_version'') = Inr (JStr v)" and "version_readable v"
  shows "\<exists>ls. check_schema_version (JDict kvs) = Inr ls"
proof -
  obtain minor where "parse_version v = Inr (1, minor)"
    using assms(2) by (auto simp: version_readable_def)
  with assms(1) show ?thesis
    by (simp add: check_schema_version_def version_of_def json_str_def Let_def del: get_item.simps)
qed

lemma snapshot_text:
  assumes ok: "snapshot_ok s" and d: "snapshot_to_dict s = Inr d"
  shows "snapshot_from_dict (json_sorted d) = Inr (snapshot_filed s)"
    and "\<exists>d'. snapshot_to_dict (snapshot_filed s) = Inr d' \<and> json_sorted d' = json_sorted d"
proof -
  have oks: "observation_ok o'" if "o' \<in> set (sn_observations s)" for o'
    using ok that by (simp add: snapshot_ok_def list_all_iff)
  from d obtain os where os: "list_all2 (\<lambda>x y. observation_to_dict x = Inr y) (sn_observations s) os"
    and dd: "d = jobj
       [(''schema_version'', JStr (sn_schema_version s)),
        (''snapshot_id'', JStr (sn_snapshot_id s)),
        (''captured_at'', JStr (sn_captured_at s)),
        (''host'', host_to_dict (sn_host s)),
        (''capture'', capture_to_dict (sn_capture s)),
        (''observations'', JList os)]"
    by (auto simp: snapshot_to_dict_def bindE_eq_Inr_iff mapE_Inr_iff)
  have "list_all2 (\<lambda>y x. observation_from_dict (json_sorted y) = Inr (observation_filed x)) os
      (sn_observations s)"
    using os oks observation_reload by (auto simp: list_all2_conv_all_nth)
  then have obs: "list_of observation_from_dict (json_sorted (JList os)) =
      Inr (map observation_filed (sn_observations s))"
    by (simp add: list_of_def mapE_Inr_iff list_all2_map2)
  have "get_item (json_sorted d) (lit ''schema_version'') = Inr (JStr (sn_schema_version s))"
    by (simp add: dd get_item_jobj_sorted)
  moreover have "\<exists>kvs. json_sorted d = JDict kvs" by (simp add: dd jobj_def json_sorted_dict)
  ultimately obtain ls where "check_schema_version (json_sorted d) = Inr ls"
    using ok schema_readable unfolding snapshot_ok_def by metis
  then show "snapshot_from_dict (json_sorted d) = Inr (snapshot_filed s)"
    using obs by (simp add: snapshot_from_dict_def dd fld_sorted snapshot_filed_def
        host_text.dec_sorted del: json_sorted.simps(1))
  have "\<exists>os'. mapE observation_to_dict (map observation_filed (sn_observations s)) = Inr os' \<and>
      map json_sorted os' = map json_sorted os"
    using os by (rule mapE_refiled) (use oks observation_refiled in blast)
  then show "\<exists>d'. snapshot_to_dict (snapshot_filed s) = Inr d' \<and> json_sorted d' = json_sorted d"
    by (auto simp: snapshot_to_dict_def snapshot_filed_def dd simp del: mapE_map
        intro!: jobj_sorted_cong)
qed

section \<open>Properties of the snapshot text\<close>

text \<open>
  The text the program writes for a JSON value, compact or indented, reads back as the same
  value with the keys of every object in ascending order, also with line ends behind it; writing
  that value again gives the same text.
\<close>

theorem json_text_roundtrip:
  assumes "json_ok v"
  shows "loads (json_text l v @ replicate m 10) = Inr (json_sorted v) \<and>
     json_text l (json_sorted v) = json_text l v"
  by (simp add: loads_json_text [OF assms] json_text_sorted)

theorem json_text_roundtrip_witness:
  "loads (json_text (Some 0) (JDict [([98], JList [JInt (- 7), JNull]), ([97, 233], JStr [34, 128512])])
     @ [10]) = Inr (JDict [([97, 233], JStr [34, 128512]), ([98], JList [JInt (- 7), JNull])])"
proof -
  let ?v = "JDict [([98], JList [JInt (- 7), JNull]), ([97, 233], JStr [34, 128512])]"
  have "json_ok ?v"
    by (simp add: printable_small clash_def high_surrogate_def)
  from json_text_roundtrip [OF this, of "Some 0" 1]
  show ?thesis by (simp add: json_sorted.simps(2))
qed

lemma snapshot_file_text:
  assumes "snapshot_ok s" and "snapshot_to_dict s = Inr d" and "json_ok d"
  shows "\<exists>t. snapshot_to_json pretty s = Inr t \<and>
     bindE (loads (t @ replicate m 10)) snapshot_from_dict = Inr (snapshot_filed s) \<and>
     snapshot_to_json pretty (snapshot_filed s) = Inr t \<and> plain_text t"
proof -
  obtain d' where "snapshot_to_dict (snapshot_filed s) = Inr d'" "json_sorted d' = json_sorted d"
    using snapshot_text(2) [OF assms(1,2)] by blast
  then have "json_text l d' = json_text l d" for l
    using json_text_sorted [of l d] json_text_sorted [of l d'] by simp
  then show ?thesis
    using assms snapshot_text(1) [OF assms(1,2)] \<open>snapshot_to_dict (snapshot_filed s) = Inr d'\<close>
    by (simp add: snapshot_to_json_def loads_json_text plain_json_text)
qed

text \<open>
  C13: A stored snapshot file, compact or indented, loads again: the parsed and decoded text is the
  snapshot with its ids, entities and counters in the order of the file, and storing that snapshot
  gives the file byte for byte.
\<close>

theorem snapshot_file_roundtrip:
  assumes "snapshot_ok s" and "snapshot_to_dict s = Inr d" and "json_ok d"
  shows "\<exists>t. snapshot_to_json pretty s = Inr t \<and>
     bindE (loads (t @ replicate m 10)) snapshot_from_dict = Inr (snapshot_filed s) \<and>
     snapshot_to_json pretty (snapshot_filed s) = Inr t \<and> plain_text t"
  by (rule snapshot_file_text [OF assms])

text \<open>A test for \<open>json_ok\<close> that computes: the numbers of the sample are small.\<close>

fun json_small :: "json \<Rightarrow> bool" where
  "json_small (JInt i) \<longleftrightarrow> \<bar>i\<bar> < 1000000000000"
| "json_small (JStr s) \<longleftrightarrow> str_ok s"
| "json_small (JList xs) \<longleftrightarrow> list_all json_small xs"
| "json_small (JDict d) \<longleftrightarrow> distinct (map fst d) \<and> list_all (\<lambda>(k, v). str_ok k \<and> json_small v) d"
| "json_small _ \<longleftrightarrow> True"

lemma json_small_ok: "json_small v \<Longrightarrow> json_ok v"
proof (induction v)
  case (JDict d)
  then show ?case by (force simp: list_all_iff)
qed (auto simp: list_all_iff intro: printable_small)

lemma infected_text: "\<exists>d. snapshot_to_dict infected = Inr d \<and> json_ok d"
proof -
  have "case snapshot_to_dict infected of Inl _ \<Rightarrow> False | Inr d \<Rightarrow> json_small d" by code_simp
  then show ?thesis by (auto split: sum.splits intro: json_small_ok)
qed

theorem snapshot_file_roundtrip_witness:
  "\<exists>t. snapshot_to_json True infected = Inr t \<and>
     bindE (loads (t @ [10])) snapshot_from_dict = Inr (snapshot_filed infected) \<and>
     snapshot_to_json True (snapshot_filed infected) = Inr t"
proof -
  obtain d where "snapshot_to_dict infected = Inr d" "json_ok d" using infected_text by blast
  from snapshot_file_roundtrip [OF infected_ok this, of True 1] show ?thesis by auto
qed

end
