(* ===== verification/Report_Props.thy ===== *)
theory Report_Props
  imports Report Ioc_Props Notes Snapshot_Text
begin

text \<open>
  What a report says. On the findings, indicators and notes of an analysis the renderer never fails;
  unless the effective user id, which is printed as it is, brings its own lines, every line of the
  Markdown is free of invisible characters and its headings are exactly those of the document and
  of its findings; the JSON report lists, counts and sums up the findings it was given; and a note
  is never rendered as nothing.
\<close>

section \<open>Visible lines\<close>

definition shown :: "pystr \<Rightarrow> bool" where
  "shown s \<longleftrightarrow> list_all (\<lambda>c. \<not> is_invisible c) s"

lemma shown_simps [simp]:
  "shown []" "shown (c # s) \<longleftrightarrow> \<not> is_invisible c \<and> shown s"
  "shown (s @ t) \<longleftrightarrow> shown s \<and> shown t"
  by (simp_all add: shown_def)

lemma printable_shown [simp]: "shown (printable s)"
  by (auto simp: shown_def printable_def list_all_iff dest: printable_char_visible)

definition ascii_text :: "string \<Rightarrow> bool" where
  "ascii_text s \<longleftrightarrow> list_all (\<lambda>c. 32 \<le> (of_char c :: int) \<and> (of_char c :: int) \<le> 126) s"

lemma shown_lit: "ascii_text s \<Longrightarrow> shown (lit s)"
  by (auto simp: shown_def lit_def ascii_text_def list_all_iff ascii_visible)

lemma shown_replicate [simp]: "\<not> is_invisible c \<Longrightarrow> shown (replicate n c)"
  by (simp add: shown_def list_all_iff)

lemma visible_marks [simp]: "\<not> is_invisible 96" "\<not> is_invisible 32" "\<not> is_invisible 8212" "\<not> is_invisible 183"
  by (simp_all add: is_invisible_def invisible_ranges_def)

lemma invisible_line_end [simp]: "is_invisible 10"
  by (simp add: is_invisible_def invisible_ranges_def)

lemma md_code_shown [simp]: "shown (md_code s)"
  by (simp add: md_code_def Let_def shown_lit ascii_text_def)

lemma shown_join [simp]: "shown sep \<Longrightarrow> list_all shown xs \<Longrightarrow> shown (join sep xs)"
  by (induction sep xs rule: join.induct) simp_all

lemma shown_commas [simp]: "list_all shown xs \<Longrightarrow> shown (commas xs)"
  by (simp add: commas_def shown_lit ascii_text_def)

lemma shown_str_int [simp]: "shown (str_int i)"
proof -
  have "\<forall>c \<in> set (str_int i). c = 45 \<or> is_ascii_digit c"
    using dec_digits_ascii by (auto simp: str_int_def list_all_iff)
  then show ?thesis by (fastforce simp: shown_def list_all_iff ascii_visible is_ascii_digit_def)
qed

lemma shown_values [simp]: "shown (confidence_value c)" "shown (finding_kind_value k)"
  by (cases c; simp add: shown_lit ascii_text_def) (cases k; simp add: shown_lit ascii_text_def)

section \<open>Headings\<close>

definition heading :: "pystr \<Rightarrow> bool" where
  "heading s \<longleftrightarrow> s \<noteq> [] \<and> hd s = 35"

lemma heading_simps [simp]: "\<not> heading []" "heading (c # s) \<longleftrightarrow> c = 35"
  by (simp_all add: heading_def)

text \<open>A line of text: visible, and no heading.\<close>

definition body_line :: "pystr \<Rightarrow> bool" where
  "body_line s \<longleftrightarrow> shown s \<and> \<not> heading s"

lemma body_line_Nil [simp]: "body_line []"
  by (simp add: body_line_def)

lemma body_line_lit:
  "s \<noteq> [] \<Longrightarrow> hd s \<noteq> CHR ''#'' \<Longrightarrow> ascii_text s \<Longrightarrow> shown t \<Longrightarrow> body_line (lit s @ t)"
proof (cases s)
  case (Cons c cs)
  assume *: "hd s \<noteq> CHR ''#''" "ascii_text s" "shown t"
  have "(of_char c :: int) \<noteq> 35"
  proof
    assume "(of_char c :: int) = 35"
    then have "(of_char c :: int) = of_char (CHR ''#'')" by simp
    then have "c = CHR ''#''" by (simp only: of_char_eq_iff)
    with *(1) Cons show False by simp
  qed
  then show ?thesis using * Cons shown_lit [OF *(2)] by (simp add: body_line_def heading_def lit_def)
qed simp

lemma heading_printable: "heading (printable s) \<longleftrightarrow> heading s"
proof (cases s)
  case (Cons c cs)
  have "\<exists>d t. printable_char c = d # t \<and> (d = 35 \<longleftrightarrow> c = 35)"
    by (cases "is_invisible c") (auto simp: printable_char_def ascii_visible)
  then show ?thesis by (auto simp: printable_def Cons)
qed (simp add: printable_def)

lemma md_block_body:
  assumes "\<And>l. l \<in> set ls \<Longrightarrow> \<not> heading l"
  shows "list_all body_line (md_block ls)"
proof -
  have "body_line (replicate (max 3 n) 96 @ t)" if "shown t" for n t
    using that by (cases "max 3 n") (auto simp: body_line_def)
  from this [of "lit ''text''"] this [of "[]"] show ?thesis
    using assms by (auto simp: md_block_def Let_def list_all_iff body_line_def heading_printable
        shown_lit ascii_text_def)
qed

section \<open>The findings of an analysis\<close>

definition channel_names :: "string list" where
  "channel_names =
     [''taint'', ''vmalloc_region'', ''ftrace_orphan'', ''unexpected_hook'', ''syscall_kill'',
      ''direct_status'', ''socket_visible'', ''over_listed'', ''baseline_drift'']"

definition dissents :: "pystr list" where
  "dissents = [module_dissent, process_dissent, listing_dissent, baseline_dissent]"

lemma signal_constants:
  assumes "all_signals s b = Inr sigs" and "g \<in> set sigs"
  shows "sg_channel g \<in> lit ` set channel_names \<and> sg_dissent g \<in> set dissents"
proof -
  from assms(1) obtain s1 s2 s3 s4 s5 s6 where
    1: "signals_processes s = Inr s1" and 2: "signals_modules s = Inr s2" and
    3: "signals_hooks s = Inr s3" and 4: "signals_sockets s = Inr s4" and
    5: "signals_over_listed s = Inr s5" and
    6: "(case b of None \<Rightarrow> Inr [] | Some r \<Rightarrow> signals_baseline s r) = Inr s6" and
    s: "sigs = s1 @ s2 @ s3 @ s4 @ s5 @ s6"
    by (auto simp: all_signals_def)
  have "g \<in> set s6 \<Longrightarrow> sg_channel g = lit ''baseline_drift'' \<and> sg_dissent g = baseline_dissent" for g
    using 6 drift.law by (cases b) auto
  note law = processes.law [OF 1] modules.law [OF 2] hooks.law [OF 3] sockets.law [OF 4]
    phantoms.law [OF 5] this
  show ?thesis
    using assms(2) law [of g] by (auto simp: s channel_names_def dissents_def)
qed

lemma shown_channel: "n \<in> set channel_names \<Longrightarrow> shown (lit n)"
  by (auto simp: channel_names_def shown_lit ascii_text_def)

lemma shown_dissent: "d \<in> set dissents \<Longrightarrow> shown d"
  by (auto simp: dissents_def module_dissent_def process_dissent_def listing_dissent_def
      baseline_dissent_def shown_lit ascii_text_def)

text \<open>What the report needs of a finding.\<close>

definition reportable :: "finding \<Rightarrow> bool" where
  "reportable f \<longleftrightarrow>
     (\<exists>ls. render_evidence f = Inr ls \<and> list_all (\<lambda>l. \<not> heading l) ls) \<and>
     \<not> heading (fi_summary f) \<and> list_all shown (fi_channels_agree f) \<and>
     list_all shown (fi_channels_dissent f)"

lemma finding_lines_ok:
  assumes "reportable f"
  shows "\<exists>ls. finding_lines f = Inr (finding_heading f # ls) \<and> list_all body_line ls"
proof -
  obtain ev where ev: "render_evidence f = Inr ev" "list_all (\<lambda>l. \<not> heading l) ev"
    using assms by (auto simp: reportable_def)
  let ?block = "(if fi_summary f \<noteq> [] then [fi_summary f] else []) @ ev"
  have "list_all body_line (md_block ?block)"
    using assms ev by (intro md_block_body) (auto simp: reportable_def list_all_iff split: if_splits)
  moreover have "body_line (lit ''- Seen by: '' @ commas (fi_channels_agree f))"
    "body_line (lit ''- Denied by: '' @ commas (fi_channels_dissent f))"
    using assms by (auto simp: reportable_def ascii_text_def intro!: body_line_lit)
  ultimately show ?thesis
    by (simp add: finding_lines_def ev Let_def)
qed

lemma finding_heading_ok [simp]: "heading (finding_heading f)" "shown (finding_heading f)"
  by (simp_all add: finding_heading_def shown_lit ascii_text_def) (simp add: heading_def lit_def)

lemma heading_lit: "s \<noteq> [] \<Longrightarrow> hd s \<noteq> CHR ''#'' \<Longrightarrow> ascii_text s \<Longrightarrow> \<not> heading (lit s @ t)"
  using body_line_lit [of s "[]"] by (cases s) (auto simp: body_line_def lit_def)

lemma not_heading_text [simp]:
  "\<not> heading (lit ''pid '' @ t)" "\<not> heading (lit ''module '' @ t)"
  "\<not> heading (lit ''hidden-module indicators fired but no channel can name the module'' @ t)"
  "\<not> heading (lit ''hidden-module indicators fired but no channel can name the module'')"
  "\<not> heading (lit ''socket: '' @ t)" "\<not> heading (lit ''comm: '' @ t)"
  "\<not> heading (lit ''exe: unavailable (hidden from /proc)'')"
  by (simp_all add: lit_def)

lemma summary_not_heading: "\<not> heading (snd (snd (classify u cs)))"
  by (simp add: classify_def Let_def)

lemma fi_summary_compose:
  "fi_summary (compose u ms) = snd (snd (classify u (fi_channels_agree (compose u ms))))"
  by (simp add: compose_def Let_def split: prod.split)

lemma first_comm_dicts:
  "\<exists>r. foldE (\<lambda>ev comm. if truthy comm then Inr comm else get_item ev k)
     (map (\<lambda>g. JDict (h g)) gs) c = Inr r"
  by (induction gs arbitrary: c) auto

lemma socket_line_body: "socket_line ev = Inr l \<Longrightarrow> \<not> heading l"
  by (auto simp: socket_line_def)

lemma process_evidence_ok:
  assumes "fi_kind (compose u ms) = HIDDEN_PROCESS"
  shows "\<exists>ls. render_evidence (compose u ms) = Inr ls \<and> list_all (\<lambda>l. \<not> heading l) ls"
proof -
  let ?f = "compose u ms"
  obtain c1 where c1: "foldE (\<lambda>ev comm. if truthy comm then Inr comm else get_item ev (lit ''comm''))
      (map (\<lambda>g. JDict (sg_evidence g)) (filter (\<lambda>g. sg_channel g = lit ''syscall_kill'') ms)) JNull = Inr c1"
    using first_comm_dicts by blast
  obtain c2 where c2: "foldE (\<lambda>ev comm. if truthy comm then Inr comm else get_item ev (lit ''comm''))
      (map (\<lambda>g. JDict (sg_evidence g)) (filter (\<lambda>g. sg_channel g = lit ''direct_status'') ms)) c1 = Inr c2"
    using first_comm_dicts by blast
  have "first_comm ?f = Inr c2"
    unfolding first_comm_def by (simp add: evidence_of_compose c1 c2 del: get_item.simps)
  moreover have "\<not> isl (socket_line (JDict d))" for d by (simp add: socket_line_def)
  then obtain ls where ls: "mapE socket_line (map (\<lambda>g. JDict (sg_evidence g))
      (filter (\<lambda>g. sg_channel g = lit ''socket_visible'') ms)) = Inr ls"
    using mapE_not_isl [of "map (\<lambda>g. JDict (sg_evidence g))
      (filter (\<lambda>g. sg_channel g = lit ''socket_visible'') ms)" socket_line] by fastforce
  moreover have "list_all (\<lambda>l. \<not> heading l) ls"
    using mapE_set [OF ls] socket_line_body by (auto simp: list_all_iff)
  ultimately show ?thesis
    using assms by (simp add: render_evidence_def evidence_of_compose)
qed

lemma other_evidence_ok:
  assumes "fi_kind f \<noteq> HIDDEN_PROCESS"
    and "fst ` set (fi_evidence f) \<subseteq> lit ` set (''candidates'' # channel_names)"
  shows "\<exists>ls. render_evidence f = Inr ls \<and> list_all (\<lambda>l. \<not> heading l) ls"
proof -
  have h: "\<not> heading (lit n @ t)" if "n \<in> set (''candidates'' # channel_names)" for n t
    using that by (auto simp: channel_names_def lit_def)
  have "\<not> heading (c @ t)" if "(c, v) \<in> set (fi_evidence f)" for c v t
  proof -
    have "c \<in> lit ` set (''candidates'' # channel_names)" using assms(2) that by force
    with h show ?thesis by blast
  qed
  then show ?thesis
    using assms(1) by (auto simp: render_evidence_def list_all_iff)
qed

lemma compose_evidence_keys:
  "fst ` set (fi_evidence (compose u ms)) = sg_channel ` set ms"
proof -
  have "fst ` set (fi_evidence (compose u ms)) = fst ` set (evidence_groups (sort_key sg_channel ms))"
    by (simp add: fi_evidence_compose image_image case_prod_unfold)
  then show ?thesis by (simp add: evidence_groups_def fst_group_by_set)
qed

lemma members_constants:
  assumes "all_signals s b = Inr sigs" and "set ms \<subseteq> set sigs"
  shows "sg_channel ` set ms \<subseteq> lit ` set channel_names" and "sg_dissent ` set ms \<subseteq> set dissents"
    and "list_all shown (sorted_set (map sg_channel ms))"
    and "list_all shown (sorted_set (map sg_dissent ms))"
proof -
  have c: "sg_channel g \<in> lit ` set channel_names" "sg_dissent g \<in> set dissents" if "g \<in> set ms" for g
    using signal_constants [OF assms(1)] assms(2) that by blast+
  then show "sg_channel ` set ms \<subseteq> lit ` set channel_names" "sg_dissent ` set ms \<subseteq> set dissents"
    by blast+
  show "list_all shown (sorted_set (map sg_channel ms))"
    "list_all shown (sorted_set (map sg_dissent ms))"
    using c shown_channel shown_dissent by (fastforce simp: list_all_iff)+
qed

lemma compose_reportable:
  assumes "all_signals s b = Inr sigs" and "set ms \<subseteq> set sigs"
  shows "reportable (compose u ms)"
proof -
  note k = members_constants [OF assms]
  have "\<exists>ls. render_evidence (compose u ms) = Inr ls \<and> list_all (\<lambda>l. \<not> heading l) ls"
  proof (cases "fi_kind (compose u ms) = HIDDEN_PROCESS")
    case False
    then show ?thesis
      using k(1) by (intro other_evidence_ok) (auto simp: compose_evidence_keys)
  qed (rule process_evidence_ok)
  then show ?thesis
    using k(3,4) by (simp add: reportable_def summary_not_heading fi_summary_compose)
qed

lemma unattributed_reportable:
  assumes "all_signals s b = Inr sigs" and "set ms \<subseteq> set sigs"
  shows "reportable (unattributed cs ms)"
proof -
  note k = members_constants [OF assms]
  let ?f = "compose \<lparr>su_kind = module_kind, su_name = None\<rparr> ms"
  have "\<exists>ls. render_evidence (unattributed cs ms) = Inr ls \<and> list_all (\<lambda>l. \<not> heading l) ls"
  proof (rule other_evidence_ok)
    have "fst ` set (fi_evidence (unattributed cs ms)) \<subseteq>
        insert (lit ''candidates'') (fst ` set (fi_evidence ?f))"
      using update_keys [of "lit ''candidates''" "strs_json cs" "fi_evidence ?f"]
      by (auto simp: unattributed_def Let_def dom_update split: if_splits)
    then show "fst ` set (fi_evidence (unattributed cs ms)) \<subseteq> lit ` set (''candidates'' # channel_names)"
      using k(1) by (auto simp: compose_evidence_keys)
  qed simp
  moreover have "\<not> heading (fi_summary (unattributed cs ms))"
    by (auto simp: unattributed_def Let_def fi_summary_compose classify_def lit_def)
  ultimately show ?thesis
    using k(3,4) by (simp add: reportable_def)
qed

lemma analyzed_reportable:
  assumes "analyze s b = Inr fs"
  shows "list_all reportable fs"
proof -
  obtain sigs where sigs: "all_signals s b = Inr sigs" and fs: "fs = score sigs"
    using assms by (auto simp: analyze_def)
  have "set (members sigs u) \<subseteq> set sigs" for u using members_subset by blast
  moreover have "set (leftover sigs) \<subseteq> set sigs"
    by (auto simp: leftover_def anon_signals_def split: if_splits)
  ultimately show ?thesis
    using compose_reportable [OF sigs] unattributed_reportable [OF sigs]
    by (auto simp: fs finding_iff list_all_iff)
qed

section \<open>Notes\<close>

lemma md_code_value_shown: "md_code_value v = Inr t \<Longrightarrow> shown t"
  by (cases v) auto

lemma md_code_values_shown: "mapE md_code_value vs = Inr ts \<Longrightarrow> list_all shown ts"
  using mapE_set md_code_value_shown by (fastforce simp: list_all_iff)

lemma or_none_shown [simp]: "shown s \<Longrightarrow> shown (or_none s)"
  by (simp add: or_none_def shown_lit ascii_text_def)

lemma detail_keys_shown: "(\<And>k. shown (show k)) \<Longrightarrow> shown (detail_keys show n)"
  by (simp add: detail_keys_def list_all_iff)

lemma item_line [simp]: "shown t \<Longrightarrow> body_line (lit ''- '' @ t)"
  "shown t \<Longrightarrow> body_line (lit ''  - bit '' @ t)" "shown t \<Longrightarrow> body_line (lit ''  - listed modules: '' @ t)"
  "shown t \<Longrightarrow> body_line (lit ''  - channels consulted: '' @ t)"
  "shown t \<Longrightarrow> body_line (lit ''  - detail keys: '' @ t)"
  by (intro body_line_lit; simp add: ascii_text_def)+

lemma note_lines_shape:
  assumes "note_lines n = Inr ls"
  shows "\<exists>t rest. ls = (lit ''- '' @ md_code (cn_channel n) @ t) # rest \<and> list_all body_line ls"
proof -
  have txts: "shown (lit '' could not corroborate: every bit it reads is already explained by a listed module, so it cannot speak to a hidden one.'')"
    "shown (lit '' could not corroborate: every listed module came back uncorroborated, so the channel is reporting on itself rather than on the modules.'')"
    "shown (lit '' did not contribute (reason: '')" "shown (lit '').'')" "shown (lit '': '')"
    by (intro shown_lit; simp add: ascii_text_def)+
  consider "cn_reason n = lit ''saturated''" | "cn_reason n = lit ''uncorroborated''"
    | "cn_reason n \<notin> {lit ''saturated'', lit ''uncorroborated''}" by blast
  then show ?thesis
  proof cases
    case 1
    from assms 1 obtain items rest where m: "mapE (\<lambda>(b, owners). bindE (py_list owners)
        (\<lambda>os. bindE (mapE md_code_value os) (\<lambda>named.
                 Inr (lit ''  - bit '' @ md_code b @ lit '': '' @ commas named)))) items = Inr rest"
      and ls: "ls = (lit ''- '' @ md_code (cn_channel n) @ lit '' could not corroborate: every bit it reads is already explained by a listed module, so it cannot speak to a hidden one.'') # rest"
      by (auto simp: note_lines_def)
    have "body_line l" if "bindE (py_list owners) (\<lambda>os. bindE (mapE md_code_value os) (\<lambda>named.
        Inr (lit ''  - bit '' @ md_code b @ lit '': '' @ commas named))) = Inr l" for b owners l
      using that txts(5) by (auto dest!: md_code_values_shown intro!: item_line)
    then have "body_line l" if "l \<in> set rest" for l
      using mapE_set [OF m that] by (elim bexE) (simp only: split: prod.splits)
    then have "list_all body_line rest" by (simp add: list_all_iff)
    with ls txts(1) show ?thesis by auto
  next
    case 2
    with assms txts(2) show ?thesis
      by (auto simp: note_lines_def list_all_iff [of shown] intro!: item_line or_none_shown shown_commas)
  next
    case 3
    with assms txts(3,4) show ?thesis
      by (auto simp: note_lines_def detail_keys_shown)
  qed
qed

text \<open>The owners of an explained bit are a list of names.\<close>

lemma explained_owners:
  assumes "(k, v) \<in> set (dict_of (\<lambda>(b, v). str_int b) (\<lambda>(b, v). strs_json v) es)"
  shows "v \<in> range strs_json"
proof -
  have "map_of (dict_of (\<lambda>(b, v). str_int b) (\<lambda>(b, v). strs_json v) es) k = Some v"
    by (rule map_of_is_SomeI [OF distinct_fst_dict_of assms])
  then show ?thesis by (auto simp: map_of_dict_of case_prod_unfold split: list.splits)
qed

lemma taint_note_lines:
  assumes "taint_notes s = Inr ns" and "n \<in> set ns"
  shows "\<not> isl (note_lines n)"
proof -
  have codes: "mapE (\<lambda>x. Inr (md_code x)) ss = Inr (map md_code ss)" for ss
    by (induction ss) simp_all
  obtain r where n: "n = \<lparr>cn_channel = lit ''taint'', cn_reason = lit ''saturated'',
      cn_detail = ldict [(''explained_by'', explained_json r)]\<rparr>"
    using assms by (auto simp: taint_notes_def Let_def split: list.splits if_splits)
  let ?items = "dict_of (\<lambda>(b, v). str_int b) (\<lambda>(b, v). strs_json v) (tr_explained_by r)"
  let ?bit = "\<lambda>(b, owners). bindE (py_list owners) (\<lambda>os. bindE (mapE md_code_value os)
      (\<lambda>named. Inr (lit ''  - bit '' @ md_code b @ lit '': '' @ commas named)))"
  have "\<not> isl (?bit e)" if "e \<in> set (sort_key fst ?items)" for e
  proof -
    obtain b v where e: "e = (b, v)" by (cases e)
    with that have "(b, v) \<in> set ?items" by (metis set_sort)
    then obtain ss where "v = strs_json ss" using explained_owners by blast
    then show ?thesis by (simp add: e strs_json_def codes)
  qed
  then obtain rest where "mapE ?bit (sort_key fst ?items) = Inr rest"
    using mapE_not_isl [of "sort_key fst ?items" ?bit] by blast
  then show ?thesis by (auto simp: n note_lines_def detail_get_def explained_json_def)
qed

lemma over_listed_note_lines:
  assumes "over_listed_notes s = Inr ns" and "n \<in> set ns"
  shows "\<not> isl (note_lines n)"
  using assms by (auto simp: over_listed_notes_def note_lines_def detail_get_def strs_json_def
      split: option.splits if_splits)

lemma sublist_joined: "x \<in> set xs \<Longrightarrow> sublist x (join sep xs)"
proof (induction sep xs rule: join.induct)
  case (3 sep y z zs)
  then show ?case by (auto intro: sublist_appendI simp: sublist_append)
qed auto

lemma sublist_middle: "sublist x (pre @ y @ mid @ x @ post)"
  by (simp only: append_assoc [symmetric]) (simp only: append_assoc [of _ x] sublist_def, blast)

text \<open>The line on the detail of a note of unknown reason names every key.\<close>

lemma detail_keys_sublist:
  assumes "k \<in> fst ` set (cn_detail n)"
  shows "sublist (md_code k) (detail_keys md_code n)"
proof -
  have "md_code k \<in> set (map md_code (sort (map fst (cn_detail n))))" using assms by auto
  then have s: "sublist (md_code k) (commas (map md_code (sort (map fst (cn_detail n)))))"
    unfolding commas_def by (rule sublist_joined)
  moreover have "md_code k \<noteq> []" by (simp add: md_code_def Let_def)
  ultimately show ?thesis by (auto simp: detail_keys_def or_none_def)
qed

lemma channel_notes_lines:
  assumes "channel_notes s = Inr ns"
  shows "\<exists>lss. mapE note_lines ns = Inr lss"
  using assms taint_note_lines over_listed_note_lines
  by (intro mapE_not_isl) (auto simp: channel_notes_def)

section \<open>Properties of the reports\<close>

text \<open>The indicators of an analysis have fixed types and levels.\<close>

lemma ioc_line_body:
  assumes "analyze s b = Inr fs" and "extract_iocs fs = Inr iocs"
  shows "list_all body_line (map ioc_line iocs)"
proof -
  obtain sigs where sigs: "all_signals s b = Inr sigs" and fs: "fs = score sigs"
    using assms(1) by (auto simp: analyze_def)
  have "body_line (ioc_line i)" if i: "i \<in> set iocs" for i
  proof -
    obtain u where u: "su_name u \<noteq> None" "agreeing sigs u \<noteq> {}" "i \<in> offers u (members sigs u)"
      using ioc_keys [OF sigs] assms(2) i unfolding fs by (metis sum.inject(2))
    have "io_type i \<in> {lit ''kernel_module'', lit ''hooked_function'', lit ''process_name'',
        lit ''network_endpoint''}"
      using offers_kind [OF sigs u] by auto
    then have "shown (io_type i)" by (auto simp: shown_lit ascii_text_def)
    moreover have "\<exists>c. io_confidence i = confidence_value c"
      using u(3) by (auto simp: offers_def Let_def split: if_splits)
    then have "shown (io_confidence i)" by auto
    ultimately show ?thesis
      by (auto simp: ioc_line_def shown_lit ascii_text_def intro!: item_line)
  qed
  then show ?thesis by (simp add: list_all_iff)
qed

text \<open>What the lines of a report are made of: its headings, in order, among lines that are none.\<close>

definition outlined :: "pystr list \<Rightarrow> pystr list \<Rightarrow> bool" where
  "outlined ls hs \<longleftrightarrow> list_all shown ls \<and> filter heading ls = hs"

lemma outlined_append: "outlined ls hs \<Longrightarrow> outlined ms ks \<Longrightarrow> outlined (ls @ ms) (hs @ ks)"
  by (simp add: outlined_def)

lemma outlined_body: "list_all body_line ls \<Longrightarrow> outlined ls []"
  by (auto simp: outlined_def body_line_def list_all_iff filter_empty_conv)

lemma outlined_heading: "shown h \<Longrightarrow> heading h \<Longrightarrow> outlined [h] [h]"
  by (simp add: outlined_def)

lemma outlined_concat: "list_all2 outlined lss hss \<Longrightarrow> outlined (concat lss) (concat hss)"
proof (induction rule: list_all2_induct)
  case Nil
  show ?case by (simp add: outlined_def)
qed (simp add: outlined_append)

lemma findings_outlined:
  assumes "list_all reportable fs"
  shows "\<exists>lss. mapE finding_lines fs = Inr lss \<and> outlined (concat lss) (map finding_heading fs)"
proof -
  have "\<exists>ls. finding_lines f = Inr ls \<and> outlined ls [finding_heading f]" if "f \<in> set fs" for f
  proof -
    have "reportable f" using that assms by (simp add: list_all_iff)
    then obtain ls where ls: "finding_lines f = Inr (finding_heading f # ls)" "list_all body_line ls"
      using finding_lines_ok by blast
    have "outlined ([finding_heading f] @ ls) ([finding_heading f] @ [])"
      using ls(2) by (intro outlined_append outlined_heading outlined_body) simp_all
    with ls(1) show ?thesis by simp
  qed
  then obtain g where g: "finding_lines f = Inr (g f) \<and> outlined (g f) [finding_heading f]"
    if "f \<in> set fs" for f by metis
  then have "mapE finding_lines fs = Inr (map g fs)" by (intro mapE_total) simp
  moreover have "outlined (concat (map g fs)) (concat (map (\<lambda>f. [finding_heading f]) fs))"
    using g by (intro outlined_concat) (simp add: list_all2_conv_all_nth)
  ultimately show ?thesis by simp
qed

text \<open>The one value a report prints as it is, without \<open>md_code\<close>: \<open>str\<close> of the effective user id.\<close>

abbreviation euid_text :: "snapshot \<Rightarrow> pystr" where
  "euid_text s \<equiv> json_str (cm_euid (sn_capture s))"

lemma number_shown [simp]: "shown (json_str (JInt i))"
  by (simp add: json_str_def)

lemma head_outlined:
  assumes e: "shown (euid_text s)"
  shows "outlined (report_head s fs name) [report_title s, lit ''## Summary'', lit ''## Findings'']"
proof -
  have words: "shown (lit ''## Summary'')" "shown (lit ''## Findings'')" "shown (lit ''# kdetect report '')"
    "shown (lit ''**Host:** '')" "shown (lit ''**Captured:** '')" "shown (lit ''boot '')"
    "shown (lit ''euid '')" "shown (lit ''**Tool:** kdetect '')" "shown (lit ''schema '')"
    "shown (lit ''**Baseline:** '')" "shown (lit ''none'')" "shown (lit ''- HIGH: '')"
    "shown (lit ''MEDIUM: '')" "shown (lit ''LOW: '')" "shown (lit ''- Verdict: '')"
    "shown (lit ''No findings.'')" "shown (lit '' finding(s) '')" "shown (lit ''. Investigate.'')"
    "shown (lit '' '')"
    by (intro shown_lit; simp add: ascii_text_def)+
  have v: "shown (verdict fs)"
    using words by (auto simp: verdict_def list_all_iff intro!: shown_commas)
  have b: "shown (case name of None \<Rightarrow> lit ''none''
      | Some b \<Rightarrow> if b = [] then lit ''none'' else md_code b)"
    using words by (simp split: option.split)
  have h: "heading (lit (CHR ''#'' # w) @ t)" "heading (lit (CHR ''#'' # w))"
    "c \<noteq> CHR ''#'' \<Longrightarrow> \<not> heading (lit (c # w) @ t)" for c w t
    using of_char_eq_iff [of c "CHR ''#''", where 'a = int] by (simp_all add: lit_def)
  show ?thesis
    using words v b e by (simp add: outlined_def report_head_def report_title_def Let_def dot_def h)
qed

definition report_outline :: "snapshot \<Rightarrow> finding list \<Rightarrow> channel_note list \<Rightarrow> pystr list" where
  "report_outline s fs ns =
     [report_title s, lit ''## Summary'', lit ''## Findings''] @ map finding_heading (ranked fs) @
     [lit ''## Indicators of Compromise''] @
     (if ns = [] then [] else [lit ''## Channel coverage''])"

lemma ranked_set [simp]: "set (ranked fs) = set fs"
  by (simp add: ranked_def)

lemma notes_body:
  assumes "mapE note_lines ns = Inr lss"
  shows "list_all body_line (concat lss)" and "concat lss = [] \<longleftrightarrow> ns = []"
proof -
  have each: "\<exists>n. note_lines n = Inr ls" if "ls \<in> set lss" for ls
    using mapE_set [OF assms that] by blast
  then show "list_all body_line (concat lss)"
    using note_lines_shape by (fastforce simp: list_all_iff)
  show "concat lss = [] \<longleftrightarrow> ns = []"
    using each note_lines_shape mapE_nonempty [OF assms] by (cases lss) fastforce+
qed

lemma report_lines_outlined:
  assumes fs: "analyze s b = Inr fs" and iocs: "extract_iocs fs = Inr iocs"
    and ns: "channel_notes s = Inr ns" and e: "shown (euid_text s)"
  shows "\<exists>ls. report_lines s fs iocs name ns = Inr ls \<and> outlined ls (report_outline s fs ns)"
proof -
  have "list_all reportable (ranked fs)"
    using analyzed_reportable [OF fs] by (simp add: list_all_iff)
  then obtain blocks where b: "mapE finding_lines (ranked fs) = Inr blocks"
    "outlined (concat blocks) (map finding_heading (ranked fs))"
    using findings_outlined by blast
  obtain nls where n: "mapE note_lines ns = Inr nls" using channel_notes_lines [OF ns] by blast
  let ?none = "\<lambda>xs. if xs = [] then [lit ''None.''] else []"
  let ?coverage = "if concat nls \<noteq> [] then [lit ''## Channel coverage''] @ ([[]] @ concat nls @ [[]]) else []"
  have w: "shown (lit ''## Indicators of Compromise'')" "heading (lit ''## Indicators of Compromise'')"
    "shown (lit ''## Channel coverage'')" "heading (lit ''## Channel coverage'')"
    "body_line (lit ''None.'')"
    by (auto intro!: shown_lit simp: ascii_text_def) (simp_all add: lit_def body_line_def ascii_visible)
  have none: "outlined (?none xs) []" for xs :: "'x list"
    using w(5) by (intro outlined_body) simp
  have iocs: "outlined (map ioc_line iocs @ [[]]) []"
    using ioc_line_body [OF fs iocs] by (intro outlined_body) simp
  have cov: "outlined ?coverage (if ns = [] then [] else [lit ''## Channel coverage''])"
  proof (cases "ns = []")
    case True
    then show ?thesis using notes_body(2) [OF n] by (simp add: outlined_def)
  next
    case False
    have "outlined ([lit ''## Channel coverage''] @ ([[]] @ concat nls @ [[]]))
        ([lit ''## Channel coverage''] @ [])"
      using w notes_body(1) [OF n] by (intro outlined_append outlined_heading outlined_body) simp_all
    with False show ?thesis using notes_body(2) [OF n] by simp
  qed
  let ?all = "report_head s fs name @ (?none fs @ (concat blocks @ ([lit ''## Indicators of Compromise'']
        @ (?none iocs @ ((map ioc_line iocs @ [[]]) @ ?coverage)))))"
  have "outlined ?all
      ([report_title s, lit ''## Summary'', lit ''## Findings''] @ ([] @ (map finding_heading (ranked fs) @
        ([lit ''## Indicators of Compromise''] @ ([] @ ([] @
        (if ns = [] then [] else [lit ''## Channel coverage''])))))))"
    using w by (intro outlined_append head_outlined [OF e] none b(2) outlined_heading iocs cov)
  then have "outlined ?all (report_outline s fs ns)"
    by (simp only: report_outline_def append.simps append_assoc)
  moreover have "report_lines s fs iocs name ns = Inr ?all"
    by (simp add: report_lines_def b(1) n Let_def del: concat_eq_Nil_conv)
  ultimately show ?thesis by blast
qed

text \<open>With any effective user id the renderer returns.\<close>

lemma report_lines_total:
  assumes "analyze s b = Inr fs" and "mapE note_lines ns = Inr nls"
  shows "\<exists>blocks. mapE finding_lines (ranked fs) = Inr blocks \<and>
     report_lines s fs iocs name ns = Inr (report_head s fs name
       @ (if fs = [] then [lit ''None.''] else []) @ concat blocks
       @ [lit ''## Indicators of Compromise'']
       @ (if iocs = [] then [lit ''None.''] else []) @ map ioc_line iocs @ [[]]
       @ (if concat nls \<noteq> [] then [lit ''## Channel coverage'', []] @ concat nls @ [[]] else []))"
proof -
  have "list_all reportable (ranked fs)"
    using analyzed_reportable [OF assms(1)] by (simp add: list_all_iff)
  then obtain blocks where "mapE finding_lines (ranked fs) = Inr blocks"
    using findings_outlined by blast
  with assms(2) show ?thesis by (simp add: report_lines_def Let_def del: concat_eq_Nil_conv)
qed

lemma markdown_coverage:
  assumes "analyze s b = Inr fs" and nls: "mapE note_lines ns = Inr nls" and "ns \<noteq> []"
  shows "\<exists>front. render_markdown s fs iocs name ns =
     Inr (join [10] (front @ [lit ''## Channel coverage'', []] @ concat nls @ [[]]))"
proof -
  obtain blocks where "report_lines s fs iocs name ns = Inr (report_head s fs name
       @ (if fs = [] then [lit ''None.''] else []) @ concat blocks
       @ [lit ''## Indicators of Compromise'']
       @ (if iocs = [] then [lit ''None.''] else []) @ map ioc_line iocs @ [[]]
       @ (if concat nls \<noteq> [] then [lit ''## Channel coverage'', []] @ concat nls @ [[]] else []))"
    using report_lines_total [OF assms(1,2)] by blast
  moreover have "concat nls \<noteq> []" using notes_body(2) [OF nls] assms(3) by blast
  ultimately have "render_markdown s fs iocs name ns = Inr (join [10] ((report_head s fs name
       @ (if fs = [] then [lit ''None.''] else []) @ concat blocks
       @ [lit ''## Indicators of Compromise'']
       @ (if iocs = [] then [lit ''None.''] else []) @ map ioc_line iocs @ [[]])
       @ [lit ''## Channel coverage'', []] @ concat nls @ [[]]))"
    unfolding render_markdown_def by (simp only: bindE_Inr if_True append_assoc not_False_eq_True simp_thms)
  then show ?thesis by blast
qed



text \<open>
  Without that condition a snapshot forges a heading: the user id is stored unchecked and printed as
  it is, so a text with a line end in it starts a line of its own.
\<close>

lemma report_forged_heading:
  assumes "render_markdown s fs iocs name ns = Inr t"
    and "cm_euid (sn_capture s) = JStr (lit ''0'' @ [10] @ lit ''## Forged'')"
  shows "sublist ([10] @ lit ''## Forged'' @ [10]) t"
proof -
  obtain ls where "report_lines s fs iocs name ns = Inr ls" and t: "t = join [10] ls"
    using assms(1) by (auto simp: render_markdown_def bindE_eq_Inr_iff)
  then obtain a b c w l rest where "ls = a # b # c # (w @ [10] @ lit ''## Forged'') # l # rest"
    using assms(2) by (auto simp: report_lines_def bindE_eq_Inr_iff report_head_def Let_def json_str_def)
  then have "t = (a @ 10 # b @ 10 # c @ 10 # w) @ ([10] @ lit ''## Forged'' @ [10]) @
      join [10] (l # rest)"
    using t by simp
  then show ?thesis unfolding sublist_def by blast
qed

text \<open>
  C19: Every note that an analysis returns, and besides these any note with a reason the renderer
  does not know, is shown in the Markdown report: under the coverage heading, in the order of the
  notes, each contributes lines that start with an item naming its channel; the item of an unknown
  reason names the reason, and its lines the keys of the detail. None of these lines holds an
  invisible character or is a heading.
\<close>

theorem note_never_silent:
  assumes "analyze s b = Inr fs" and "extract_iocs fs = Inr iocs" and "channel_notes s = Inr ns"
    and "list_all (\<lambda>n. cn_reason n \<notin> {lit ''saturated'', lit ''uncorroborated''}) extra"
    and "ns @ extra \<noteq> []"
  shows "\<exists>front blocks.
     render_markdown s fs iocs name (ns @ extra) =
       Inr (join [10] (front @ [lit ''## Channel coverage'', []] @ concat blocks @ [[]])) \<and>
     list_all2 (\<lambda>n ls. ls \<noteq> [] \<and> prefix (lit ''- '' @ md_code (cn_channel n)) (hd ls) \<and>
       list_all body_line ls) (ns @ extra) blocks \<and>
     list_all2 (\<lambda>n ls. sublist (md_code (cn_reason n)) (hd ls) \<and>
       (\<forall>k \<in> fst ` set (cn_detail n). sublist (md_code k) (concat ls))) extra (drop (length ns) blocks)"
proof -
  let ?generic = "\<lambda>n. [lit ''- '' @ md_code (cn_channel n) @ lit '' did not contribute (reason: '' @
      md_code (cn_reason n) @ lit '').'', lit ''  - detail keys: '' @ detail_keys md_code n]"
  have "note_lines n = Inr (?generic n)" if "n \<in> set extra" for n
    using that assms(4) by (simp add: note_lines_def list_all_iff)
  then have g: "mapE note_lines extra = Inr (map ?generic extra)" by (rule mapE_total)
  obtain nls where nls: "mapE note_lines ns = Inr nls" using channel_notes_lines [OF assms(3)] by blast
  let ?blocks = "nls @ map ?generic extra"
  have m: "mapE note_lines (ns @ extra) = Inr ?blocks"
    using nls g by (simp add: mapE_Inr_iff list_all2_appendI)
  obtain front where "render_markdown s fs iocs name (ns @ extra) =
      Inr (join [10] (front @ [lit ''## Channel coverage'', []] @ concat ?blocks @ [[]]))"
    using markdown_coverage [OF assms(1) m assms(5)] by blast
  moreover have "list_all2 (\<lambda>n ls. ls \<noteq> [] \<and> prefix (lit ''- '' @ md_code (cn_channel n)) (hd ls) \<and>
       list_all body_line ls) (ns @ extra) ?blocks"
    using m [unfolded mapE_Inr_iff] by (rule list_all2_mono) (auto dest!: note_lines_shape)
  moreover have "sublist (md_code (cn_reason n)) (hd (?generic n)) \<and>
      (\<forall>k \<in> fst ` set (cn_detail n). sublist (md_code k) (concat (?generic n)))" for n
  proof (intro conjI ballI)
    show "sublist (md_code (cn_reason n)) (hd (?generic n))"
      by (simp only: list.sel(1) sublist_middle)
    fix k
    assume "k \<in> fst ` set (cn_detail n)"
    then have "sublist (md_code k) (detail_keys md_code n)" by (rule detail_keys_sublist)
    then show "sublist (md_code k) (concat (?generic n))"
      by (simp add: sublist_append)
  qed
  then have "list_all2 (\<lambda>n ls. sublist (md_code (cn_reason n)) (hd ls) \<and>
       (\<forall>k \<in> fst ` set (cn_detail n). sublist (md_code k) (concat ls))) extra
       (drop (length ns) ?blocks)"
    using mapE_length [OF nls] by (simp add: list_all2_map2 list_all2_same)
  ultimately show ?thesis by blast
qed

theorem note_never_silent_witness:
  "\<exists>fs iocs front blocks. analyze clean None = Inr fs \<and>
     render_markdown clean fs iocs None ([] @ [\<lparr>cn_channel = lit ''ftrace'', cn_reason = lit ''unreadable'',
       cn_detail = [(lit ''errno'', JInt 13)]\<rparr>]) =
     Inr (join [10] (front @ [lit ''## Channel coverage'', []] @ concat blocks @ [[]])) \<and>
     length blocks = 1"
proof -
  let ?extra = "[\<lparr>cn_channel = lit ''ftrace'', cn_reason = lit ''unreadable'',
       cn_detail = [(lit ''errno'', JInt 13)]\<rparr>]"
  have "\<not> isl (all_signals clean None)" by code_simp
  then obtain fs where fs: "analyze clean None = Inr fs" by (auto simp: analyze_def not_isl_iff)
  moreover obtain iocs where iocs: "extract_iocs fs = Inr iocs"
    using fs ioc_keys by (fastforce simp: analyze_def)
  moreover have "channel_notes clean = Inr []" by code_simp
  moreover have "list_all (\<lambda>n. cn_reason n \<notin> {lit ''saturated'', lit ''uncorroborated''}) ?extra"
    by code_simp
  ultimately obtain front blocks where
    "render_markdown clean fs iocs None ([] @ ?extra) =
       Inr (join [10] (front @ [lit ''## Channel coverage'', []] @ concat blocks @ [[]]))"
    "list_all2 (\<lambda>n ls. ls \<noteq> [] \<and> prefix (lit ''- '' @ md_code (cn_channel n)) (hd ls) \<and>
       list_all body_line ls) ([] @ ?extra) blocks"
    using note_never_silent [of clean None fs iocs "[]" ?extra None] by blast
  moreover from this(2) have "length blocks = 1" by (auto dest: list_all2_lengthD)
  ultimately show ?thesis using fs by blast
qed

text \<open>What the report shows of one finding.\<close>

definition shows_finding :: "json \<Rightarrow> finding \<Rightarrow> bool" where
  "shows_finding j f \<longleftrightarrow>
     item j (lit ''kind'') = Inr (JStr (finding_kind_value (fi_kind f))) \<and>
     item j (lit ''subject'') = Inr (JStr (fi_subject f)) \<and>
     item j (lit ''confidence'') = Inr (JStr (confidence_value (fi_confidence f))) \<and>
     item j (lit ''channels_agree'') = Inr (strs_json (fi_channels_agree f)) \<and>
     item j (lit ''channels_dissent'') = Inr (strs_json (fi_channels_dissent f)) \<and>
     item j (lit ''evidence'') = Inr (json_sorted (JDict (fi_evidence f))) \<and>
     item j (lit ''summary'') = Inr (JStr (fi_summary f))"

text \<open>One sentence on the findings: how many, and the kinds among them in ascending order.\<close>

definition tells :: "pystr \<Rightarrow> finding list \<Rightarrow> bool" where
  "tells t fs \<longleftrightarrow>
     (if fs = [] then t = lit ''No findings.''
      else \<exists>kinds. sorted_wrt (<) kinds \<and> set kinds = (\<lambda>f. finding_kind_value (fi_kind f)) ` set fs \<and>
        t = str_int (int (length fs)) @ lit '' finding(s) '' @ [8212] @ lit '' '' @
          join (lit '', '') kinds @ lit ''. Investigate.'')"

lemma verdict_tells: "tells (verdict fs) fs"
  by (auto simp: tells_def verdict_def commas_def strict_sorted_iff
      intro!: exI [of _ "sorted_set (map (\<lambda>f. finding_kind_value (fi_kind f)) fs)"])

lemma finding_shown: "shows_finding (json_sorted (finding_to_dict f)) f"
  by (simp add: shows_finding_def finding_to_dict_def item_jobj_sorted)

lemma ranked_order:
  "sorted_wrt (\<lambda>f g. fi_confidence g < fi_confidence f \<or>
     fi_confidence f = fi_confidence g \<and> fi_subject f \<le> fi_subject g) (ranked fs)"
proof -
  have "sorted (map (\<lambda>f. (report_order (fi_confidence f), fi_subject f)) (ranked fs))"
    by (simp add: ranked_def)
  moreover have "report_order c < report_order d \<longleftrightarrow> d < c"
    "report_order c \<le> report_order d \<longleftrightarrow> d < c \<or> c = d" for c d
    by (cases c; cases d; simp add: less_confidence_def less_eq_confidence_def)+
  ultimately show ?thesis
    by (auto simp: sorted_map less_eq_prod_def elim!: sorted_wrt_mono_rel [rotated])
qed

text \<open>
  C18: The machine-readable report, parsed back, holds every finding exactly once with its kind,
  subject, confidence, channels, evidence and summary, the HIGH ones before the MEDIUM and these
  before the LOW ones, and by subject within a level; its three counts are the numbers of findings
  of these levels; its verdict says how many findings there are and of which kinds, or that there
  are none; and the indicators stand in it in their order.
\<close>

theorem report_json_findings:
  assumes "json_ok (report_payload s fs iocs name ns)"
  shows "\<exists>d js gs counts v.
     loads (render_json s fs iocs name ns @ [10]) = Inr d \<and>
     item d (lit ''findings'') = Inr (JList js) \<and> list_all2 shows_finding js gs \<and>
     mset gs = mset fs \<and>
     sorted_wrt (\<lambda>f g. fi_confidence g < fi_confidence f \<or>
       fi_confidence f = fi_confidence g \<and> fi_subject f \<le> fi_subject g) gs \<and>
     item d (lit ''summary'') = Inr counts \<and>
     item counts (lit ''high'') = Inr (JInt (int (length (filter (\<lambda>f. fi_confidence f = C_HIGH) fs)))) \<and>
     item counts (lit ''medium'') = Inr (JInt (int (length (filter (\<lambda>f. fi_confidence f = C_MEDIUM) fs)))) \<and>
     item counts (lit ''low'') = Inr (JInt (int (length (filter (\<lambda>f. fi_confidence f = C_LOW) fs)))) \<and>
     item d (lit ''verdict'') = Inr (JStr v) \<and> tells v fs \<and>
     item d (lit ''iocs'') = Inr (JList (map (\<lambda>i. json_sorted (ioc_to_dict i)) iocs))"
proof -
  let ?d = "json_sorted (report_payload s fs iocs name ns)"
  have l: "loads (render_json s fs iocs name ns @ [10]) = Inr ?d"
    using loads_json_text [OF assms, of "Some 0" 1] by (simp add: render_json_def)
  have p: "item ?d (lit ''findings'') = Inr (JList (map (\<lambda>f. json_sorted (finding_to_dict f)) (ranked fs)))"
    "item ?d (lit ''summary'') = Inr (json_sorted (counts fs))"
    "item ?d (lit ''verdict'') = Inr (JStr (verdict fs))"
    "item ?d (lit ''iocs'') = Inr (JList (map (\<lambda>i. json_sorted (ioc_to_dict i)) iocs))"
    by (simp_all add: report_payload_def Let_def item_jobj_sorted comp_def)
  have c: "item (json_sorted (counts fs)) (lit ''high'') = Inr (JInt (count_level C_HIGH fs))"
    "item (json_sorted (counts fs)) (lit ''medium'') = Inr (JInt (count_level C_MEDIUM fs))"
    "item (json_sorted (counts fs)) (lit ''low'') = Inr (JInt (count_level C_LOW fs))"
    by (simp_all add: counts_def item_jobj_sorted)
  have "list_all2 shows_finding (map (\<lambda>f. json_sorted (finding_to_dict f)) (ranked fs)) (ranked fs)"
    by (simp add: list_all2_map1 list_all2_same finding_shown)
  moreover have "mset (ranked fs) = mset fs" by (simp add: ranked_def)
  ultimately show ?thesis
    using l p c verdict_tells [of fs] ranked_order [of fs] unfolding count_level_def by blast
qed

theorem report_json_findings_witness:
  "\<exists>f d js. fi_subject f = lit ''pid 666'' \<and>
     loads (render_json clean [f] [] (Some (lit ''b.json'')) [] @ [10]) = Inr d \<and>
     item d (lit ''findings'') = Inr (JList js) \<and> list_all2 shows_finding js [f]"
proof -
  let ?f = "\<lparr>fi_kind = HIDDEN_PROCESS, fi_subject = lit ''pid 666'', fi_confidence = C_MEDIUM,
     fi_channels_agree = [lit ''syscall_kill''], fi_channels_dissent = [], fi_evidence = [],
     fi_summary = []\<rparr>"
  have "json_small (report_payload clean [?f] [] (Some (lit ''b.json'')) [])" by code_simp
  from report_json_findings [OF json_small_ok [OF this]] obtain d js gs where
    "loads (render_json clean [?f] [] (Some (lit ''b.json'')) [] @ [10]) = Inr d"
    "item d (lit ''findings'') = Inr (JList js)" "list_all2 shows_finding js gs" "mset gs = mset [?f]"
    by blast
  moreover from this(4) have "gs = [?f]" by (simp add: mset_single_iff_right)
  ultimately show ?thesis by (intro exI [of _ ?f]) auto
qed

end
