(* ===== verification/Host_Files.thy ===== *)
theory Host_Files
  imports Py_Str Py_Num
begin

text \<open>
  What the commands see of the machine: files of bytes, the two output streams, UTF-8 and paths. A
  command is a function of the machine's state that returns or raises and leaves a new state. The
  operating system's refusals and the texts of the standard library's exceptions are parameters.
\<close>

section \<open>UTF-8\<close>

definition is_surrogate :: "int \<Rightarrow> bool" where
  "is_surrogate c \<longleftrightarrow> 55296 \<le> c \<and> c < 57344"

definition utf8_char :: "int \<Rightarrow> int list" where
  "utf8_char c =
     (if c < 128 then [c]
      else if c < 2048 then [192 + c div 64, 128 + c mod 64]
      else if c < 65536 then [224 + c div 64 div 64, 128 + c div 64 mod 64, 128 + c mod 64]
      else [240 + c div 64 div 64 div 64, 128 + c div 64 div 64 mod 64, 128 + c div 64 mod 64,
            128 + c mod 64])"

definition utf8_encode :: "pystr \<Rightarrow> int list result" where
  "utf8_encode s =
     (if list_ex is_surrogate s then Inl UnicodeEncodeError else Inr (concat (map utf8_char s)))"

definition continuation :: "int \<Rightarrow> bool" where
  "continuation b \<longleftrightarrow> 128 \<le> b \<and> b < 192"

text \<open>
  One character in front of a list of bytes: the shortest form only, no surrogate unless \<open>sur\<close>
  (the error handler surrogatepass), nothing above the last code point.
\<close>

definition utf8_next :: "bool \<Rightarrow> int list \<Rightarrow> (int \<times> int list) option" where
  "utf8_next sur bs =
     (case bs of
        [] \<Rightarrow> None
      | b # r \<Rightarrow>
          if b < 128 then Some (b, r)
          else if 194 \<le> b \<and> b < 224 then
            (case r of
               b1 # r1 \<Rightarrow> if continuation b1 then Some ((b - 192) * 64 + (b1 - 128), r1) else None
             | _ \<Rightarrow> None)
          else if 224 \<le> b \<and> b < 240 then
            (case r of
               b1 # b2 # r2 \<Rightarrow>
                 (let c = ((b - 224) * 64 + (b1 - 128)) * 64 + (b2 - 128) in
                  if continuation b1 \<and> continuation b2 \<and> 2048 \<le> c \<and> (sur \<or> \<not> is_surrogate c)
                  then Some (c, r2) else None)
             | _ \<Rightarrow> None)
          else if 240 \<le> b \<and> b < 245 then
            (case r of
               b1 # b2 # b3 # r3 \<Rightarrow>
                 (let c = (((b - 240) * 64 + (b1 - 128)) * 64 + (b2 - 128)) * 64 + (b3 - 128) in
                  if continuation b1 \<and> continuation b2 \<and> continuation b3 \<and> 65536 \<le> c \<and> c < 1114112
                  then Some (c, r3) else None)
             | _ \<Rightarrow> None)
          else None)"

lemma utf8_next_length: "utf8_next sur bs = Some (c, r) \<Longrightarrow> length r < length bs"
  by (auto simp: utf8_next_def Let_def split: list.splits if_splits)

function (sequential) utf8_decode :: "bool \<Rightarrow> int list \<Rightarrow> pystr option" where
  "utf8_decode sur [] = Some []"
| "utf8_decode sur (b # bs) =
     (case utf8_next sur (b # bs) of
        None \<Rightarrow> None
      | Some (c, r) \<Rightarrow> map_option ((#) c) (utf8_decode sur r))"
  by pat_completeness auto
termination
  by (relation "measure (length \<circ> snd)") (auto dest: utf8_next_length)

lemma mod_64: "(128 + c mod 64 - 128 :: int) = c mod 64"
  by simp

lemma continuation_mod [simp]: "continuation (128 + c mod 64)"
  by (simp add: continuation_def)

lemma utf8_next_char:
  assumes "0 \<le> c" and "c < 1114112" and "sur \<or> \<not> is_surrogate c"
  shows "utf8_next sur (utf8_char c @ r) = Some (c, r)"
proof -
  have d1: "c div 64 * 64 + c mod 64 = c" by simp
  have d2: "(c div 64 div 64 * 64 + c div 64 mod 64) * 64 + c mod 64 = c" by simp
  have d3: "((c div 64 div 64 div 64 * 64 + c div 64 div 64 mod 64) * 64 + c div 64 mod 64) * 64 +
      c mod 64 = c" by simp
  consider "c < 128" | "128 \<le> c" "c < 2048" | "2048 \<le> c" "c < 65536" | "65536 \<le> c" by linarith
  then show ?thesis
  proof cases
    case 1
    then show ?thesis by (simp add: utf8_char_def utf8_next_def)
  next
    case 2
    then have "2 \<le> c div 64" "c div 64 < 32"
      using zdiv_mono1 [of 128 c 64] by (simp_all add: div_less_iff_less_mult)
    with 2 d1 show ?thesis by (simp add: utf8_char_def utf8_next_def)
  next
    case 3
    then have "c div 64 div 64 < 16" "0 \<le> c div 64 div 64"
      by (auto simp: div_less_iff_less_mult pos_imp_zdiv_nonneg_iff)
    with 3 d2 assms(3) show ?thesis by (simp add: utf8_char_def utf8_next_def Let_def)
  next
    case 4
    define q x y z where defs: "q = c div 64 div 64 div 64" "x = c div 64 div 64 mod 64"
      "y = c div 64 mod 64" "z = c mod 64"
    have q: "0 \<le> q" "q < 5"
      using 4 assms(2) by (auto simp: defs(1) div_less_iff_less_mult pos_imp_zdiv_nonneg_iff)
    have k: "continuation (128 + x)" "continuation (128 + y)" "continuation (128 + z)"
      by (simp_all add: defs)
    have u: "utf8_char c = [240 + q, 128 + x, 128 + y, 128 + z]"
      using 4 by (simp add: utf8_char_def defs)
    have "((q * 64 + x) * 64 + y) * 64 + z = c"
      unfolding defs by (rule d3)
    then have s: "262144 * q + (4096 * x + (y * 64 + z)) = c" by simp
    show ?thesis
      using 4(1) assms(2) q k by (simp add: u utf8_next_def Let_def s)
  qed
qed

lemma utf8_decode_encode:
  assumes "utf8_encode s = Inr bs" and "list_all (\<lambda>c. 0 \<le> c \<and> c < 1114112) s"
  shows "utf8_decode sur bs = Some s"
proof -
  have "utf8_decode sur (concat (map utf8_char s)) = Some s"
    if "\<not> list_ex is_surrogate s" "list_all (\<lambda>c. 0 \<le> c \<and> c < 1114112) s" for s
    using that
  proof (induction s)
    case (Cons c s)
    obtain b t where "utf8_char c = b # t"
      by (cases "utf8_char c") (auto simp: utf8_char_def split: if_splits)
    with utf8_next_char [of c sur "concat (map utf8_char s)"] Cons show ?case by simp
  qed simp
  with assms show ?thesis by (auto simp: utf8_encode_def split: if_splits)
qed

text \<open>Plain text is its own encoding.\<close>

lemma utf8_plain:
  assumes "list_all (\<lambda>c. 0 \<le> c \<and> c < 128) s"
  shows "utf8_encode s = Inr s" and "utf8_decode sur s = Some s"
proof -
  have "concat (map utf8_char s) = s"
    using assms by (induction s) (simp_all add: utf8_char_def)
  moreover have "\<not> list_ex is_surrogate s"
    using assms by (auto simp: list_ex_iff list_all_iff is_surrogate_def)
  ultimately show e: "utf8_encode s = Inr s" by (simp add: utf8_encode_def)
  have "list_all (\<lambda>c. 0 \<le> c \<and> c < 1114112) s" using assms by (auto simp: list_all_iff)
  with e show "utf8_decode sur s = Some s" by (rule utf8_decode_encode)
qed

text \<open>Text mode translates line ends when it reads.\<close>

fun universal_newlines :: "pystr \<Rightarrow> pystr" where
  "universal_newlines [] = []"
| "universal_newlines [c] = [if c = 13 then 10 else c]"
| "universal_newlines (c # d # s) =
     (if c = 13 then 10 # universal_newlines (if d = 10 then s else d # s)
      else c # universal_newlines (d # s))"

lemma universal_newlines_id: "13 \<notin> set s \<Longrightarrow> universal_newlines s = s"
  by (induction s rule: universal_newlines.induct) auto

section \<open>Paths\<close>

text \<open>\<open>str(Path(s))\<close> on a POSIX system: no empty and no dot component; two leading slashes stay.\<close>

definition path_parts :: "pystr \<Rightarrow> pystr list" where
  "path_parts s = filter (\<lambda>p. p \<noteq> [] \<and> p \<noteq> [46]) (split_on 47 s)"

definition path_root :: "pystr \<Rightarrow> pystr" where
  "path_root s =
     (if startswith s [47, 47] \<and> \<not> startswith s [47, 47, 47] then [47, 47]
      else if startswith s [47] then [47] else [])"

definition path_text :: "pystr \<Rightarrow> pystr" where
  "path_text s =
     (if path_root s = [] \<and> path_parts s = [] then [46]
      else path_root s @ join [47] (path_parts s))"

text \<open>\<open>Path(s).name\<close> and the text of \<open>Path(s).parent\<close>.\<close>

definition path_name :: "pystr \<Rightarrow> pystr" where
  "path_name s = (if path_parts s = [] then [] else last (path_parts s))"

definition path_parent :: "pystr \<Rightarrow> pystr" where
  "path_parent s =
     (if path_root s = [] \<and> butlast (path_parts s) = [] then [46]
      else path_root s @ join [47] (butlast (path_parts s)))"

section \<open>The machine\<close>

record world =
  wd_files :: "pystr \<Rightarrow> int list option"
  wd_out :: pystr
  wd_err :: pystr

text \<open>
  What the system answers besides: the refusal to read, write or create, if any, and \<open>str(exc)\<close> of
  an exception that carries no text in this model.
\<close>

record platform =
  pf_read :: "pystr \<Rightarrow> py_error option"
  pf_write :: "pystr \<Rightarrow> py_error option"
  pf_mkdir :: "pystr \<Rightarrow> py_error option"
  pf_message :: "py_error \<Rightarrow> pystr"

definition exc_text :: "platform \<Rightarrow> py_error \<Rightarrow> pystr" where
  "exc_text pf e =
     (case e of
        OSError _ t \<Rightarrow> t
      | IncompatibleSnapshot m \<Rightarrow> m
      | BaselineTampered m \<Rightarrow> m
      | WrongKey m \<Rightarrow> m
      | _ \<Rightarrow> pf_message pf e)"

text \<open>Which of the exceptions are \<open>OSError\<close>s and which are \<open>ValueError\<close>s.\<close>

fun is_os_error :: "py_error \<Rightarrow> bool" where
  "is_os_error (OSError _ _) = True"
| "is_os_error _ = False"

fun is_value_error :: "py_error \<Rightarrow> bool" where
  "is_value_error ValueError = True"
| "is_value_error JSONDecodeError = True"
| "is_value_error UnicodeDecodeError = True"
| "is_value_error UnicodeEncodeError = True"
| "is_value_error (WrongKey _) = True"
| "is_value_error (ParseError _) = True"
| "is_value_error (ModuleParseError _) = True"
| "is_value_error (KernelHookParseError _) = True"
| "is_value_error (SocketParseError _) = True"
| "is_value_error _ = False"

text \<open>Actions on the machine, and their composition; a raise ends a sequence, the state stays.\<close>

type_synonym 'a act = "world \<Rightarrow> 'a result \<times> world"

definition lift :: "'a result \<Rightarrow> 'a act" where
  "lift r w = (r, w)"

definition bindW :: "'a act \<Rightarrow> ('a \<Rightarrow> 'b act) \<Rightarrow> 'b act" where
  "bindW m f w = (case m w of (Inl e, w') \<Rightarrow> (Inl e, w') | (Inr x, w') \<Rightarrow> f x w')"

text \<open>\<open>try\<close>: what the body raised or returned, with its effects; the clauses come next.\<close>

definition attempt :: "'a act \<Rightarrow> 'a result act" where
  "attempt m w = (case m w of (r, w') \<Rightarrow> (Inr r, w'))"

definition print_out :: "pystr \<Rightarrow> unit act" where
  "print_out t w = (Inr (), w\<lparr>wd_out := wd_out w @ t\<rparr>)"

definition print_err :: "pystr \<Rightarrow> unit act" where
  "print_err t w = (Inr (), w\<lparr>wd_err := wd_err w @ t @ [10]\<rparr>)"

definition print_line :: "pystr \<Rightarrow> unit act" where
  "print_line t = print_out (t @ [10])"

definition print_lines :: "pystr list \<Rightarrow> unit act" where
  "print_lines ls = print_out (concat (map (\<lambda>l. l @ [10]) ls))"

definition no_file :: "pystr \<Rightarrow> py_error" where
  "no_file p = OSError 2 (lit ''[Errno 2] No such file or directory: '' @ py_repr p)"

definition read_bytes :: "platform \<Rightarrow> pystr \<Rightarrow> int list act" where
  "read_bytes pf p w =
     (case (pf_read pf p, wd_files w p) of
        (Some e, _) \<Rightarrow> (Inl e, w)
      | (None, None) \<Rightarrow> (Inl (no_file p), w)
      | (None, Some bs) \<Rightarrow> (Inr bs, w))"

definition read_text :: "platform \<Rightarrow> pystr \<Rightarrow> pystr act" where
  "read_text pf p =
     bindW (read_bytes pf p) (\<lambda>bs.
     lift (case utf8_decode False bs of
             None \<Rightarrow> Inl UnicodeDecodeError
           | Some s \<Rightarrow> Inr (universal_newlines s)))"

definition store :: "pystr \<Rightarrow> int list \<Rightarrow> world \<Rightarrow> world" where
  "store p bs w = w\<lparr>wd_files := (wd_files w)(p \<mapsto> bs)\<rparr>"

definition write_bytes :: "platform \<Rightarrow> pystr \<Rightarrow> int list \<Rightarrow> unit act" where
  "write_bytes pf p bs w =
     (case pf_write pf p of Some e \<Rightarrow> (Inl e, w) | None \<Rightarrow> (Inr (), store p bs w))"

text \<open>The file is opened, and so truncated, before the text is encoded.\<close>

definition write_text :: "platform \<Rightarrow> pystr \<Rightarrow> pystr \<Rightarrow> unit act" where
  "write_text pf p t =
     bindW (write_bytes pf p []) (\<lambda>_.
     bindW (lift (utf8_encode t)) (\<lambda>bs. write_bytes pf p bs))"

definition mkdir_parents :: "platform \<Rightarrow> pystr \<Rightarrow> unit act" where
  "mkdir_parents pf p = lift (case pf_mkdir pf p of None \<Rightarrow> Inr () | Some e \<Rightarrow> Inl e)"

lemma act_simps [simp]:
  "lift r w = (r, w)"
  "bindW m f w = (case m w of (Inl e, w') \<Rightarrow> (Inl e, w') | (Inr x, w') \<Rightarrow> f x w')"
  "attempt m w = (case m w of (r, w') \<Rightarrow> (Inr r, w'))"
  "print_out t w = (Inr (), w\<lparr>wd_out := wd_out w @ t\<rparr>)"
  "print_err t w = (Inr (), w\<lparr>wd_err := wd_err w @ t @ [10]\<rparr>)"
  by (simp_all add: lift_def bindW_def attempt_def print_out_def print_err_def)

text \<open>A file of plain text is read back as it was written.\<close>

lemma read_written:
  assumes "list_all (\<lambda>c. 0 \<le> c \<and> c < 128) t" and "13 \<notin> set t" and "pf_read pf p = None"
  shows "read_text pf p (store p t w) = (Inr t, store p t w)"
  by (simp add: read_text_def read_bytes_def store_def utf8_plain [OF assms(1)]
      universal_newlines_id [OF assms(2)] assms(3))

lemma write_plain:
  assumes "list_all (\<lambda>c. 0 \<le> c \<and> c < 128) t" and "pf_write pf p = None"
  shows "write_text pf p t w = (Inr (), store p t w)"
  by (simp add: write_text_def write_bytes_def utf8_plain [OF assms(1)] assms(2) store_def)

end
