(* ===== verification/Baseline.thy ===== *)
theory Baseline
  imports Host_Files Snapshot_Text
begin

text \<open>
  \<open>baseline/store.py\<close>: a baseline is a snapshot file with a detached signature over its bytes. The
  cryptography is a parameter: how key files are read, how a message is signed and whether a
  signature verifies.
\<close>

section \<open>Decoding\<close>

text \<open>\<open>Snapshot.from_dict\<close> as the commands run it: the warnings of the gate go to standard error.\<close>

definition decode_snapshot :: "json \<Rightarrow> snapshot act" where
  "decode_snapshot d =
     bindW (lift (check_schema_version d)) (\<lambda>ls w.
       (snapshot_from_dict d, w\<lparr>wd_err := wd_err w @ concat (map (\<lambda>l. l @ [10]) ls)\<rparr>))"

text \<open>
  \<open>json.loads\<close> of bytes: the encoding is guessed from a byte order mark and from zero bytes. UTF-16
  and UTF-32 are outside the contract, a UTF-8 mark is dropped, surrogates pass.
\<close>

definition utf8_document :: "int list \<Rightarrow> bool" where
  "utf8_document b \<longleftrightarrow>
     \<not> (startswith b [0, 0, 254, 255] \<or> startswith b [255, 254] \<or> startswith b [254, 255]) \<and>
     (startswith b [239, 187, 191] \<or>
      (if 4 \<le> length b then b ! 0 \<noteq> 0 \<and> b ! 1 \<noteq> 0
       else length b = 2 \<longrightarrow> b ! 0 \<noteq> 0 \<and> b ! 1 \<noteq> 0))"

definition loads_bytes :: "int list \<Rightarrow> json result" where
  "loads_bytes b =
     (if \<not> utf8_document b then Inl OutOfContract
      else case utf8_decode True (if startswith b [239, 187, 191] then drop 3 b else b) of
        None \<Rightarrow> Inl UnicodeDecodeError
      | Some s \<Rightarrow> loads s)"

section \<open>The store\<close>

text \<open>A key file holds an Ed25519 key, a key of another kind (\<open>None\<close>), or no key at all (an error).\<close>

definition load_key :: "string \<Rightarrow> platform \<Rightarrow> (int list \<Rightarrow> 'k option result) \<Rightarrow> pystr \<Rightarrow> 'k act" where
  "load_key kind pf pem path =
     bindW (read_bytes pf path) (\<lambda>bs.
     lift (bindE (pem bs) (\<lambda>k. case k of
       None \<Rightarrow> Inl (WrongKey (path @ lit '' is not an ed25519 '' @ lit kind @ lit '' key''))
     | Some key \<Rightarrow> Inr key)))"

definition load_private_key :: "platform \<Rightarrow> (int list \<Rightarrow> 'k option result) \<Rightarrow> pystr \<Rightarrow> 'k act" where
  "load_private_key = load_key ''private''"

definition load_public_key :: "platform \<Rightarrow> (int list \<Rightarrow> 'k option result) \<Rightarrow> pystr \<Rightarrow> 'k act" where
  "load_public_key = load_key ''public''"

definition sig_path :: "pystr \<Rightarrow> pystr" where
  "sig_path p = path_text (p @ lit ''.sig'')"

definition write_baseline ::
  "platform \<Rightarrow> ('sk \<Rightarrow> int list \<Rightarrow> int list) \<Rightarrow> snapshot \<Rightarrow> pystr \<Rightarrow> 'sk \<Rightarrow> unit act" where
  "write_baseline pf sign s out key =
     bindW (lift (bindE (snapshot_to_json False s) utf8_encode)) (\<lambda>data.
     bindW (mkdir_parents pf (path_parent out)) (\<lambda>_.
     bindW (write_bytes pf out data) (\<lambda>_.
     write_bytes pf (sig_path out) (sign key data))))"

definition load_baseline ::
  "platform \<Rightarrow> ('pk \<Rightarrow> int list \<Rightarrow> int list \<Rightarrow> bool) \<Rightarrow> pystr \<Rightarrow> 'pk \<Rightarrow> snapshot act" where
  "load_baseline pf verify path key =
     bindW (read_bytes pf path) (\<lambda>data.
     bindW (attempt (read_bytes pf (sig_path path))) (\<lambda>r.
     case r of
       Inl e \<Rightarrow>
         if is_os_error e then lift (Inl (BaselineTampered (lit ''missing signature for '' @ path)))
         else lift (Inl e)
     | Inr signature \<Rightarrow>
         if \<not> verify key signature data
         then lift (Inl (BaselineTampered (lit ''signature mismatch for '' @ path)))
         else bindW (lift (loads_bytes data)) decode_snapshot))"

section \<open>The signature has a file of its own\<close>

lemma last_split_join:
  assumes "ws \<noteq> []" and "list_all (\<lambda>w. 47 \<notin> set w) ws"
  shows "last (split_on 47 (join [47] ws)) = last ws"
proof -
  have "list_all (list_all (\<lambda>c. \<not> c = 47)) ws" using assms(2) by (auto simp: list_all_iff)
  then have "split_on 47 (join [47] ws) = ws"
    unfolding split_on_def using assms(1) by (intro split_by_join) simp_all
  then show ?thesis by simp
qed

lemma split_on_slash: "split_on 47 (47 # s) = [] # split_on 47 s"
  using split_on_append [of 47 "[]" s] by simp

lemma split_on_nonempty: "split_on c s \<noteq> []"
  by (simp add: split_on_def)

lemma split_on_parts: "w \<in> set (split_on c s) \<Longrightarrow> c \<notin> set w"
  using split_by_pieces [of "\<lambda>x. x = c" s] by (auto simp: split_on_def)

lemma last_path_text:
  assumes "path_parts q \<noteq> []"
  shows "last (split_on 47 (path_text q)) = last (path_parts q)"
proof -
  have "list_all (\<lambda>w. 47 \<notin> set w) (path_parts q)"
    by (auto simp: path_parts_def list_all_iff dest: split_on_parts)
  from last_split_join [OF assms this] show ?thesis
    using assms by (auto simp: path_text_def path_root_def split_on_slash split_on_nonempty)
qed

lemma last_split_append:
  assumes "47 \<notin> set t"
  shows "last (split_on 47 (s @ t)) = last (split_on 47 s) @ t"
proof (induction s)
  case Nil
  then show ?case using split_on_single [OF assms] by simp
next
  case (Cons c s)
  obtain w ws v vs where w: "split_on 47 s = w # ws" "split_on 47 (s @ t) = v # vs"
    using split_on_nonempty by (metis neq_Nil_conv)
  with Cons have l: "last (v # vs) = last (w # ws) @ t" by simp
  have "ws = [] \<longleftrightarrow> vs = []"
  proof -
    have "length (split_on 47 (s @ t)) = length (split_on 47 s)"
      using assms unfolding split_on_def
    proof (induction s)
      case Nil
      then show ?case using split_on_single [of 47 t] by (simp add: split_on_def)
    qed (auto split: list.splits)
    then show ?thesis by (auto simp: w)
  qed
  with l w show ?case by (cases "c = 47") (auto simp: split_on_def)
qed

lemma sig_path_differs: "sig_path p \<noteq> p"
proof
  assume eq: "sig_path p = p"
  let ?c = "last (split_on 47 p)" and ?x = "lit ''.sig''"
  have "47 \<notin> set ?x" by (simp add: lit_def)
  then have l: "last (split_on 47 (p @ ?x)) = ?c @ ?x" by (rule last_split_append)
  have keep: "?c @ ?x \<noteq> [] \<and> ?c @ ?x \<noteq> [46]" by (cases ?c) (simp_all add: lit_def)
  obtain ws where ws: "split_on 47 (p @ ?x) = ws @ [?c @ ?x]"
    using l split_on_nonempty by (metis append_butlast_last_id)
  have "path_parts (p @ ?x) = filter (\<lambda>q. q \<noteq> [] \<and> q \<noteq> [46]) ws @ [?c @ ?x]"
    using keep by (simp add: path_parts_def ws)
  then have "last (split_on 47 (sig_path p)) = ?c @ ?x"
    using last_path_text [of "p @ ?x"] by (simp add: sig_path_def)
  with eq show False by simp
qed

section \<open>Properties of the store\<close>

lemma plain_ascii:
  assumes "plain_text t"
  shows "list_all (\<lambda>c. 0 \<le> c \<and> c < 128) t" and "13 \<notin> set t" and "loads_bytes t = loads t"
proof -
  show a: "list_all (\<lambda>c. 0 \<le> c \<and> c < 128) t" and "13 \<notin> set t"
    using assms by (auto simp: plain_text_def list_all_iff)
  have nz: "t ! i \<noteq> 0" if "i < length t" for i
    using assms that by (auto simp: plain_text_def list_all_length)
  have "c \<le> 126" if "c \<in> set t" for c
    using assms that by (auto simp: plain_text_def list_all_iff)
  then have "\<not> startswith t (b # bs)" if "126 < b" for b bs
    using that by (cases t) (force simp: startswith_def)+
  moreover have "\<not> startswith t [0, 0, 254, 255]"
    using nz [of 0] by (cases t) (auto simp: startswith_def)
  moreover have "t ! 0 \<noteq> 0" "t ! 1 \<noteq> 0" if "2 \<le> length t"
  proof -
    show "t ! 0 \<noteq> 0" by (rule nz) (use that in linarith)
    show "t ! 1 \<noteq> 0" by (rule nz) (use that in linarith)
  qed
  ultimately have "utf8_document t" "\<not> startswith t [239, 187, 191]"
    by (auto simp: utf8_document_def)
  then show "loads_bytes t = loads t" by (simp add: loads_bytes_def utf8_plain(2) [OF a])
qed

text \<open>Verification precedes trust: nothing of a file is decoded or printed before its signature verified.\<close>

lemma load_baseline_cases:
  assumes "wd_files w p = Some data" and "pf_read pf p = None" and "pf_read pf (sig_path p) = None"
  shows "load_baseline pf verify p key w =
     (case wd_files w (sig_path p) of
        None \<Rightarrow> (Inl (BaselineTampered (lit ''missing signature for '' @ p)), w)
      | Some signature \<Rightarrow>
          if verify key signature data then bindW (lift (loads_bytes data)) decode_snapshot w
          else (Inl (BaselineTampered (lit ''signature mismatch for '' @ p)), w))"
  using assms by (simp add: load_baseline_def read_bytes_def no_file_def split: option.split)

definition reachable_files :: "platform \<Rightarrow> pystr list \<Rightarrow> bool" where
  "reachable_files pf ps \<longleftrightarrow> list_all (\<lambda>p. pf_read pf p = None \<and> pf_write pf p = None) ps"

lemma write_baseline_files:
  assumes "snapshot_ok s" and "snapshot_to_dict s = Inr d" and "json_ok d"
    and "pf_mkdir pf (path_parent p) = None" and "reachable_files pf [p, sig_path p]"
  shows "\<exists>t. write_baseline pf sign s p sk w =
       (Inr (), store (sig_path p) (sign sk t) (store p t w)) \<and> plain_text t \<and>
     loads t = Inr (json_sorted d)"
proof -
  obtain t where t: "snapshot_to_json False s = Inr t" "plain_text t"
    using snapshot_file_text [OF assms(1-3)] by blast
  have "t = json_text None d" using t(1) assms(2) by (simp add: snapshot_to_json_def)
  then have "loads t = Inr (json_sorted d)"
    using loads_json_text [OF assms(3), of None 0] by simp
  with t show ?thesis
    using assms(4,5) utf8_plain(1) [OF plain_ascii(1) [OF t(2)]]
    by (auto simp: write_baseline_def mkdir_parents_def write_bytes_def reachable_files_def)
qed

lemma decode_snapshot_runs:
  assumes "snapshot_from_dict d = Inr s"
  shows "\<exists>w'. decode_snapshot d w = (Inr s, w') \<and> wd_files w' = wd_files w \<and> wd_out w' = wd_out w"
proof -
  obtain ls where "check_schema_version d = Inr ls"
    using assms by (auto simp: snapshot_from_dict_def)
  with assms show ?thesis by (simp add: decode_snapshot_def)
qed

text \<open>
  C7: A baseline that was written and signed loads as the snapshot it was made from, in file order,
  with the public key of the signer. After any change of its bytes, or of nothing but its signature
  file being removed, loading it fails as tampered with before anything of the file is decoded: no
  output appears and no file changes. This holds for every signature scheme whose signatures verify
  the message they were made for and no other.
\<close>

theorem baseline_tamper_evident:
  assumes "snapshot_ok s" and "snapshot_to_dict s = Inr d" and "json_ok d"
    and "pf_mkdir pf (path_parent p) = None" and "reachable_files pf [p, sig_path p]"
    and signature: "\<And>m m'. verify pk (sign sk m) m' \<longleftrightarrow> m = m'"
  shows "\<exists>t w' w''. write_baseline pf sign s p sk w = (Inr (), w') \<and> wd_files w' p = Some t \<and>
     load_baseline pf verify p pk w' = (Inr (snapshot_filed s), w'') \<and> wd_out w'' = wd_out w' \<and>
     (\<forall>t'. t' \<noteq> t \<longrightarrow> load_baseline pf verify p pk (store p t' w') =
        (Inl (BaselineTampered (lit ''signature mismatch for '' @ p)), store p t' w')) \<and>
     (let w0 = w'\<lparr>wd_files := (wd_files w')(sig_path p := None)\<rparr> in
      load_baseline pf verify p pk w0 = (Inl (BaselineTampered (lit ''missing signature for '' @ p)), w0))"
proof -
  obtain t where t: "write_baseline pf sign s p sk w =
      (Inr (), store (sig_path p) (sign sk t) (store p t w))" "plain_text t" "loads t = Inr (json_sorted d)"
    using write_baseline_files [OF assms(1-5), of sign sk w] by (elim exE conjE)
  let ?w = "store (sig_path p) (sign sk t) (store p t w)"
  have p: "sig_path p \<noteq> p" "p \<noteq> sig_path p" using sig_path_differs [of p] by auto
  have r: "pf_read pf p = None" "pf_read pf (sig_path p) = None"
    using assms(5) by (simp_all add: reachable_files_def)
  note cases = load_baseline_cases [OF _ r]
  obtain w'' where "decode_snapshot (json_sorted d) ?w = (Inr (snapshot_filed s), w'')"
    "wd_out w'' = wd_out ?w"
    using decode_snapshot_runs snapshot_text(1) [OF assms(1,2)] by blast
  then have "load_baseline pf verify p pk ?w = (Inr (snapshot_filed s), w'')"
    using p t by (subst cases [of _ t]) (simp_all add: store_def signature plain_ascii(3))
  moreover have "load_baseline pf verify p pk (store p t' ?w) =
      (Inl (BaselineTampered (lit ''signature mismatch for '' @ p)), store p t' ?w)" if "t' \<noteq> t" for t'
    using p that by (subst cases [of _ t']) (simp_all add: store_def signature)
  moreover have "load_baseline pf verify p pk (?w\<lparr>wd_files := (wd_files ?w)(sig_path p := None)\<rparr>) =
      (Inl (BaselineTampered (lit ''missing signature for '' @ p)),
       ?w\<lparr>wd_files := (wd_files ?w)(sig_path p := None)\<rparr>)"
    using p by (subst cases [of _ t]) (simp_all add: store_def)
  moreover have "wd_files ?w p = Some t" using p by (simp add: store_def)
  ultimately show ?thesis
    using t(1) \<open>wd_out w'' = wd_out ?w\<close> unfolding Let_def
    by (intro exI [of _ t] exI [of _ ?w] exI [of _ w''] conjI allI impI) assumption+
qed

theorem baseline_tamper_evident_witness:
  "\<exists>pf t w' w''. write_baseline pf (\<lambda>sk m. m) infected (lit ''/b.json'') () \<lparr>wd_files = (\<lambda>p. None), wd_out = [], wd_err = []\<rparr> =
       (Inr (), w') \<and> wd_files w' (lit ''/b.json'') = Some t \<and>
     load_baseline pf (\<lambda>pk sig m. sig = m) (lit ''/b.json'') () w' = (Inr (snapshot_filed infected), w'')"
proof -
  let ?pf = "\<lparr>pf_read = (\<lambda>p. None), pf_write = (\<lambda>p. None), pf_mkdir = (\<lambda>p. None), pf_message = (\<lambda>e. [])\<rparr>"
  obtain d where d: "snapshot_to_dict infected = Inr d" "json_ok d" using infected_text by blast
  have "pf_mkdir ?pf (path_parent (lit ''/b.json'')) = None"
    "reachable_files ?pf [lit ''/b.json'', sig_path (lit ''/b.json'')]"
    by (simp_all add: reachable_files_def)
  from baseline_tamper_evident [OF infected_ok d this, of "\<lambda>pk sig m. sig = m" "()" "\<lambda>sk m. m" "()"]
  show ?thesis by blast
qed

end
