(* ===== verification/Parse_Procfs.thy ===== *)
theory Parse_Procfs
  imports Py_Num
begin

text \<open>
  \<open>parsers/procfs.py\<close>: the parsers of \<open>/proc/[pid]/stat\<close>, \<open>status\<close> and \<open>cmdline\<close>. The lemmas show
  that they fail only with \<open>ParseError\<close> and that they read back what the kernel prints, whatever
  the process calls itself.
\<close>

section \<open>Records\<close>

record stat_fields =
  sf_pid :: int
  sf_comm :: pystr
  sf_state :: pystr
  sf_ppid :: int
  sf_flags :: int
  sf_num_threads :: int
  sf_starttime_ticks :: int

record status_fields =
  st_uid :: "int list"
  st_gid :: "int list"
  st_tgid :: int
  st_name :: "pystr option"

text \<open>\<open>except ValueError as exc: raise E(msg) from exc\<close>.\<close>

definition on_value_error :: "py_error \<Rightarrow> 'a result \<Rightarrow> 'a result" where
  "on_value_error e r = (case r of Inl ValueError \<Rightarrow> Inl e | _ \<Rightarrow> r)"

lemma on_value_error_simps [simp, result_simps]:
  "on_value_error e (Inr x) = Inr x"
  "on_value_error e (Inl ValueError) = Inl e"
  by (simp_all add: on_value_error_def)

lemma on_value_error_Inr_iff [simp]: "on_value_error e r = Inr x \<longleftrightarrow> r = Inr x"
  by (auto simp: on_value_error_def split: sum.splits py_error.splits)

lemma py_int_error: "py_int s = Inl e \<Longrightarrow> e = ValueError"
  by (auto simp: py_int_def Let_def split: prod.splits option.splits if_splits)

section \<open>The parsers\<close>

definition parse_cmdline :: "pystr \<Rightarrow> pystr list" where
  "parse_cmdline text = filter (\<lambda>part. part \<noteq> []) (split_on 0 text)"

text \<open>The locals of the loop of \<open>parse_status\<close>, and one turn of it.\<close>

record status_acc =
  ac_uid :: "int list option"
  ac_gid :: "int list option"
  ac_tgid :: "int option"
  ac_name :: "pystr option"

definition no_status :: status_acc where
  "no_status = \<lparr>ac_uid = None, ac_gid = None, ac_tgid = None, ac_name = None\<rparr>"

definition status_line :: "pystr \<Rightarrow> status_acc \<Rightarrow> status_acc result" where
  "status_line line acc =
     (case split_once 58 line of
        None \<Rightarrow> Inr acc
      | Some (key, v) \<Rightarrow>
          if key = lit ''Uid'' then
            bindE (mapE py_int (split_ws v)) (\<lambda>xs. Inr (acc\<lparr>ac_uid := Some xs\<rparr>))
          else if key = lit ''Gid'' then
            bindE (mapE py_int (split_ws v)) (\<lambda>xs. Inr (acc\<lparr>ac_gid := Some xs\<rparr>))
          else if key = lit ''Tgid'' then
            bindE (py_int (strip v)) (\<lambda>i. Inr (acc\<lparr>ac_tgid := Some i\<rparr>))
          else if key = lit ''Name'' then Inr (acc\<lparr>ac_name := Some (strip v)\<rparr>)
          else Inr acc)"

definition parse_status :: "pystr \<Rightarrow> status_fields result" where
  "parse_status text =
     bindE (on_value_error
              (ParseError (lit ''non-numeric Uid/Gid/Tgid in status: '' @ py_repr text))
              (foldE status_line (splitlines text) no_status)) (\<lambda>acc.
     case (ac_uid acc, ac_gid acc, ac_tgid acc) of
       (Some uid, Some gid, Some tgid) \<Rightarrow>
         Inr \<lparr>st_uid = uid, st_gid = gid, st_tgid = tgid, st_name = ac_name acc\<rparr>
     | _ \<Rightarrow> Inl (ParseError (lit ''status missing Uid, Gid, or Tgid line: '' @ py_repr text)))"

text \<open>\<open>xs[i]\<close>: a position behind the end raises.\<close>

definition item_at :: "'a list \<Rightarrow> nat \<Rightarrow> 'a result" where
  "item_at xs i = (if i < length xs then Inr (xs ! i) else Inl IndexError)"

definition stat_values :: "pystr \<Rightarrow> pystr \<Rightarrow> pystr list \<Rightarrow> stat_fields result" where
  "stat_values pid comm rest =
     bindE (py_int (strip pid)) (\<lambda>p.
     bindE (item_at rest 0) (\<lambda>state.
     bindE (bindE (item_at rest 1) py_int) (\<lambda>ppid.
     bindE (bindE (item_at rest 6) py_int) (\<lambda>flags.
     bindE (bindE (item_at rest 17) py_int) (\<lambda>threads.
     bindE (bindE (item_at rest 19) py_int) (\<lambda>start.
     Inr \<lparr>sf_pid = p, sf_comm = comm, sf_state = state, sf_ppid = ppid, sf_flags = flags,
          sf_num_threads = threads, sf_starttime_ticks = start\<rparr>))))))"

text \<open>The length that the parser checks beforehand covers every position.\<close>

lemma item_at_covered: "20 \<le> length rest \<Longrightarrow> i < 20 \<Longrightarrow> item_at rest i = Inr (rest ! i)"
  by (simp add: item_at_def)

definition parse_stat :: "pystr \<Rightarrow> stat_fields result" where
  "parse_stat text' =
     (let text = rstrip text';
          no_comm = ParseError (lit ''no parenthesised comm field in stat line: '' @ py_repr text) in
      case (find_char 40 text, rfind_char 41 text) of
        (Some open_idx, Some close_idx) \<Rightarrow>
          if close_idx < open_idx then Inl no_comm
          else let rest = split_ws (drop (close_idx + 1) text) in
            if length rest < 20
            then Inl (ParseError (lit ''expected at least 20 fields after comm, got '' @
                   str_int (int (length rest)) @ lit '': '' @ py_repr text))
            else on_value_error (ParseError (lit ''non-numeric field in stat line: '' @ py_repr text))
                   (stat_values (take open_idx text)
                      (take (close_idx - (open_idx + 1)) (drop (open_idx + 1) text)) rest)
      | _ \<Rightarrow> Inl no_comm)"

section \<open>Failures\<close>

lemma mapE_py_int_error: "mapE py_int xs = Inl e \<Longrightarrow> e = ValueError"
  by (rule mapE_error [of py_int "\<lambda>e. e = ValueError"]) (rule py_int_error)

lemma status_line_error: "status_line line acc = Inl e \<Longrightarrow> e = ValueError"
  by (auto simp: status_line_def bindE_def dest: mapE_py_int_error py_int_error
      split: option.splits if_splits sum.splits)

lemma stat_values_error:
  "\<not> length rest < 20 \<Longrightarrow> stat_values pid comm rest = Inl e \<Longrightarrow> e = ValueError"
  by (auto simp: stat_values_def item_at_covered bindE_def dest: py_int_error split: sum.splits)

lemma on_value_error_wraps:
  "on_value_error e r = Inl e' \<Longrightarrow> (\<And>e''. r = Inl e'' \<Longrightarrow> e'' = ValueError) \<Longrightarrow> e' = e"
  by (cases r) auto

lemma parse_stat_error: "parse_stat text = Inl e \<Longrightarrow> \<exists>m. e = ParseError m"
  by (auto simp: parse_stat_def Let_def split: option.splits if_splits
      dest!: on_value_error_wraps dest: stat_values_error)

lemma parse_status_error: "parse_status text = Inl e \<Longrightarrow> \<exists>m. e = ParseError m"
proof -
  have "e' = ValueError" if "foldE status_line (splitlines text) no_status = Inl e'" for e'
    using foldE_error [of status_line "\<lambda>e. e = ValueError", OF status_line_error that] .
  then show "parse_status text = Inl e \<Longrightarrow> \<exists>m. e = ParseError m"
    by (auto simp: parse_status_def bindE_def split: sum.splits option.splits
        dest!: on_value_error_wraps)
qed

text \<open>
  C34: The stat and status parsers are total up to their own exception: on every text they return
  fields or raise ParseError, never a bare ValueError or IndexError, whatever a process put into
  its name.
\<close>

theorem procfs_parsers_raise_ParseError:
  "((\<exists>f. parse_stat text = Inr f) \<or> (\<exists>m. parse_stat text = Inl (ParseError m))) \<and>
   ((\<exists>f. parse_status text = Inr f) \<or> (\<exists>m. parse_status text = Inl (ParseError m)))"
  using parse_stat_error [of "text"] parse_status_error [of "text"]
  by (cases "parse_stat text"; cases "parse_status text") auto

section \<open>Reading back what the kernel prints\<close>

lemma strip_snoc_space: "strip (s @ [32]) = strip s"
proof (cases "list_all isspace s")
  case True
  then have "dropWhile isspace s = []" "dropWhile isspace (s @ [32]) = []"
    by (simp_all add: list_all_iff)
  then show ?thesis by (simp only: strip_def lstrip_def)
next
  case False
  then show ?thesis
    by (auto simp: strip_def lstrip_def rstrip_def dropWhile_append list_all_iff)
qed

lemma join_snoc_last: "ws \<noteq> [] \<Longrightarrow> last ws \<noteq> [] \<Longrightarrow> last (join sep ws) = last (last ws) \<and> join sep ws \<noteq> []"
  by (induction sep ws rule: join.induct) auto

lemma set_join: "c \<in> set (join sep ws) \<Longrightarrow> c \<in> set sep \<or> (\<exists>w \<in> set ws. c \<in> set w)"
  by (induction sep ws rule: join.induct) auto

lemma str_int_chars: "c \<in> set (str_int i) \<Longrightarrow> c = 45 \<or> 48 \<le> c \<and> c \<le> 57"
  using dec_digits_ascii by (auto simp: str_int_def list_all_iff is_ascii_digit_def split: if_splits)

text \<open>The line of \<open>/proc/[pid]/stat\<close>: pid, comm in parentheses, state and the other fields.\<close>

definition stat_text :: "int \<Rightarrow> pystr \<Rightarrow> pystr list \<Rightarrow> pystr" where
  "stat_text pid comm rest =
     str_int pid @ lit '' ('' @ comm @ lit '') '' @ join [32] rest @ [10]"

lemma cut_around:
  "drop (length (a @ x # b) + 1) (a @ x # b @ y # c) = c"
  "take (length a) (a @ x # b @ y # c) = a"
  "take (length (a @ x # b) - (length a + 1)) (drop (length a + 1) (a @ x # b @ y # c)) = b"
  by simp_all

lemma parse_stat_text:
  assumes rest: "list_all (\<lambda>w. ws_field w \<and> 41 \<notin> set w) rest" and len: "20 \<le> length rest"
  shows "parse_stat (stat_text pid comm rest) =
     on_value_error (ParseError (lit ''non-numeric field in stat line: '' @
         py_repr (butlast (stat_text pid comm rest))))
       (stat_values (str_int pid @ [32]) comm rest)"
proof -
  define body where "body = (str_int pid @ [32]) @ 40 # comm @ 41 # 32 # join [32] rest"
  have line: "stat_text pid comm rest = body @ [10]"
    by (simp add: stat_text_def body_def lit_def)
  have "last rest \<in> set rest" using len by (intro last_in_set) auto
  with rest have "last rest \<noteq> []" "\<not> isspace (last (last rest))"
    by (auto simp: list_all_iff ws_field_def)
  then have "join [32] rest \<noteq> []" "\<not> isspace (last (join [32] rest))"
    using join_snoc_last [of rest "[32]"] len by (cases rest; simp)+
  then have strip: "rstrip (stat_text pid comm rest) = body"
    unfolding line rstrip_newline
    using rstrip_append [of "join [32] rest" "(str_int pid @ [32]) @ 40 # comm @ [41, 32]"]
    by (simp add: body_def)
  have "40 \<notin> set (str_int pid @ [32])" by (auto dest: str_int_chars)
  then have find: "find_char 40 body = Some (length (str_int pid @ [32]))"
    unfolding body_def by (rule find_char_append)
  have "41 \<notin> set (32 # join [32] rest)"
    using rest by (auto simp: list_all_iff dest!: set_join)
  from rfind_char_append [OF this, of "(str_int pid @ [32]) @ 40 # comm"]
  have rfind: "rfind_char 41 body = Some (length ((str_int pid @ [32]) @ 40 # comm))"
    by (simp add: body_def)
  have "split_ws (32 # join [32] rest) = rest"
    using rest by (simp add: split_ws_join list_all_iff)
  moreover have "drop (length ((str_int pid @ [32]) @ 40 # comm) + 1) body = 32 # join [32] rest"
    "take (length (str_int pid @ [32])) body = str_int pid @ [32]"
    "take (length ((str_int pid @ [32]) @ 40 # comm) - (length (str_int pid @ [32]) + 1))
       (drop (length (str_int pid @ [32]) + 1) body) = comm"
    unfolding body_def by (rule cut_around)+
  moreover have "butlast (stat_text pid comm rest) = body" by (simp add: line butlast_append)
  ultimately show ?thesis
    using len unfolding parse_stat_def Let_def strip find rfind by (simp del: One_nat_def)
qed

text \<open>
  C33: Whatever a process calls itself, with spaces and parentheses in any arrangement, the stat
  parser returns that name and the pid, state, parent, flags, thread count and start time the
  kernel printed around it.
\<close>

theorem parse_stat_any_comm:
  assumes "list_all (\<lambda>w. ws_field w \<and> 41 \<notin> set w) rest" and "20 \<le> length rest"
    and "rest ! 1 = str_int ppid" and "rest ! 6 = str_int flags"
    and "rest ! 17 = str_int threads" and "rest ! 19 = str_int start"
    and "list_all printable_int [pid, ppid, flags, threads, start]"
  shows "parse_stat (stat_text pid comm rest) =
     Inr \<lparr>sf_pid = pid, sf_comm = comm, sf_state = rest ! 0, sf_ppid = ppid, sf_flags = flags,
          sf_num_threads = threads, sf_starttime_ticks = start\<rparr>"
proof -
  have "strip (str_int pid @ [32]) = str_int pid"
    using strip_no_space [of "str_int pid"] str_int_no_space [of _ pid] strip_snoc_space
    by (metis list_all_iff)
  then show ?thesis
    using assms by (simp add: parse_stat_text stat_values_def item_at_covered py_int_str_int)
qed

theorem parse_stat_any_comm_witness:
  "parse_stat (lit ''7 (a) S 1) (b) R 1 0 0 0 0 2 0 0 0 0 0 0 0 0 0 0 3 0 42'' @ [10]) =
     Inr \<lparr>sf_pid = 7, sf_comm = lit ''a) S 1) (b'', sf_state = lit ''R'', sf_ppid = 1,
          sf_flags = 2, sf_num_threads = 3, sf_starttime_ticks = 42\<rparr>"
proof -
  let ?rest = "[lit ''R''] @ map str_int [1, 0, 0, 0, 0, 2, 0, 0, 0, 0, 0, 0, 0, 0, 0, 0, 3, 0, 42]"
  have "list_all (\<lambda>w. ws_field w \<and> 41 \<notin> set w) ?rest" "20 \<le> length ?rest"
    "?rest ! 1 = str_int 1" "?rest ! 6 = str_int 2" "?rest ! 17 = str_int 3"
    "?rest ! 19 = str_int 42"
    by code_simp+
  moreover have "list_all printable_int [7, 1, 2, 3, 42]" by (simp add: printable_small)
  ultimately have "parse_stat (stat_text 7 (lit ''a) S 1) (b'') ?rest) =
     Inr \<lparr>sf_pid = 7, sf_comm = lit ''a) S 1) (b'', sf_state = ?rest ! 0, sf_ppid = 1,
          sf_flags = 2, sf_num_threads = 3, sf_starttime_ticks = 42\<rparr>"
    by (rule parse_stat_any_comm)
  moreover have "stat_text 7 (lit ''a) S 1) (b'') ?rest =
      lit ''7 (a) S 1) (b) R 1 0 0 0 0 2 0 0 0 0 0 0 0 0 0 0 3 0 42'' @ [10]"
    by code_simp
  ultimately show ?thesis by simp
qed

text \<open>
  Splitting a NUL-terminated argument vector gives the arguments back verbatim, empty ones
  dropped; no other character of an argument is touched.
\<close>

theorem parse_cmdline_arguments:
  assumes "list_all (\<lambda>a. 0 \<notin> set a) args"
  shows "parse_cmdline (concat (map (\<lambda>a. a @ [0]) args)) = filter (\<lambda>a. a \<noteq> []) args"
  using assms by (induction args) (simp_all add: parse_cmdline_def split_on_append)

theorem parse_cmdline_arguments_witness:
  "parse_cmdline (concat (map (\<lambda>a. a @ [0]) [lit ''[kworker/0]'', [], lit ''--k v''])) =
     [lit ''[kworker/0]'', lit ''--k v'']"
proof -
  have "list_all (\<lambda>a. 0 \<notin> set a) [lit ''[kworker/0]'', [], lit ''--k v'']" by code_simp
  from parse_cmdline_arguments [OF this] show ?thesis by simp
qed

section \<open>The status file\<close>

definition ignorable :: "pystr \<Rightarrow> bool" where
  "ignorable line \<longleftrightarrow>
     (case split_once 58 line of
        None \<Rightarrow> True
      | Some (key, _) \<Rightarrow> key \<notin> {lit ''Uid'', lit ''Gid'', lit ''Tgid'', lit ''Name''})"

definition status_entry :: "string \<Rightarrow> pystr \<Rightarrow> pystr" where
  "status_entry key v = lit key @ 58 # 9 # v"

lemma foldE_ignorable: "list_all ignorable xs \<Longrightarrow> foldE status_line xs acc = Inr acc"
  by (rule foldE_skip) (auto simp: list_all_iff ignorable_def status_line_def split: option.splits)

lemma split_status_entry: "58 \<notin> set (lit key) \<Longrightarrow> split_once 58 (status_entry key v) = Some (lit key, 9 # v)"
  by (simp add: status_entry_def split_once_append)

lemma isspace_tab [simp]: "isspace 9"
  by (simp add: isspace_def)

lemma strip_tab: "strip (9 # s) = strip s"
  by (simp add: strip_def lstrip_def)

lemma split_ints: "split_ws (9 # join [9] (map str_int xs)) = map str_int xs"
  by (simp add: split_ws_join_sep list_all_iff)

lemma mapE_py_int: "list_all printable_int xs \<Longrightarrow> mapE (\<lambda>x. py_int (str_int x)) xs = Inr xs"
  using mapE_total [of xs "\<lambda>x. py_int (str_int x)" "\<lambda>x. x"]
  by (simp add: list_all_iff py_int_str_int)

lemma splitlines_status:
  assumes "list_all one_line (before @ between @ after @ [name])"
    and "lines = status_entry ''Name'' name # before @ [status_entry ''Tgid'' (str_int tgid)] @ between @
       [status_entry ''Uid'' (join [9] (map str_int uid)),
        status_entry ''Gid'' (join [9] (map str_int gid))] @ after"
  shows "splitlines (unlines lines) = lines"
proof -
  have chars: "one_line (str_int i)" for i
    using str_int_chars [of _ i] by (fastforce simp: one_line_def list_all_iff is_line_break_def)
  have "one_line (join [9] (map str_int xs))" for xs
    using chars by (fastforce simp: one_line_def list_all_iff is_line_break_def dest!: set_join)
  moreover have "one_line (status_entry key v) \<longleftrightarrow> one_line v" if "one_line (lit key)" for key v
    using that by (simp add: status_entry_def one_line_def is_line_break_def)
  moreover have "one_line (lit ''Name'')" "one_line (lit ''Tgid'')" "one_line (lit ''Uid'')"
    "one_line (lit ''Gid'')" by code_simp+
  ultimately have "list_all one_line lines"
    using assms(1) chars by (simp add: assms(2))
  then show ?thesis by (rule splitlines_unlines)
qed

text \<open>
  The status parser finds the name, thread group and the four-valued Uid and Gid rows among any
  other lines, and a name that contains colons stays whole.
\<close>

theorem parse_status_fields:
  assumes "list_all one_line (before @ between @ after @ [name])"
    and "list_all ignorable (before @ between @ after)"
    and "list_all printable_int (tgid # uid @ gid)"
  shows "parse_status (unlines (status_entry ''Name'' name # before @
           [status_entry ''Tgid'' (str_int tgid)] @ between @
           [status_entry ''Uid'' (join [9] (map str_int uid)),
            status_entry ''Gid'' (join [9] (map str_int gid))] @ after)) =
     Inr \<lparr>st_uid = uid, st_gid = gid, st_tgid = tgid, st_name = Some (strip name)\<rparr>"
proof -
  define lines where "lines = status_entry ''Name'' name # before @
     [status_entry ''Tgid'' (str_int tgid)] @ between @
     [status_entry ''Uid'' (join [9] (map str_int uid)),
      status_entry ''Gid'' (join [9] (map str_int gid))] @ after"
  note split = splitlines_status [OF assms(1) lines_def]
  have keys: "58 \<notin> set (lit ''Name'')" "58 \<notin> set (lit ''Tgid'')" "58 \<notin> set (lit ''Uid'')"
    "58 \<notin> set (lit ''Gid'')" by code_simp+
  have tgid: "py_int (strip (str_int tgid)) = Inr tgid"
    using assms(3) strip_no_space [of "str_int tgid"] str_int_no_space [of _ tgid]
    by (simp add: list_all_iff py_int_str_int)
  have "foldE status_line lines no_status = Inr \<lparr>ac_uid = Some uid, ac_gid = Some gid,
      ac_tgid = Some tgid, ac_name = Some (strip name)\<rparr>"
    using assms(2,3) keys
    by (simp add: lines_def status_line_def [of "status_entry _ _"] split_status_entry
        foldE_ignorable no_status_def tgid strip_tab split_ints mapE_py_int)
  then show ?thesis
    unfolding parse_status_def lines_def [symmetric] split by simp
qed

theorem parse_status_fields_witness:
  "parse_status (unlines (status_entry ''Name'' (lit ''a:b'') # [lit ''Umask:'' @ 9 # lit ''0022''] @
       [status_entry ''Tgid'' (str_int 7)] @ [] @
       [status_entry ''Uid'' (join [9] (map str_int [1, 2])),
        status_entry ''Gid'' (join [9] (map str_int [3]))] @ [])) =
     Inr \<lparr>st_uid = [1, 2], st_gid = [3], st_tgid = 7, st_name = Some (lit ''a:b'')\<rparr>"
proof -
  let ?umask = "[lit ''Umask:'' @ 9 # lit ''0022'']"
  have "list_all one_line (?umask @ [] @ [] @ [lit ''a:b''])"
    "list_all ignorable (?umask @ [] @ [])" by code_simp+
  moreover have "list_all printable_int (7 # [1, 2] @ [3])" by (simp add: printable_small)
  ultimately have "parse_status (unlines (status_entry ''Name'' (lit ''a:b'') # ?umask @
           [status_entry ''Tgid'' (str_int 7)] @ [] @
           [status_entry ''Uid'' (join [9] (map str_int [1, 2])),
            status_entry ''Gid'' (join [9] (map str_int [3]))] @ [])) =
     Inr \<lparr>st_uid = [1, 2], st_gid = [3], st_tgid = 7, st_name = Some (strip (lit ''a:b''))\<rparr>"
    by (rule parse_status_fields)
  moreover have "strip (lit ''a:b'') = lit ''a:b''" by code_simp
  ultimately show ?thesis by (simp only:)
qed

end
