(* ===== verification/Parse_Modules.thy ===== *)
theory Parse_Modules
  imports Parse_Procfs
begin

text \<open>
  \<open>parsers/modules.py\<close>: \<open>/proc/modules\<close>, the taint word, the loader regions of \<open>vmallocinfo\<close> and
  the module tags of ftrace. A printed module table is read back row by row; a name is an ftrace
  tag exactly when some record ends in it, bracketed.
\<close>

record module_row =
  mr_name :: pystr
  mr_size :: int
  mr_refcount :: int
  mr_dependents :: "pystr list"
  mr_state :: pystr
  mr_base_addr :: pystr
  mr_taint :: "pystr option"

definition blank :: "pystr \<Rightarrow> bool" where
  "blank line \<longleftrightarrow> strip line = []"

definition dependents_of :: "pystr \<Rightarrow> pystr list" where
  "dependents_of field = (if field = lit ''-'' then [] else filter (\<lambda>d. d \<noteq> []) (split_on 44 field))"

text \<open>The parenthesised seventh column, without its parentheses.\<close>

definition taint_of :: "pystr list \<Rightarrow> pystr option" where
  "taint_of parts =
     (if length parts \<ge> 7 \<and> startswith (parts ! 6) (lit ''('') \<and> endswith (parts ! 6) (lit '')'')
      then Some (drop 1 (butlast (parts ! 6))) else None)"

definition module_line :: "pystr \<Rightarrow> module_row result" where
  "module_line line =
     (let parts = split_ws line in
      if length parts < 6
      then Inl (ModuleParseError (lit ''short /proc/modules line: '' @ py_repr line))
      else on_value_error (ModuleParseError (lit ''non-numeric field: '' @ py_repr line))
        (bindE (py_int (parts ! 1)) (\<lambda>size.
         bindE (py_int (parts ! 2)) (\<lambda>refcount.
         Inr \<lparr>mr_name = parts ! 0, mr_size = size, mr_refcount = refcount,
              mr_dependents = dependents_of (parts ! 3), mr_state = parts ! 4,
              mr_base_addr = parts ! 5, mr_taint = taint_of parts\<rparr>))))"

definition parse_proc_modules :: "pystr \<Rightarrow> module_row list result" where
  "parse_proc_modules text = mapE module_line (filter (\<lambda>line. \<not> blank line) (splitlines text))"

definition parse_tainted :: "pystr \<Rightarrow> int result" where
  "parse_tainted text =
     on_value_error (ModuleParseError (lit ''non-integer tainted value: '' @ py_repr text))
       (py_int (strip text))"

definition count_module_regions :: "pystr \<Rightarrow> int" where
  "count_module_regions text =
     int (length (filter (\<lambda>line. contains (lit ''load_module'') line) (splitlines text)))"

text \<open>
  \<open>line[line.rindex("[") + 1 : -1]\<close> of a right-stripped line that ends in a bracket; shared with
  \<open>parsers/kernel_hooks.py\<close>.
\<close>

definition bracket_tag :: "pystr \<Rightarrow> pystr option" where
  "bracket_tag line =
     (if endswith line (lit '']'')
      then case rfind_char 91 line of
             None \<Rightarrow> None
           | Some i \<Rightarrow> Some (butlast (drop (i + 1) line))
      else None)"

text \<open>The set of tags, as the list of its members in the order they are met.\<close>

definition parse_ftrace_modules :: "pystr \<Rightarrow> pystr list" where
  "parse_ftrace_modules text =
     concat (map (\<lambda>line. case bracket_tag (rstrip line) of None \<Rightarrow> [] | Some n \<Rightarrow> [n])
       (splitlines text))"

section \<open>Tags\<close>

lemma bracket_tag_iff:
  "bracket_tag line = Some n \<longleftrightarrow> (\<exists>p. line = p @ 91 # n @ [93] \<and> 91 \<notin> set n)"
proof
  assume a: "bracket_tag line = Some n"
  then obtain i where e: "endswith line (lit '']'')" and i: "rfind_char 91 line = Some i"
    and n: "n = butlast (drop (i + 1) line)"
    by (auto simp: bracket_tag_def split: option.splits if_splits)
  from e obtain q where q: "line = q @ [93]" by (auto simp: endswith_def suffix_def lit_def)
  from rfind_char_Some [OF i] have "i < length line" "line ! i = 91"
    "91 \<notin> set (drop (Suc i) line)" by auto
  with q have "i < length q" by (auto simp: nth_append split: if_splits)
  then have "line = take i q @ 91 # drop (Suc i) q @ [93]" "n = drop (Suc i) q"
    using \<open>line ! i = 91\<close> n id_take_nth_drop [OF \<open>i < length q\<close>] by (simp_all add: q nth_append)
  moreover have "91 \<notin> set (drop (Suc i) q)"
    using \<open>91 \<notin> set (drop (Suc i) line)\<close> \<open>i < length q\<close> by (simp add: q)
  ultimately show "\<exists>p. line = p @ 91 # n @ [93] \<and> 91 \<notin> set n" by blast
next
  assume "\<exists>p. line = p @ 91 # n @ [93] \<and> 91 \<notin> set n"
  then obtain p where p: "line = p @ 91 # n @ [93]" "91 \<notin> set n" by blast
  then have "rfind_char 91 line = Some (length p)"
    using rfind_char_append [of 91 "n @ [93]" p] by simp
  then show "bracket_tag line = Some n"
    by (simp add: bracket_tag_def endswith_def p lit_def suffix_def)
qed

text \<open>
  The ftrace parser reports a module name exactly when some record, trailing blanks aside, ends
  in that name in brackets; a name never holds an opening bracket.
\<close>

theorem ftrace_names_iff:
  "n \<in> set (parse_ftrace_modules text) \<longleftrightarrow>
     (\<exists>line \<in> set (splitlines text). \<exists>p. rstrip line = p @ 91 # n @ [93] \<and> 91 \<notin> set n)"
  by (auto simp: parse_ftrace_modules_def bracket_tag_iff split: option.splits)
    (metis bracket_tag_iff list.set_intros(1) not_None_eq option.inject)+

section \<open>The module table\<close>

definition dependents_text :: "pystr list \<Rightarrow> pystr" where
  "dependents_text ds = (if ds = [] then lit ''-'' else concat (map (\<lambda>d. d @ [44]) ds))"

definition row_text :: "module_row \<Rightarrow> pystr" where
  "row_text r = join [32]
     ([mr_name r, str_int (mr_size r), str_int (mr_refcount r), dependents_text (mr_dependents r),
       mr_state r, mr_base_addr r] @
      (case mr_taint r of None \<Rightarrow> [] | Some t \<Rightarrow> [lit ''('' @ t @ lit '')'']))"

definition row_ok :: "module_row \<Rightarrow> bool" where
  "row_ok r \<longleftrightarrow>
     ws_field (mr_name r) \<and> ws_field (mr_state r) \<and> ws_field (mr_base_addr r) \<and>
     printable_int (mr_size r) \<and> printable_int (mr_refcount r) \<and>
     list_all (\<lambda>d. ws_field d \<and> 44 \<notin> set d) (mr_dependents r) \<and>
     (case mr_taint r of None \<Rightarrow> True | Some t \<Rightarrow> list_all (\<lambda>c. \<not> isspace c) t)"

lemma in_ranges_mono:
  assumes "list_all (\<lambda>(lo, hi). list_ex (\<lambda>(lo', hi'). lo' \<le> lo \<and> hi \<le> hi') ss) rs"
    and "in_ranges rs c"
  shows "in_ranges ss c"
proof -
  from assms(2) obtain a b where ab: "(a, b) \<in> set rs" "a \<le> c" "c \<le> b"
    by (auto simp: in_ranges_def list_ex_iff)
  with assms(1) obtain a' b' where "(a', b') \<in> set ss" "a' \<le> a" "b \<le> b'"
    by (auto simp: list_all_iff list_ex_iff)
  with ab show ?thesis
    unfolding in_ranges_def list_ex_iff by (intro bexI [of _ "(a', b')"]) auto
qed

lemma line_break_space: "is_line_break c \<Longrightarrow> isspace c"
  unfolding is_line_break_def isspace_def by (erule in_ranges_mono [rotated]) code_simp

lemma one_line_join:
  "list_all ws_field ws \<Longrightarrow> one_line (join [32] ws)"
proof -
  assume ws: "list_all ws_field ws"
  have "\<not> is_line_break c" if "c \<in> set (join [32] ws)" for c
  proof -
    from set_join [OF that] ws have "c = 32 \<or> \<not> isspace c"
      by (auto simp: list_all_iff ws_field_def)
    moreover have "\<not> is_line_break 32" by (simp add: is_line_break_def)
    ultimately show ?thesis using line_break_space by blast
  qed
  then show ?thesis by (simp add: one_line_def list_all_iff)
qed

lemma split_on_dependents:
  "list_all (\<lambda>d. 44 \<notin> set d) ds \<Longrightarrow> split_on 44 (concat (map (\<lambda>d. d @ [44]) ds)) = ds @ [[]]"
  by (induction ds) (simp_all add: split_on_append)

lemma dependents_of_text:
  assumes "list_all (\<lambda>d. ws_field d \<and> 44 \<notin> set d) ds"
  shows "dependents_of (dependents_text ds) = ds"
proof (cases ds)
  case (Cons d ds')
  have "44 \<in> set (dependents_text ds)" by (simp add: dependents_text_def Cons)
  moreover have "44 \<notin> set (lit ''-'')" by code_simp
  ultimately have "dependents_text ds \<noteq> lit ''-''" by metis
  moreover have "split_on 44 (dependents_text ds) = ds @ [[]]"
    using assms Cons by (simp only: dependents_text_def if_False list.distinct)
      (rule split_on_dependents, auto simp: list_all_iff)
  ultimately show ?thesis
    using assms by (simp add: dependents_of_def list_all_iff ws_field_def)
qed (simp add: dependents_of_def dependents_text_def)

lemma ws_field_dependents:
  "list_all (\<lambda>d. ws_field d \<and> 44 \<notin> set d) ds \<Longrightarrow> ws_field (dependents_text ds)"
proof (cases ds)
  case Nil
  have "ws_field (lit ''-'')" by code_simp
  then show ?thesis by (simp add: Nil dependents_text_def)
next
  case (Cons d ds')
  moreover have "\<not> isspace 44" by (simp add: isspace_def)
  moreover assume "list_all (\<lambda>d. ws_field d \<and> 44 \<notin> set d) ds"
  ultimately show ?thesis by (auto simp: dependents_text_def ws_field_def list_all_iff)
qed

lemma row_fields:
  assumes "row_ok r"
  shows "list_all ws_field
     ([mr_name r, str_int (mr_size r), str_int (mr_refcount r), dependents_text (mr_dependents r),
       mr_state r, mr_base_addr r] @
      (case mr_taint r of None \<Rightarrow> [] | Some t \<Rightarrow> [lit ''('' @ t @ lit '')'']))"
proof -
  have "ws_field (lit ''('' @ t @ lit '')'')" if "list_all (\<lambda>c. \<not> isspace c) t" for t
    using that by (simp add: ws_field_def lit_def isspace_def)
  with assms show ?thesis
    by (auto simp: row_ok_def ws_field_dependents split: option.splits)
qed

lemmas split_row_text = split_ws_join [OF row_fields, folded row_text_def]

lemma blank_iff: "blank line \<longleftrightarrow> list_all isspace line"
proof
  assume "blank line"
  then have "dropWhile isspace line = []"
    by (auto simp: blank_def strip_def rstrip_def lstrip_def dropWhile_eq_Nil_conv
        dest: set_dropWhileD)
      (metis hd_dropWhile list.set_sel(1) dropWhile_eq_Nil_conv)
  then show "list_all isspace line" by (simp add: list_all_iff)
next
  assume "list_all isspace line"
  then have "dropWhile isspace line = []" by (simp add: list_all_iff)
  then show "blank line" unfolding blank_def strip_def lstrip_def
    by (simp only: rstrip_def) simp
qed

lemma blank_split: "blank line \<Longrightarrow> split_ws line = []"
  unfolding blank_iff by (induction line) (simp_all add: split_ws_def)

lemma module_line_row_text:
  assumes "row_ok r"
  shows "module_line (row_text r) = Inr r"
proof -
  note fields = split_row_text [OF assms]
  have taint: "taint_of (split_ws (row_text r)) = mr_taint r"
    by (simp add: taint_of_def fields startswith_def endswith_def lit_def suffix_def
        split: option.split)
  show ?thesis
    using assms unfolding module_line_def Let_def taint unfolding fields
    by (simp add: row_ok_def py_int_str_int dependents_of_text)
qed

text \<open>
  A module table printed by the kernel is read back row by row: name, size, reference count, the
  comma-terminated list of dependents, state, address and the optional taint marker.
\<close>

theorem parse_proc_modules_table:
  assumes "list_all row_ok rows"
  shows "parse_proc_modules (unlines (map row_text rows)) = Inr rows"
proof -
  have "\<not> blank (row_text r) \<and> one_line (row_text r)" if "row_ok r" for r
  proof
    from that show "one_line (row_text r)"
      unfolding row_text_def by (intro one_line_join) (rule row_fields)
    have "split_ws (row_text r) \<noteq> []" by (simp add: split_row_text [OF that])
    then show "\<not> blank (row_text r)" by (rule contrapos_nn) (rule blank_split)
  qed
  with assms have "splitlines (unlines (map row_text rows)) = map row_text rows"
    and "filter (\<lambda>line. \<not> blank line) (map row_text rows) = map row_text rows"
    by (auto simp: list_all_iff intro!: splitlines_unlines filter_True)
  then show ?thesis
    using assms mapE_total [of rows "\<lambda>r. module_line (row_text r)" "\<lambda>r. r"]
    by (simp add: parse_proc_modules_def list_all_iff module_line_row_text)
qed

theorem parse_proc_modules_table_witness:
  "\<exists>text rows. parse_proc_modules text = Inr rows \<and> map mr_name rows = [lit ''nf_nat''] \<and>
     map mr_dependents rows = [[lit ''a'', lit ''b'']] \<and> map mr_taint rows = [Some (lit ''OE'')]"
proof -
  let ?r = "\<lparr>mr_name = lit ''nf_nat'', mr_size = 49152, mr_refcount = 2,
     mr_dependents = [lit ''a'', lit ''b''], mr_state = lit ''Live'', mr_base_addr = lit ''0x0'',
     mr_taint = Some (lit ''OE'')\<rparr>"
  have "list_all row_ok [?r]"
    by (simp add: row_ok_def printable_small ws_field_def lit_def isspace_def)
  from parse_proc_modules_table [OF this] show ?thesis by fastforce
qed

end
