(* ===== verification/Parse_Hooks.thy ===== *)
theory Parse_Hooks
  imports Parse_Modules Py_Dict
begin

text \<open>
  \<open>parsers/kernel_hooks.py\<close>: the ftrace-enabled functions, the kprobes and the module-tagged
  symbols of kallsyms.
\<close>

record hook_row =
  hr_function :: pystr
  hr_hook_type :: pystr
  hr_callback :: "pystr option"
  hr_owner_module :: "pystr option"

section \<open>Positions of substrings\<close>

text \<open>\<open>s.split(sub, 1)[1]\<close> and \<open>s.rsplit(sub, 1)[1]\<close>, absent if \<open>sub\<close> does not occur.\<close>

fun after_first :: "pystr \<Rightarrow> pystr \<Rightarrow> pystr option" where
  "after_first sub [] = (if sub = [] then Some [] else None)"
| "after_first sub (c # cs) =
     (if prefix sub (c # cs) then Some (drop (length sub) (c # cs)) else after_first sub cs)"

fun after_last :: "pystr \<Rightarrow> pystr \<Rightarrow> pystr option" where
  "after_last sub [] = (if sub = [] then Some [] else None)"
| "after_last sub (c # cs) =
     (case after_last sub cs of
        Some r \<Rightarrow> Some r
      | None \<Rightarrow> if prefix sub (c # cs) then Some (drop (length sub) (c # cs)) else None)"

text \<open>\<open>s.index(c)\<close>: raises \<open>ValueError\<close> when \<open>c\<close> is absent.\<close>

definition index_char :: "int \<Rightarrow> pystr \<Rightarrow> nat result" where
  "index_char c s = (case find_char c s of None \<Rightarrow> Inl ValueError | Some i \<Rightarrow> Inr i)"

section \<open>The parsers\<close>

text \<open>\<open>x.split("+")[0] or None\<close> of the first word, if there is one.\<close>

definition symbol_of :: "pystr list \<Rightarrow> pystr option" where
  "symbol_of ws =
     (case ws of
        [] \<Rightarrow> None
      | w # _ \<Rightarrow> (let s = hd (split_on 43 w) in if s = [] then None else Some s))"

definition owner_tag :: "pystr \<Rightarrow> pystr option" where
  "owner_tag text =
     (case rfind_char 91 text of
        None \<Rightarrow> None
      | Some lb \<Rightarrow>
          (case find_char 93 (drop lb text) of
             None \<Rightarrow> None
           | Some k \<Rightarrow> Some (take (k - 1) (drop (lb + 1) text))))"

definition callback_and_module :: "pystr \<Rightarrow> (pystr option \<times> pystr option) result" where
  "callback_and_module text =
     bindE (case after_last (lit ''->'') text of
              Some after \<Rightarrow> Inr (symbol_of (split_ws after))
            | None \<Rightarrow>
                if 40 \<in> set text then
                  (case after_first (lit ''tramp:'') text of
                     Some inner \<Rightarrow>
                       bindE (index_char 40 inner) (\<lambda>i.
                       Inr (symbol_of (split_ws (hd (split_on 41 (drop (i + 1) inner))))))
                   | None \<Rightarrow> Inr None)
                else Inr None) (\<lambda>callback.
     Inr (callback, owner_tag text))"

text \<open>The three variables of \<open>parse_enabled_functions\<close> and its \<open>flush\<close>.\<close>

record hook_acc =
  ha_function :: "pystr option"
  ha_callback :: "pystr option"
  ha_owner :: "pystr option"

definition flush_hook :: "hook_acc \<Rightarrow> hook_row list" where
  "flush_hook a =
     (case ha_function a of
        None \<Rightarrow> []
      | Some f \<Rightarrow> [\<lparr>hr_function = f, hr_hook_type = lit ''ftrace'', hr_callback = ha_callback a,
                   hr_owner_module = ha_owner a\<rparr>])"

definition first_some :: "'a option \<Rightarrow> 'a option \<Rightarrow> 'a option" where
  "first_some a b = (if a = None then b else a)"

definition enabled_line :: "pystr \<Rightarrow> hook_row list \<times> hook_acc \<Rightarrow> (hook_row list \<times> hook_acc) result" where
  "enabled_line line st =
     (let (rows, a) = st in
      if blank line then Inr (rows, a)
      else if \<not> isspace (hd line) then
        bindE (callback_and_module line) (\<lambda>(cb, m).
          Inr (rows @ flush_hook a,
               \<lparr>ha_function = Some (hd (split_ws line)), ha_callback = cb, ha_owner = m\<rparr>))
      else
        bindE (callback_and_module line) (\<lambda>(cb, m).
          Inr (rows, a\<lparr>ha_callback := first_some (ha_callback a) cb,
                      ha_owner := first_some (ha_owner a) m\<rparr>)))"

definition no_hook :: hook_acc where
  "no_hook = \<lparr>ha_function = None, ha_callback = None, ha_owner = None\<rparr>"

definition parse_enabled_functions :: "pystr \<Rightarrow> hook_row list result" where
  "parse_enabled_functions text =
     bindE (foldE enabled_line (splitlines text) ([], no_hook)) (\<lambda>(rows, a).
     Inr (rows @ flush_hook a))"

definition kprobe_line :: "pystr \<Rightarrow> hook_row result" where
  "kprobe_line line =
     (let parts = split_ws line in
      if length parts < 3
      then Inl (KernelHookParseError (lit ''short kprobes line: '' @ py_repr line))
      else Inr \<lparr>hr_function = hd (split_on 43 (parts ! 2)), hr_hook_type = lit ''kprobe'',
                hr_callback = None, hr_owner_module = None\<rparr>)"

definition parse_kprobes :: "pystr \<Rightarrow> hook_row list result" where
  "parse_kprobes text = mapE kprobe_line (filter (\<lambda>line. \<not> blank line) (splitlines text))"

definition kallsyms_entry :: "pystr \<Rightarrow> (pystr \<times> pystr) list" where
  "kallsyms_entry line =
     (let stripped = rstrip line in
      case bracket_tag stripped of
        None \<Rightarrow> []
      | Some m \<Rightarrow>
          (let parts = split_ws stripped in
           if length parts \<ge> 3 then [(parts ! 2, m)] else []))"

definition reduce_kallsyms :: "pystr \<Rightarrow> (pystr \<times> pystr) list" where
  "reduce_kallsyms text = dict_of fst snd (concat (map kallsyms_entry (splitlines text)))"

section \<open>The single-line format of enabled functions\<close>

lemma lit_arrow: "lit ''->'' = [45, 62]"
  by (simp add: lit_def)

lemma after_last_no_arrow: "62 \<notin> set b \<Longrightarrow> after_last [45, 62] b = None"
  by (induction b) (auto simp: prefix_def)

lemma after_last_arrow: "62 \<notin> set b \<Longrightarrow> after_last [45, 62] (a @ 45 # 62 # b) = Some b"
  by (induction a) (simp_all add: after_last_no_arrow)

lemma find_char_first: "x \<notin> set a \<Longrightarrow> find_char x (a @ x # b) = Some (length a)"
  by (rule find_char_append)

lemma owner_tag_last:
  assumes "91 \<notin> set m" and "93 \<notin> set m" and "91 \<notin> set b"
  shows "owner_tag (a @ 91 # m @ 93 # b) = Some m"
proof -
  have "rfind_char 91 (a @ 91 # m @ 93 # b) = Some (length a)"
    using assms by (intro rfind_char_append) simp
  moreover have "find_char 93 (91 # m @ 93 # b) = Some (Suc (length m))"
    using find_char_first [of 93 "91 # m" b] assms by simp
  ultimately show ?thesis by (simp add: owner_tag_def)
qed

text \<open>One line as a 6.1 kernel prints it, as far as the parser looks at it.\<close>

record enabled_entry =
  en_function :: pystr
  en_middle :: pystr
  en_callback :: pystr
  en_offset :: pystr
  en_module :: pystr

definition enabled_text :: "enabled_entry \<Rightarrow> pystr" where
  "enabled_text e = en_function e @ 32 # en_middle e @ 45 # 62 # en_callback e @ 43 # en_offset e @
     32 # 91 # en_module e @ [93]"

definition enabled_row :: "enabled_entry \<Rightarrow> hook_row" where
  "enabled_row e = \<lparr>hr_function = en_function e, hr_hook_type = lit ''ftrace'',
     hr_callback = Some (en_callback e), hr_owner_module = Some (en_module e)\<rparr>"

definition symbol_chars :: "pystr \<Rightarrow> bool" where
  "symbol_chars w \<longleftrightarrow> ws_field w \<and> list_all (\<lambda>c. c \<notin> {43, 62, 91, 93}) w"

definition enabled_ok :: "enabled_entry \<Rightarrow> bool" where
  "enabled_ok e \<longleftrightarrow> ws_field (en_function e) \<and> one_line (en_middle e) \<and>
     symbol_chars (en_callback e) \<and> symbol_chars (en_offset e) \<and> symbol_chars (en_module e)"

lemma ws_field_one_line: "ws_field w \<Longrightarrow> one_line w"
  using line_break_space by (auto simp: ws_field_def one_line_def list_all_iff)

lemma one_line_append [simp]: "one_line (a @ b) \<longleftrightarrow> one_line a \<and> one_line b"
  by (simp add: one_line_def)

lemma one_line_Cons [simp]: "one_line (c # b) \<longleftrightarrow> \<not> is_line_break c \<and> one_line b"
  by (simp add: one_line_def)

lemma one_line_Nil [simp]: "one_line []"
  by (simp add: one_line_def)

lemma symbol_charsD:
  assumes "symbol_chars w"
  shows "ws_field w" "w \<noteq> []" "43 \<notin> set w" "62 \<notin> set w" "91 \<notin> set w" "93 \<notin> set w"
  using assms by (auto simp: symbol_chars_def ws_field_def list_all_iff)

lemma callback_enabled_text:
  assumes "enabled_ok e"
  shows "callback_and_module (enabled_text e) = Inr (Some (en_callback e), Some (en_module e))"
proof -
  note ok = assms [unfolded enabled_ok_def]
  have "after_last [45, 62] (enabled_text e) =
      Some (en_callback e @ 43 # en_offset e @ 32 # 91 # en_module e @ [93])"
    using after_last_arrow [of "en_callback e @ 43 # en_offset e @ 32 # 91 # en_module e @ [93]"
        "en_function e @ 32 # en_middle e"] ok
    by (auto simp: enabled_text_def dest: symbol_charsD)
  moreover have "ws_field (en_callback e @ 43 # en_offset e)"
    using ok symbol_charsD(1) [of "en_callback e"] symbol_charsD(1) [of "en_offset e"]
    by (simp add: ws_field_def isspace_def)
  from split_ws_Cons [OF this, of 32 "91 # en_module e @ [93]"]
  have "split_ws (en_callback e @ 43 # en_offset e @ 32 # 91 # en_module e @ [93]) =
      (en_callback e @ 43 # en_offset e) # split_ws (91 # en_module e @ [93])"
    by simp
  moreover have "hd (split_on 43 (en_callback e @ 43 # en_offset e)) = en_callback e"
    using ok by (simp add: split_on_append symbol_charsD)
  moreover have "owner_tag (enabled_text e) = Some (en_module e)"
    using owner_tag_last [of "en_module e" "[]" "en_function e @ 32 # en_middle e @ 45 # 62 #
        en_callback e @ 43 # en_offset e @ [32]"] ok
    by (simp add: enabled_text_def symbol_charsD)
  ultimately show ?thesis
    using ok by (simp add: callback_and_module_def lit_arrow symbol_of_def symbol_charsD)
qed

lemma not_blank_enabled: "ws_field f \<Longrightarrow> \<not> blank (f @ s)"
  by (cases f) (auto simp: blank_iff ws_field_def)

lemma enabled_line_entry:
  assumes "enabled_ok e"
  shows "enabled_line (enabled_text e) (rows, a) = Inr (rows @ flush_hook a,
     \<lparr>ha_function = Some (en_function e), ha_callback = Some (en_callback e),
      ha_owner = Some (en_module e)\<rparr>)"
proof -
  have f: "ws_field (en_function e)" using assms by (simp add: enabled_ok_def)
  then have "\<not> isspace (hd (enabled_text e))"
    by (cases "en_function e") (auto simp: enabled_text_def ws_field_def)
  moreover have "hd (split_ws (enabled_text e)) = en_function e"
    using split_ws_Cons [OF f, of 32] by (simp add: enabled_text_def)
  moreover have "\<not> blank (enabled_text e)"
    unfolding enabled_text_def by (rule not_blank_enabled [OF f])
  ultimately show ?thesis
    using assms by (simp add: enabled_line_def callback_enabled_text)
qed

lemma foldE_enabled:
  "list_all enabled_ok es \<Longrightarrow> \<exists>rows' a'. foldE enabled_line (map enabled_text es) (rows, a) = Inr (rows', a') \<and>
     rows' @ flush_hook a' = rows @ flush_hook a @ map enabled_row es"
proof (induction es arbitrary: rows a)
  case (Cons e es)
  let ?a = "\<lparr>ha_function = Some (en_function e), ha_callback = Some (en_callback e),
      ha_owner = Some (en_module e)\<rparr>"
  from Cons.IH [of "rows @ flush_hook a" ?a] Cons.prems obtain rows' a' where
    "foldE enabled_line (map enabled_text es) (rows @ flush_hook a, ?a) = Inr (rows', a')"
    "rows' @ flush_hook a' = (rows @ flush_hook a) @ flush_hook ?a @ map enabled_row es"
    by auto
  moreover have "flush_hook ?a = [enabled_row e]" by (simp add: flush_hook_def enabled_row_def)
  ultimately show ?case
    using Cons.prems by (simp add: enabled_line_entry)
qed simp

lemma one_line_enabled_text: "enabled_ok e \<Longrightarrow> one_line (enabled_text e)"
  by (auto simp: enabled_ok_def enabled_text_def symbol_chars_def is_line_break_def
      dest: ws_field_one_line)

text \<open>
  Every hooked function that the kernel prints on a line of its own, with its callback and
  owning module after the arrow, becomes one row with that function, callback and module, in the
  order of the file and whatever flags and trampolines stand between.
\<close>

theorem parse_enabled_functions_lines:
  assumes "list_all enabled_ok es"
  shows "parse_enabled_functions (unlines (map enabled_text es)) = Inr (map enabled_row es)"
proof -
  have "splitlines (unlines (map enabled_text es)) = map enabled_text es"
    using assms by (intro splitlines_unlines) (simp add: list_all_iff one_line_enabled_text)
  moreover obtain rows a where
    "foldE enabled_line (map enabled_text es) ([], no_hook) = Inr (rows, a)"
    "rows @ flush_hook a = map enabled_row es"
    using foldE_enabled [OF assms, of "[]" no_hook] by (auto simp: flush_hook_def no_hook_def)
  ultimately show ?thesis by (simp add: parse_enabled_functions_def)
qed

theorem parse_enabled_functions_lines_witness:
  "parse_enabled_functions (lit ''f (1) R I tramp: 0x0 (cb+0x0/0x5 [mod]) ->cb+0x0/0x5 [mod]'' @ [10]) =
     Inr [\<lparr>hr_function = lit ''f'', hr_hook_type = lit ''ftrace'', hr_callback = Some (lit ''cb''),
           hr_owner_module = Some (lit ''mod'')\<rparr>]"
proof -
  let ?e = "\<lparr>en_function = lit ''f'', en_middle = lit ''(1) R I tramp: 0x0 (cb+0x0/0x5 [mod]) '',
     en_callback = lit ''cb'', en_offset = lit ''0x0/0x5'', en_module = lit ''mod''\<rparr>"
  have "list_all enabled_ok [?e]" by code_simp
  from parse_enabled_functions_lines [OF this]
  have "parse_enabled_functions (unlines (map enabled_text [?e])) = Inr (map enabled_row [?e])" .
  moreover have "unlines (map enabled_text [?e]) =
      lit ''f (1) R I tramp: 0x0 (cb+0x0/0x5 [mod]) ->cb+0x0/0x5 [mod]'' @ [10]" by code_simp
  ultimately show ?thesis by (simp add: enabled_row_def)
qed

text \<open>
  A trampoline whose line has no parenthesis after it, and one before it, is not parsed: the
  search for the parenthesis raises a bare \<open>ValueError\<close>, which no caller handles.
\<close>

lemma tramp_without_parenthesis:
  "parse_enabled_functions (lit ''f (1) R tramp: 0x0'') = Inl ValueError"
  by code_simp

section \<open>Kallsyms\<close>

lemma last_line_step:
  "(\<exists>before line after. ls @ [l] = before @ line # after \<and> Q line \<and> (\<forall>x \<in> set after. R x)) \<longleftrightarrow>
     Q l \<or> R l \<and> (\<exists>before line after. ls = before @ line # after \<and> Q line \<and> (\<forall>x \<in> set after. R x))"
    (is "?L \<longleftrightarrow> ?R")
proof
  assume ?L
  then obtain before line after where e: "ls @ [l] = before @ line # after" "Q line"
    "\<forall>x \<in> set after. R x" by blast
  then show ?R
  proof (cases after rule: rev_cases)
    case (snoc after' x)
    with e have "x = l" "ls = before @ line # after'" by auto
    with e snoc show ?thesis by auto
  qed simp
next
  assume ?R
  then show ?L
  proof
    assume "Q l"
    then show ?L by (intro exI [of _ ls] exI [of _ l] exI [of _ "[]"]) simp
  next
    assume "R l \<and> (\<exists>before line after. ls = before @ line # after \<and> Q line \<and> (\<forall>x \<in> set after. R x))"
    then obtain before line after where "ls = before @ line # after" "Q line"
      "\<forall>x \<in> set after. R x" "R l" by blast
    then show ?L
      by (intro exI [of _ before] exI [of _ line] exI [of _ "after @ [l]"]) auto
  qed
qed

text \<open>
  The kallsyms reduction maps a symbol to a module exactly when the last line that tags this
  symbol with a module tags it with that one; a line without a bracketed tag at its end, or with
  fewer than three words, counts for nothing.
\<close>

theorem reduce_kallsyms_last_wins:
  "map_of (reduce_kallsyms text) symbol = Some m \<longleftrightarrow>
     (\<exists>before line after. splitlines text = before @ line # after \<and>
        kallsyms_entry line = [(symbol, m)] \<and>
        (\<forall>l \<in> set after. \<forall>m'. kallsyms_entry l \<noteq> [(symbol, m')]))"
proof -
  define P where "P ls m \<longleftrightarrow> (\<exists>before line after. ls = before @ line # after \<and>
     kallsyms_entry line = [(symbol, m)] \<and>
     (\<forall>l \<in> set after. \<forall>m'. kallsyms_entry l \<noteq> [(symbol, m')]))" for ls m
  have step: "P (ls @ [l]) m \<longleftrightarrow> kallsyms_entry l = [(symbol, m)] \<or>
      (\<forall>m'. kallsyms_entry l \<noteq> [(symbol, m')]) \<and> P ls m" for ls l m
    unfolding P_def by (rule last_line_step)
  have "map_of (dict_of fst snd (concat (map kallsyms_entry ls))) symbol = Some m \<longleftrightarrow> P ls m" for ls
  proof (induction ls arbitrary: m rule: rev_induct)
    case Nil
    show ?case by (simp add: P_def dict_of_def)
  next
    case (snoc l ls)
    have "kallsyms_entry l = [] \<or> (\<exists>s m'. kallsyms_entry l = [(s, m')])"
      by (auto simp: kallsyms_entry_def Let_def split: option.split)
    then consider "kallsyms_entry l = []" | s m' where "kallsyms_entry l = [(s, m')]" by blast
    then show ?case
    proof cases
      case 1
      with snoc.IH [of m] show ?thesis by (simp add: step)
    next
      case 2
      then have "dict_of fst snd (concat (map kallsyms_entry (ls @ [l]))) =
          AList.update s m' (dict_of fst snd (concat (map kallsyms_entry ls)))"
        by (simp add: dict_of_def)
      with 2 snoc.IH [of m] show ?thesis by (simp add: step update_conv')
    qed
  qed
  then show ?thesis by (simp add: reduce_kallsyms_def P_def)
qed

end
