(* ===== verification/Parse_Sockets.thy ===== *)
theory Parse_Sockets
  imports Parse_Hooks
begin

text \<open>
  \<open>parsers/sockets.py\<close>: the rows of \<open>/proc/net/{tcp,tcp6,udp,udp6}\<close>. Addresses are words in the
  byte order of the machine (little-endian), printed in hexadecimal; \<open>struct.pack\<close>,
  \<open>bytes.fromhex\<close> and \<open>inet_ntop\<close> are modelled as the library documents them.
\<close>

record net_row =
  nr_inode :: int
  nr_kind :: pystr
  nr_state :: "pystr option"
  nr_local :: "pystr option"
  nr_remote :: "pystr option"
  nr_uid :: "int option"

definition socket_states :: "(pystr \<times> pystr) list" where
  "socket_states =
     [(lit ''01'', lit ''ESTABLISHED''), (lit ''02'', lit ''SYN_SENT''), (lit ''03'', lit ''SYN_RECV''),
      (lit ''04'', lit ''FIN_WAIT1''), (lit ''05'', lit ''FIN_WAIT2''), (lit ''06'', lit ''TIME_WAIT''),
      (lit ''07'', lit ''CLOSE''), (lit ''08'', lit ''CLOSE_WAIT''), (lit ''09'', lit ''LAST_ACK''),
      (lit ''0A'', lit ''LISTEN''), (lit ''0B'', lit ''CLOSING''), (lit ''0C'', lit ''NEW_SYN_RECV'')]"

section \<open>Addresses\<close>

text \<open>\<open>struct.pack("<I", n)\<close>: four bytes, the lowest first; out of range is \<open>struct.error\<close>.\<close>

definition pack_u32 :: "int \<Rightarrow> int list result" where
  "pack_u32 n =
     (if n < 0 \<or> 4294967296 \<le> n then Inl StructError
      else Inr [n mod 256, n div 256 mod 256, n div 65536 mod 256, n div 16777216])"

text \<open>\<open>inet_ntop\<close> of four bytes and of sixteen (longest run of two or more zero words as \<open>::\<close>).\<close>

definition inet4 :: "int list \<Rightarrow> pystr" where
  "inet4 bs = join (lit ''.'') (map str_int bs)"

fun words_of :: "int list \<Rightarrow> int list" where
  "words_of (a # b # bs) = (256 * a + b) # words_of bs"
| "words_of _ = []"

text \<open>The first longest run of zeros: its start and its length.\<close>

fun zero_run :: "int list \<Rightarrow> nat" where
  "zero_run [] = 0"
| "zero_run (w # ws) = (if w = 0 then Suc (zero_run ws) else 0)"

fun best_run :: "nat \<Rightarrow> int list \<Rightarrow> nat \<times> nat" where
  "best_run i [] = (i, 0)"
| "best_run i (w # ws) =
     (let here = zero_run (w # ws); (j, n) = best_run (Suc i) ws in
      if here \<ge> n then (i, here) else (j, n))"

text \<open>\<open>%x\<close> of a 16-bit word.\<close>

definition hex_digits :: "int \<Rightarrow> pystr" where
  "hex_digits w = (let s = dropWhile (\<lambda>c. c = 48) (hex_width 4 w) in if s = [] then [48] else s)"

definition inet6_words :: "int list \<Rightarrow> pystr list" where
  "inet6_words ws = map hex_digits ws"

definition inet6 :: "int list \<Rightarrow> pystr" where
  "inet6 bs =
     (let ws = words_of bs; (i, n) = best_run 0 ws; colon = lit '':'' in
      if n < 2 then join colon (inet6_words ws)
      else if i = 0 \<and> (n = 6 \<or> n = 5 \<and> ws ! 5 = 65535) then
        lit ''::'' @ (if n = 5 then lit ''ffff:'' else []) @ inet4 (drop 12 bs)
      else join colon (inet6_words (take i ws)) @ lit ''::'' @
           join colon (inet6_words (drop (i + n) ws)))"

text \<open>\<open>bytes.fromhex(s)\<close> on a string without white space.\<close>

fun fromhex :: "pystr \<Rightarrow> int list result" where
  "fromhex [] = Inr []"
| "fromhex [_] = Inl ValueError"
| "fromhex (a # b # s) =
     (case (hex_digit a, hex_digit b) of
        (Some x, Some y) \<Rightarrow> bindE (fromhex s) (\<lambda>bs. Inr ((16 * x + y) # bs))
      | _ \<Rightarrow> Inl ValueError)"

definition word_bytes :: "int list \<Rightarrow> int list" where
  "word_bytes raw =
     rev (take 4 raw) @ rev (take 4 (drop 4 raw)) @ rev (take 4 (drop 8 raw)) @
     rev (take 4 (drop 12 raw))"

text \<open>\<open>str(i)\<close>: the interpreter refuses to print more than 4300 digits.\<close>

definition str_limited :: "int \<Rightarrow> pystr result" where
  "str_limited i =
     (if max_str_digits < length (dec_digits (nat \<bar>i\<bar>)) then Inl ValueError else Inr (str_int i))"

lemma str_limited_printable: "printable_int i \<Longrightarrow> str_limited i = Inr (str_int i)"
  using length_dec_digits_max [of "nat \<bar>i\<bar>"] by (simp add: str_limited_def printable_int_def)

lemma str_limited_error: "str_limited i = Inl e \<Longrightarrow> e = ValueError"
  by (simp add: str_limited_def split: if_splits)

definition decode_addr :: "pystr \<Rightarrow> pystr result" where
  "decode_addr hexaddr =
     (let (ip_hex, port_hex) =
        (case split_once 58 hexaddr of None \<Rightarrow> (hexaddr, []) | Some (a, b) \<Rightarrow> (a, b)) in
      bindE (py_int16 port_hex) (\<lambda>port.
      bindE (if length ip_hex = 8 then
               bindE (py_int16 ip_hex) (\<lambda>n. bindE (pack_u32 n) (\<lambda>packed. Inr (inet4 packed)))
             else if length ip_hex = 32 then
               bindE (fromhex ip_hex) (\<lambda>raw. Inr (inet6 (word_bytes raw)))
             else Inl (SocketParseError (lit ''bad address field: '' @ py_repr hexaddr))) (\<lambda>ip.
      bindE (str_limited port) (\<lambda>p. Inr (ip @ lit '':'' @ p)))))"

section \<open>Rows\<close>

text \<open>\<open>str.upper\<close> on the ASCII letters; no other character has an upper case among the keys.\<close>

definition ascii_upper :: "pystr \<Rightarrow> pystr" where
  "ascii_upper s = map (\<lambda>c. if 97 \<le> c \<and> c \<le> 122 then c - 32 else c) s"

definition socket_state :: "pystr \<Rightarrow> pystr" where
  "socket_state code =
     (case map_of socket_states (ascii_upper code) of None \<Rightarrow> code | Some name \<Rightarrow> name)"

text \<open>\<open>except (ValueError, IndexError)\<close>: \<open>SocketParseError\<close> is a \<open>ValueError\<close>, \<open>struct.error\<close> not.\<close>

definition on_row_error :: "py_error \<Rightarrow> 'a result \<Rightarrow> 'a result" where
  "on_row_error e r =
     (case r of
        Inl ValueError \<Rightarrow> Inl e
      | Inl IndexError \<Rightarrow> Inl e
      | Inl (SocketParseError _) \<Rightarrow> Inl e
      | _ \<Rightarrow> r)"

definition is_row :: "pystr \<Rightarrow> bool" where
  "is_row line \<longleftrightarrow>
     (case split_ws line of
        [] \<Rightarrow> False
      | p # _ \<Rightarrow> p \<noteq> lit ''sl'' \<and> endswith p (lit '':''))"

definition net_line :: "pystr \<Rightarrow> pystr \<Rightarrow> net_row result" where
  "net_line kind line =
     (let parts = split_ws line in
      if length parts < 10
      then Inl (SocketParseError (lit ''short '' @ kind @ lit '' row: '' @ py_repr line))
      else on_row_error (SocketParseError (lit ''bad '' @ kind @ lit '' row: '' @ py_repr line))
        (bindE (py_int (parts ! 9)) (\<lambda>inode.
         bindE (decode_addr (parts ! 1)) (\<lambda>local.
         bindE (decode_addr (parts ! 2)) (\<lambda>remote.
         bindE (py_int (parts ! 7)) (\<lambda>uid.
         Inr \<lparr>nr_inode = inode, nr_kind = kind, nr_state = Some (socket_state (parts ! 3)),
              nr_local = Some local, nr_remote = Some remote, nr_uid = Some uid\<rparr>)))))) "

definition parse_net_tcp :: "pystr \<Rightarrow> pystr \<Rightarrow> net_row list result" where
  "parse_net_tcp text kind = mapE (net_line kind) (filter is_row (splitlines text))"

section \<open>What the kernel prints\<close>

definition hexU :: "int \<Rightarrow> int" where
  "hexU d = (if d < 10 then 48 + d else 55 + d)"

definition hex_byte :: "int \<Rightarrow> pystr" where
  "hex_byte b = [hexU (b div 16), hexU (b mod 16)]"

definition is_byte :: "int \<Rightarrow> bool" where
  "is_byte b \<longleftrightarrow> 0 \<le> b \<and> b < 256"

text \<open>A network-order address, printed by a little-endian machine word by word; a 16-bit port.\<close>

definition addr_text :: "int list \<Rightarrow> int \<Rightarrow> pystr" where
  "addr_text bs port =
     concat (map hex_byte (if length bs = 4 then rev bs else word_bytes bs)) @
     lit '':'' @ hex_byte (port div 256) @ hex_byte (port mod 256)"

lemma hexU_facts:
  assumes "0 \<le> d" and "d < 16"
  shows "hex_value (hexU d) = Some d" "hex_digit (hexU d) = Some d"
    "hexU d \<notin> {32, 43, 45, 58, 88, 95, 120}" "48 \<le> hexU d" "hexU d \<le> 70"
  using assms by (auto simp: hexU_def hex_value_def hex_digit_def decimal_value_ascii is_ascii_digit_def)

lemma byte_nibbles: "is_byte b \<Longrightarrow> 0 \<le> b div 16 \<and> b div 16 < 16 \<and> 0 \<le> b mod 16 \<and> b mod 16 < 16"
  by (auto simp: is_byte_def)

lemma fromhex_bytes: "list_all is_byte bs \<Longrightarrow> fromhex (concat (map hex_byte bs)) = Inr bs"
  by (induction bs) (simp_all add: hex_byte_def hexU_facts byte_nibbles)

definition nibbles :: "int list \<Rightarrow> int list" where
  "nibbles bs = concat (map (\<lambda>b. [b div 16, b mod 16]) bs)"

lemma hex_bytes_nibbles: "concat (map hex_byte bs) = map hexU (nibbles bs)"
  by (induction bs) (simp_all add: hex_byte_def nibbles_def)

lemma nibbles_range: "list_all is_byte bs \<Longrightarrow> list_all (\<lambda>d. 0 \<le> d \<and> d < 16) (nibbles bs)"
  by (induction bs) (simp_all add: nibbles_def byte_nibbles)

lemma py_int16_hexU:
  assumes "list_all (\<lambda>d. 0 \<le> d \<and> d < 16) ds" and "ds \<noteq> []"
  shows "py_int16 (map hexU ds) = Inr (digits_value 16 ds)"
proof -
  have space: "\<not> int_space (hexU d)" if "d \<in> set ds" for d
    using assms(1) that hexU_facts(4,5) [of d] by (auto simp: int_space_def isspace_def list_all_iff)
  have strip: "int_strip (map hexU ds) = map hexU ds"
    using assms(2) space by (intro int_strip_id) (auto simp: hd_map last_map)
  have sign: "split_sign (map hexU ds) = (False, map hexU ds)"
    using assms hexU_facts(3) [of "hd ds"]
    by (cases ds) (auto simp: split_sign_def)
  have prefix: "drop_hex_prefix (map hexU ds) = map hexU ds"
    using assms hexU_facts(3)
    by (auto simp: drop_hex_prefix_def list_all_iff split: list.splits)
  have dec: "hex_value c = Some (the (hex_value c)) \<and> c \<noteq> 95" if "c \<in> set (map hexU ds)" for c
    using that assms(1) hexU_facts by (auto simp: list_all_iff)
  have "us_digits hex_value (map hexU ds) = Some (map (\<lambda>c. the (hex_value c)) (map hexU ds))"
    using assms(2) dec by (intro us_digits_plain) (auto simp: list_all_iff)
  also have "map (\<lambda>c. the (hex_value c)) (map hexU ds) = ds"
    using assms(1) by (auto simp: list_all_iff hexU_facts intro!: map_idI)
  finally show ?thesis by (simp add: py_int16_def strip sign prefix)
qed

lemma py_int16_bytes:
  assumes "list_all is_byte bs" and "bs \<noteq> []"
  shows "py_int16 (concat (map hex_byte bs)) = Inr (digits_value 256 bs)"
proof -
  have "digits_value 16 (nibbles bs) = digits_value 256 bs"
  proof -
    have "foldl (\<lambda>a d. 16 * a + d) x (nibbles bs) = foldl (\<lambda>a d. 256 * a + d) x bs" for x
    proof (induction bs arbitrary: x)
      case (Cons b bs)
      have "16 * (16 * x + b div 16) + b mod 16 = 256 * x + b" by simp
      with Cons show ?case by (simp add: nibbles_def add.commute)
    qed (simp add: nibbles_def)
    then show ?thesis by (simp add: digits_value_def)
  qed
  moreover have "nibbles bs \<noteq> []" using assms(2) by (cases bs) (simp_all add: nibbles_def)
  ultimately show ?thesis
    using py_int16_hexU [OF nibbles_range [OF assms(1)]] by (simp add: hex_bytes_nibbles)
qed

lemma low_byte: "0 \<le> a \<Longrightarrow> a < 256 \<Longrightarrow> (a + 256 * x) div 256 = x \<and> (a + 256 * x) mod 256 = (a::int)"
  by simp

lemma pack_u32_bytes:
  assumes "list_all is_byte [a, b, c, d]"
  shows "pack_u32 (digits_value 256 [d, c, b, a]) = Inr [a, b, c, d]"
proof -
  from assms have r: "0 \<le> a" "a < 256" "0 \<le> b" "b < 256" "0 \<le> c" "c < 256" "0 \<le> d" "d < 256"
    by (simp_all add: is_byte_def)
  define n where "n = digits_value 256 [d, c, b, a]"
  define y where "y = c + 256 * d"
  define x where "x = b + 256 * y"
  have n: "n = a + 256 * x" by (simp add: n_def digits_value_def x_def y_def)
  have "n div 256 = x" "n mod 256 = a" using low_byte [of a x] r by (simp_all add: n)
  moreover have "x div 256 = y" "x mod 256 = b" using low_byte [of b y] r by (simp_all add: x_def)
  moreover have "y div 256 = d" "y mod 256 = c" using low_byte [of c d] r by (simp_all add: y_def)
  moreover have "n div 65536 = n div 256 div 256" using zdiv_zmult2_eq [of 256 n 256] by simp
  moreover have "n div 16777216 = n div 65536 div 256" using zdiv_zmult2_eq [of 256 n 65536] by simp
  moreover have "0 \<le> n" "n < 4294967296" using r by (simp_all add: n x_def y_def)
  then have "pack_u32 n = Inr [n mod 256, n div 256 mod 256, n div 65536 mod 256, n div 16777216]"
    by (simp add: pack_u32_def)
  ultimately show ?thesis unfolding n_def [symmetric] by (simp only:)
qed

lemma word_bytes_chunks:
  "length a = 4 \<Longrightarrow> length b = 4 \<Longrightarrow> length c = 4 \<Longrightarrow> length d = 4 \<Longrightarrow>
   word_bytes (a @ b @ c @ d) = rev a @ rev b @ rev c @ rev d"
  by (simp add: word_bytes_def)

lemma word_bytes_involution:
  assumes "length bs = 16"
  shows "word_bytes (word_bytes bs) = bs"
proof -
  define a where "a = take 4 bs"
  define b where "b = take 4 (drop 4 bs)"
  define c where "c = take 4 (drop 4 (drop 4 bs))"
  define d where "d = drop 4 (drop 4 (drop 4 bs))"
  have bs: "bs = a @ b @ c @ d" by (simp only: a_def b_def c_def d_def append_take_drop_id)
  have "length a = 4" "length b = 4" "length c = 4" "length d = 4"
    using assms by (simp_all add: a_def b_def c_def d_def)
  then show ?thesis
    unfolding bs using word_bytes_chunks [of a b c d] word_bytes_chunks [of "rev a" "rev b" "rev c" "rev d"]
    by simp
qed

lemma hex_bytes_no_colon: "list_all is_byte bs \<Longrightarrow> 58 \<notin> set (concat (map hex_byte bs))"
  using nibbles_range [of bs] hexU_facts(3) by (fastforce simp: hex_bytes_nibbles list_all_iff)

lemma length_hex_bytes: "length (concat (map hex_byte bs)) = 2 * length bs"
  by (induction bs) (simp_all add: hex_byte_def)

text \<open>
  C36: Every IPv4 and IPv6 socket address that a little-endian kernel prints, whatever its bytes and
  port, is decoded to the presentation form of the same address and port.
\<close>

theorem decode_addr_text:
  assumes "list_all is_byte bs" and "length bs = 4 \<or> length bs = 16" and "0 \<le> port" "port < 65536"
  shows "decode_addr (addr_text bs port) =
     Inr ((if length bs = 4 then inet4 bs else inet6 bs) @ lit '':'' @ str_int port)"
proof -
  define raw where "raw = (if length bs = 4 then rev bs else word_bytes bs)"
  have raw: "list_all is_byte raw"
    using assms(1)
    by (auto simp: raw_def word_bytes_def list_all_iff dest!: in_set_takeD in_set_dropD)
  have len: "length (concat (map hex_byte raw)) = 2 * length bs"
    unfolding length_hex_bytes using assms(2) by (auto simp: raw_def word_bytes_def)
  have split: "split_once 58 (addr_text bs port) = Some (concat (map hex_byte raw),
      hex_byte (port div 256) @ hex_byte (port mod 256))"
    unfolding addr_text_def raw_def [symmetric]
    using split_once_append [OF hex_bytes_no_colon [OF raw]] by (simp add: lit_def)
  have port: "py_int16 (hex_byte (port div 256) @ hex_byte (port mod 256)) = Inr port"
  proof -
    have "0 \<le> port div 256" "port div 256 < 256"
      using assms(3,4) by (auto simp: div_less_iff_less_mult)
    then show ?thesis
      using py_int16_bytes [of "[port div 256, port mod 256]"]
      by (simp add: is_byte_def digits_value_def)
  qed
  have printed: "str_limited port = Inr (str_int port)"
    using assms(3,4) by (intro str_limited_printable printable_small) simp
  show ?thesis
  proof (cases "length bs = 4")
    case True
    then obtain a b c d where bs: "bs = [a, b, c, d]"
      by (auto simp: eval_nat_numeral length_Suc_conv)
    have "raw = [d, c, b, a]" by (simp add: raw_def bs)
    then have "py_int16 (concat (map hex_byte raw)) = Inr (digits_value 256 [d, c, b, a])"
      using py_int16_bytes [OF raw] by simp
    moreover have "pack_u32 (digits_value 256 [d, c, b, a]) = Inr bs"
      using pack_u32_bytes [of a b c d] assms(1) by (simp add: bs)
    ultimately show ?thesis
      using True len by (simp add: decode_addr_def split port printed)
  next
    case False
    with assms(2) have 16: "length bs = 16" by simp
    moreover have "fromhex (concat (map hex_byte raw)) = Inr raw" by (rule fromhex_bytes [OF raw])
    moreover have "word_bytes raw = bs"
      using 16 by (simp add: raw_def word_bytes_involution)
    ultimately show ?thesis
      using len by (simp add: decode_addr_def split port printed)
  qed
qed

theorem decode_addr_text_witness:
  "decode_addr (lit ''0100007F:0035'') = Inr (lit ''127.0.0.1:53'') \<and>
   decode_addr (lit ''00000000000000000000000001000000:1F90'') = Inr (lit ''::1:8080'')"
proof -
  let ?v6 = "[0, 0, 0, 0, 0, 0, 0, 0, 0, 0, 0, 0, 0, 0, 0, 1]"
  have v4: "list_all is_byte [127, 0, 0, 1]" and v6: "list_all is_byte ?v6" by code_simp+
  have "addr_text [127, 0, 0, 1] 53 = lit ''0100007F:0035''"
    "inet4 [127, 0, 0, 1] @ lit '':'' @ str_int 53 = lit ''127.0.0.1:53''"
    "addr_text ?v6 8080 = lit ''00000000000000000000000001000000:1F90''"
    "inet6 ?v6 @ lit '':'' @ str_int 8080 = lit ''::1:8080''"
    by code_simp+
  with decode_addr_text [OF v4, of 53] decode_addr_text [OF v6, of 8080] show ?thesis by simp
qed

section \<open>Failures\<close>

lemma py_int16_error: "py_int16 s = Inl e \<Longrightarrow> e = ValueError"
  by (auto simp: py_int16_def Let_def split: prod.splits option.splits)

lemma fromhex_error: "fromhex s = Inl e \<Longrightarrow> e = ValueError"
  by (induction s rule: fromhex.induct) (auto simp: bindE_def split: option.splits sum.splits)

lemma hex_value_range: "hex_value c = Some d \<Longrightarrow> 0 \<le> d \<and> d < 16"
  by (auto simp: hex_value_def decimal_value_def split: if_splits option.splits simp: find_Some_iff)

lemma length_hex_source: "length (drop_hex_prefix (snd (split_sign (int_strip s)))) \<le> length s"
proof -
  have "length (int_strip s) \<le> length s"
    unfolding int_strip_def length_rev
    by (rule order_trans [OF length_dropWhile_le], simp only: length_rev, rule length_dropWhile_le)
  moreover have "length (snd (split_sign t)) \<le> length t" for t
    by (auto simp: split_sign_def split: list.split)
  moreover have "length (drop_hex_prefix t) \<le> length t" for t
    by (auto simp: drop_hex_prefix_def split: list.split)
  ultimately show ?thesis by (meson le_trans)
qed

lemma py_int16_bound:
  assumes "py_int16 s = Inr n" and "length s \<le> 8"
  shows "n < 4294967296"
proof -
  from assms(1) obtain ds where u: "us_digits hex_value (drop_hex_prefix (snd (split_sign (int_strip s)))) = Some ds"
    and n: "n = digits_value 16 ds \<or> n = - digits_value 16 ds"
    by (auto simp: py_int16_def Let_def split: prod.splits option.splits if_splits)
  from us_digits_bound [OF u, of 16] hex_value_range have "length ds \<le> 8"
    and "list_all (\<lambda>d. 0 \<le> d \<and> d < 16) ds"
    using length_hex_source [of s] assms(2) by auto
  then have "0 \<le> digits_value 16 ds" "digits_value 16 ds < 16 ^ length ds"
    using digits_value_bound [of 16 ds] by auto
  moreover have "(16::int) ^ length ds \<le> 16 ^ 8"
    using \<open>length ds \<le> 8\<close> by (intro power_increasing) simp_all
  ultimately have "0 \<le> digits_value 16 ds" "digits_value 16 ds < 4294967296" by simp_all
  with n show ?thesis by auto
qed

lemma decode_addr_error:
  assumes "decode_addr s = Inl e"
  shows "e = ValueError \<or> (\<exists>m. e = SocketParseError m) \<or>
     e = StructError \<and> (\<exists>n. py_int16 (take 8 s) = Inr n \<and> n < 0)"
proof (cases "split_once 58 s")
  case None
  have "py_int16 [] = Inl ValueError" by code_simp
  with None assms show ?thesis by (simp add: decode_addr_def)
next
  case (Some p)
  then obtain ip port where ip: "split_once 58 s = Some (ip, port)" by (cases p) auto
  show ?thesis
  proof (cases "length ip = 8")
    case True
    with split_once_Some [OF ip] have "take 8 s = ip" by simp
    with True assms ip py_int16_bound [of ip] show ?thesis
      by (auto simp: decode_addr_def bindE_def pack_u32_def dest: py_int16_error str_limited_error
          split: sum.splits if_splits)
  next
    case False
    with assms ip show ?thesis
      by (auto simp: decode_addr_def bindE_def dest: py_int16_error fromhex_error str_limited_error
          split: sum.splits if_splits)
  qed
qed

lemma net_line_error:
  assumes "net_line kind line = Inl e"
  shows "(\<exists>m. e = SocketParseError m) \<or>
     e = StructError \<and> (\<exists>i \<in> {1, 2}. \<exists>n. py_int16 (take 8 (split_ws line ! i)) = Inr n \<and> n < 0)"
  using assms
  by (auto simp: net_line_def Let_def on_row_error_def bindE_def
      dest!: py_int_error decode_addr_error split: if_splits sum.splits)

text \<open>
  C37: A malformed socket table is reported as SocketParseError, except for one input that is not: a
  row with an address that starts with an eight-character negative number reaches struct.pack out
  of range, and the handler does not catch its struct.error.
\<close>

theorem parse_net_tcp_errors:
  assumes "parse_net_tcp text kind = Inl e"
  shows "(\<exists>m. e = SocketParseError m) \<or>
     e = StructError \<and> (\<exists>line \<in> set (splitlines text). \<exists>i \<in> {1, 2}. \<exists>n.
       py_int16 (take 8 (split_ws line ! i)) = Inr n \<and> n < 0)"
proof -
  from assms obtain line where "line \<in> set (splitlines text)" "net_line kind line = Inl e"
    unfolding parse_net_tcp_def by (auto dest!: mapE_Inl)
  then show ?thesis using net_line_error by blast
qed

theorem parse_net_tcp_errors_witness:
  "parse_net_tcp (lit ''0: -0000001:0035 00000000:0000 0A 0:0 0:0 0 0 0 1'') (lit ''tcp'') = Inl StructError \<and>
   (\<exists>n. py_int16 (lit ''-0000001'') = Inr n \<and> n < 0)"
proof -
  have e: "parse_net_tcp (lit ''0: -0000001:0035 00000000:0000 0A 0:0 0:0 0 0 0 1'') (lit ''tcp'') = Inl StructError"
    by code_simp
  from parse_net_tcp_errors [OF e] have "StructError = StructError" by blast
  moreover have "py_int16 (lit ''-0000001'') = Inr (-1)" by code_simp
  ultimately show ?thesis using e by simp
qed

end
