(* ===== verification/Sources.thy ===== *)
theory Sources
  imports Parse_Sockets Py_Json
begin

text \<open>
  \<open>collectors/base.py\<close> and \<open>collectors/sources.py\<close>: the interfaces the collectors read through,
  and the sources over an operating system. The file system and the clock are parameters (the
  functions of \<open>os\<close> and \<open>open\<close>), what the program does with their answers is modelled. The
  contract of a process source is a locale; the live and the fixture source both keep it.
\<close>

section \<open>The interfaces\<close>

record proc_source =
  ps_list_pids :: "int list result"
  ps_read_text :: "int \<Rightarrow> pystr \<Rightarrow> pystr result"
  ps_read_link :: "int \<Rightarrow> pystr \<Rightarrow> pystr result"

record signal_source =
  ss_pid_max :: "int result"
  ss_sweep :: "int \<Rightarrow> int list"
  ss_read_status :: "int \<Rightarrow> (int \<times> pystr option) option"

record module_source =
  ms_read_proc_modules :: "pystr result"
  ms_read_tainted :: "int result"
  ms_read_vmallocinfo :: "pystr option"
  ms_read_ftrace_functions :: "pystr option"

record hook_source =
  hs_read_enabled_functions :: "pystr option"
  hs_read_kprobes :: "pystr option"
  hs_read_kallsyms_index :: "pystr option"

record socket_source =
  so_read_net_table :: "pystr \<Rightarrow> pystr option"
  so_list_fds :: "int \<Rightarrow> (int \<times> pystr list) list result"

text \<open>\<open>ProcSourceError\<close> and its three kinds.\<close>

fun is_source_error :: "py_error \<Rightarrow> bool" where
  "is_source_error (Vanished _) = True"
| "is_source_error (Denied _) = True"
| "is_source_error (Unreadable _) = True"
| "is_source_error _ = False"

section \<open>The contract of a process source\<close>

text \<open>
  The listing is ascending, and no read fails with anything but a \<open>ProcSourceError\<close>. The listing
  may also raise the \<open>ValueError\<close> of \<open>int()\<close>: \<open>isdigit\<close> accepts digits \<open>int()\<close> does not.
\<close>

locale proc_contract =
  fixes src :: proc_source
  assumes listing_sorted: "ps_list_pids src = Inr pids \<Longrightarrow> sorted pids"
    and listing_error: "ps_list_pids src = Inl e \<Longrightarrow> is_source_error e \<or> e = ValueError"
    and text_error: "ps_read_text src pid name = Inl e \<Longrightarrow> is_source_error e"
    and link_error: "ps_read_link src pid name = Inl e \<Longrightarrow> is_source_error e"

section \<open>The operating system\<close>

text \<open>An \<open>OSError\<close> is its number and its text; reading a file gives its decoded contents.\<close>

type_synonym os_error = "int \<times> pystr"

record os =
  os_listdir :: "pystr \<Rightarrow> os_error + pystr list"
  os_read :: "pystr \<Rightarrow> os_error + pystr"
  os_readlink :: "pystr \<Rightarrow> os_error + pystr"
  os_kill :: "int \<Rightarrow> os_error option"

definition vanished_errnos :: "int list" where
  "vanished_errnos = [2, 3]"

definition denied_errnos :: "int list" where
  "denied_errnos = [13, 1]"

definition translate :: "os_error \<Rightarrow> pystr \<Rightarrow> py_error" where
  "translate exc what =
     (let detail = what @ lit '': '' @ snd exc @ lit '' (errno '' @ str_int (fst exc) @ lit '')'' in
      if fst exc \<in> set vanished_errnos then Vanished detail
      else if fst exc \<in> set denied_errnos then Denied detail
      else Unreadable detail)"

definition translated :: "pystr \<Rightarrow> os_error + 'a \<Rightarrow> 'a result" where
  "translated what r = (case r of Inl exc \<Rightarrow> Inl (translate exc what) | Inr x \<Rightarrow> Inr x)"

text \<open>\<open>s.isdigit()\<close>, and the numeric names of a directory as sorted integers.\<close>

definition py_isdigit :: "pystr \<Rightarrow> bool" where
  "py_isdigit s \<longleftrightarrow> s \<noteq> [] \<and> list_all isdigit_char s"

definition numeric_names :: "pystr list \<Rightarrow> int list result" where
  "numeric_names names =
     bindE (mapE py_int (filter py_isdigit names)) (\<lambda>pids. Inr (sort pids))"

definition proc_path :: "pystr \<Rightarrow> int \<Rightarrow> pystr \<Rightarrow> pystr" where
  "proc_path root pid name = root @ lit ''/'' @ str_int pid @ lit ''/'' @ name"

definition live_proc_source :: "os \<Rightarrow> proc_source" where
  "live_proc_source os =
     (let root = lit ''/proc'' in
      \<lparr>ps_list_pids =
         bindE (translated (lit ''listing '' @ root) (os_listdir os root)) numeric_names,
       ps_read_text = (\<lambda>pid name. let path = proc_path root pid name in
         translated (lit ''reading '' @ path) (os_read os path)),
       ps_read_link = (\<lambda>pid name. let path = proc_path root pid name in
         translated (lit ''resolving '' @ path) (os_readlink os path))\<rparr>)"

section \<open>The fixture tree\<close>

text \<open>
  The recorded failures by \<open>pid/name\<close>, the names under \<open>proc\<close> (absent if it is no directory) and
  the files of the tree; \<open>iterdir\<close> does not fail on a directory.
\<close>

record fixture =
  fx_root :: pystr
  fx_errors :: "(pystr \<times> pystr) list"
  fx_names :: "pystr list option"
  fx_read :: "pystr \<Rightarrow> os_error + pystr"

definition recorded_failure :: "fixture \<Rightarrow> int \<Rightarrow> pystr \<Rightarrow> py_error option" where
  "recorded_failure fx pid name =
     (let key = str_int pid @ lit ''/'' @ name in
      case map_of (fx_errors fx) key of
        None \<Rightarrow> None
      | Some code \<Rightarrow>
          let detail = lit ''replaying recorded '' @ code @ lit '' for '' @ key in
          Some (if code \<in> {lit ''ENOENT'', lit ''ESRCH''} then Vanished detail
                else if code \<in> {lit ''EACCES'', lit ''EPERM''} then Denied detail
                else Unreadable detail))"

text \<open>\<open>text.rstrip("\n")\<close>.\<close>

definition rstrip_newlines :: "pystr \<Rightarrow> pystr" where
  "rstrip_newlines s = rev (dropWhile (\<lambda>c. c = 10) (rev s))"

definition fixture_read :: "fixture \<Rightarrow> int \<Rightarrow> pystr \<Rightarrow> pystr \<Rightarrow> pystr \<Rightarrow> pystr result" where
  "fixture_read fx pid name file verb =
     (case recorded_failure fx pid name of
        Some failure \<Rightarrow> Inl failure
      | None \<Rightarrow>
          let path = proc_path (fx_root fx @ lit ''/proc'') pid file in
          translated (verb @ lit '' '' @ path) (fx_read fx path))"

definition fixture_proc_source :: "fixture \<Rightarrow> proc_source" where
  "fixture_proc_source fx =
     \<lparr>ps_list_pids =
        (case fx_names fx of
           None \<Rightarrow> Inl (Unreadable (lit ''no proc directory under '' @ fx_root fx))
         | Some names \<Rightarrow> numeric_names names),
      ps_read_text = (\<lambda>pid name. fixture_read fx pid name name (lit ''reading'')),
      ps_read_link = (\<lambda>pid name.
        bindE (fixture_read fx pid name (name @ lit ''.readlink'') (lit ''resolving''))
          (\<lambda>t. Inr (rstrip_newlines t)))\<rparr>"

section \<open>Both sources keep the contract\<close>

lemma translate_source_error [simp]: "is_source_error (translate exc what)"
  by (simp add: translate_def Let_def)

lemma translated_error: "translated what r = Inl e \<Longrightarrow> is_source_error e"
  by (auto simp: translated_def split: sum.splits)

lemma numeric_names_facts:
  "numeric_names names = Inr pids \<Longrightarrow> sorted pids"
  "numeric_names names = Inl e \<Longrightarrow> e = ValueError"
  by (auto simp: numeric_names_def bindE_def dest: mapE_py_int_error split: sum.splits)

lemma recorded_failure_error: "recorded_failure fx pid name = Some e \<Longrightarrow> is_source_error e"
  by (auto simp: recorded_failure_def Let_def split: option.splits if_splits)

lemma fixture_read_error: "fixture_read fx pid name file verb = Inl e \<Longrightarrow> is_source_error e"
  by (auto simp: fixture_read_def Let_def dest: recorded_failure_error translated_error
      split: option.splits)

interpretation live: proc_contract "live_proc_source os" for os
proof
  show "ps_list_pids (live_proc_source os) = Inr pids \<Longrightarrow> sorted pids" for pids
    by (auto simp: live_proc_source_def Let_def numeric_names_facts)
  show "ps_list_pids (live_proc_source os) = Inl e \<Longrightarrow> is_source_error e \<or> e = ValueError" for e
    by (auto simp: live_proc_source_def Let_def bindE_def split: sum.splits
        dest: translated_error numeric_names_facts(2))
  show "ps_read_text (live_proc_source os) pid name = Inl e \<Longrightarrow> is_source_error e" for pid name e
    by (auto simp: live_proc_source_def Let_def dest: translated_error)
  show "ps_read_link (live_proc_source os) pid name = Inl e \<Longrightarrow> is_source_error e" for pid name e
    by (auto simp: live_proc_source_def Let_def dest: translated_error)
qed

interpretation fixture: proc_contract "fixture_proc_source fx" for fx
proof
  show "ps_list_pids (fixture_proc_source fx) = Inr pids \<Longrightarrow> sorted pids" for pids
    by (auto simp: fixture_proc_source_def numeric_names_facts split: option.splits)
  show "ps_list_pids (fixture_proc_source fx) = Inl e \<Longrightarrow> is_source_error e \<or> e = ValueError" for e
    by (auto simp: fixture_proc_source_def dest: numeric_names_facts(2) split: option.splits)
  show "ps_read_text (fixture_proc_source fx) pid name = Inl e \<Longrightarrow> is_source_error e" for pid name e
    by (auto simp: fixture_proc_source_def dest: fixture_read_error)
  show "ps_read_link (fixture_proc_source fx) pid name = Inl e \<Longrightarrow> is_source_error e" for pid name e
    by (auto simp: fixture_proc_source_def bindE_def dest: fixture_read_error split: sum.splits)
qed

section \<open>The pid sweep\<close>

text \<open>A sweep answers with ids up to the bound it was given, ascending.\<close>

locale signal_contract =
  fixes src :: signal_source
  assumes sweep_sorted: "sorted (ss_sweep src pid_max)"
    and sweep_bound: "i \<in> set (ss_sweep src pid_max) \<Longrightarrow> i \<le> pid_max"

text \<open>
  \<open>kill(id, 0)\<close> for every id: success and \<open>PermissionError\<close> (EPERM, EACCES) mean that it exists.
\<close>

definition answers :: "os \<Rightarrow> int \<Rightarrow> bool" where
  "answers os task_id \<longleftrightarrow>
     (case os_kill os task_id of None \<Rightarrow> True | Some exc \<Rightarrow> fst exc \<in> set denied_errnos)"

definition live_read_status :: "os \<Rightarrow> int \<Rightarrow> (int \<times> pystr option) option" where
  "live_read_status os task_id =
     (case os_read os (proc_path (lit ''/proc'') task_id (lit ''status'')) of
        Inl _ \<Rightarrow> None
      | Inr text \<Rightarrow>
          (case parse_status text of
             Inl _ \<Rightarrow> None
           | Inr st \<Rightarrow> Some (st_tgid st, st_name st)))"

text \<open>A file that must be readable: its \<open>OSError\<close> is not caught. The two numbers are read as ASCII.\<close>

definition read_plain :: "os \<Rightarrow> pystr \<Rightarrow> pystr result" where
  "read_plain os path =
     (case os_read os path of Inl exc \<Rightarrow> Inl (OSError (fst exc) (snd exc)) | Inr t \<Rightarrow> Inr t)"

definition read_number :: "os \<Rightarrow> pystr \<Rightarrow> int result" where
  "read_number os path =
     bindE (read_plain os path) (\<lambda>t.
     if list_all (\<lambda>c. c < 128) t then py_int (strip t) else Inl ValueError)"

definition live_signal_source :: "os \<Rightarrow> signal_source" where
  "live_signal_source os =
     \<lparr>ss_pid_max = read_number os (lit ''/proc/sys/kernel/pid_max''),
      ss_sweep = (\<lambda>m. filter (answers os) [1..m]),
      ss_read_status = live_read_status os\<rparr>"

record signal_fixture =
  sx_pid_max :: int
  sx_alive :: "int list"
  sx_tgid :: "(int \<times> int) list"
  sx_comm :: "(int \<times> pystr) list"
  sx_unreadable :: "int list"

definition fixture_signal_source :: "signal_fixture \<Rightarrow> signal_source" where
  "fixture_signal_source fx =
     \<lparr>ss_pid_max = Inr (sx_pid_max fx),
      ss_sweep = (\<lambda>m. filter (\<lambda>i. i \<le> m) (sort (sx_alive fx))),
      ss_read_status = (\<lambda>task_id.
        if task_id \<in> set (sx_unreadable fx) then None
        else map_option (\<lambda>tgid. (tgid, map_of (sx_comm fx) task_id)) (map_of (sx_tgid fx) task_id))\<rparr>"

interpretation live_sweep: signal_contract "live_signal_source os" for os
  by unfold_locales (auto simp: live_signal_source_def sorted_wrt_filter)

interpretation fixture_sweep: signal_contract "fixture_signal_source fx" for fx
  by unfold_locales (auto simp: fixture_signal_source_def sorted_wrt_filter)

section \<open>Socket ownership\<close>

text \<open>The inode of \<open>socket:[n]\<close>; any other link target is no socket.\<close>

definition socket_inode :: "pystr \<Rightarrow> int option result" where
  "socket_inode target =
     (if startswith target (lit ''socket:['')
      then bindE (py_int (butlast (drop 8 target))) (\<lambda>i. Inr (Some i)) else Inr None)"

fun fd_loop :: "os \<Rightarrow> pystr \<Rightarrow> pystr list \<Rightarrow> (int \<times> pystr list) list \<Rightarrow> (int \<times> pystr list) list result" where
  "fd_loop os base [] out = Inr out"
| "fd_loop os base (n # ns) out =
     (let path = base @ lit ''/'' @ n in
      case os_readlink os path of
        Inl _ \<Rightarrow> fd_loop os base ns out
      | Inr target \<Rightarrow>
          bindE (socket_inode target) (\<lambda>inode.
          case inode of
            None \<Rightarrow> fd_loop os base ns out
          | Some i \<Rightarrow> fd_loop os base ns (dappend i path out)))"

definition live_socket_source :: "os \<Rightarrow> socket_source" where
  "live_socket_source os =
     \<lparr>so_read_net_table = (\<lambda>name.
        case os_read os (lit ''/proc/net/'' @ name) of Inl _ \<Rightarrow> None | Inr t \<Rightarrow> Some t),
      so_list_fds = (\<lambda>pid. let base = proc_path (lit ''/proc'') pid (lit ''fd'') in
        case os_listdir os base of Inl _ \<Rightarrow> Inr [] | Inr names \<Rightarrow> fd_loop os base names [])\<rparr>"

record socket_fixture =
  kx_tables :: "(pystr \<times> pystr) list"
  kx_fds :: "(int \<times> int list) list"

definition fixture_socket_source :: "socket_fixture \<Rightarrow> socket_source" where
  "fixture_socket_source fx =
     \<lparr>so_read_net_table = map_of (kx_tables fx),
      so_list_fds = (\<lambda>pid. Inr (dict_of (\<lambda>i. i) (\<lambda>_. [proc_path (lit ''/proc'') pid (lit ''fd/0'')])
        (case map_of (kx_fds fx) pid of None \<Rightarrow> [] | Some is \<Rightarrow> is)))\<rparr>"

section \<open>Modules and hooks\<close>

text \<open>The first of several paths that can be read.\<close>

fun try_paths :: "os \<Rightarrow> pystr list \<Rightarrow> pystr option" where
  "try_paths os [] = None"
| "try_paths os (p # ps) = (case os_read os p of Inr t \<Rightarrow> Some t | Inl _ \<Rightarrow> try_paths os ps)"

definition live_hook_source :: "os \<Rightarrow> hook_source" where
  "live_hook_source os =
     \<lparr>hs_read_enabled_functions = try_paths os
        [lit ''/sys/kernel/tracing/enabled_functions'',
         lit ''/sys/kernel/debug/tracing/enabled_functions''],
      hs_read_kprobes = try_paths os
        [lit ''/sys/kernel/debug/kprobes/list'', lit ''/sys/kernel/tracing/kprobes/list''],
      hs_read_kallsyms_index = try_paths os [lit ''/proc/kallsyms'']\<rparr>"

definition live_module_source :: "os \<Rightarrow> module_source" where
  "live_module_source os =
     \<lparr>ms_read_proc_modules = read_plain os (lit ''/proc/modules''),
      ms_read_tainted = read_number os (lit ''/proc/sys/kernel/tainted''),
      ms_read_vmallocinfo = try_paths os [lit ''/proc/vmallocinfo''],
      ms_read_ftrace_functions = try_paths os
        [lit ''/sys/kernel/tracing/available_filter_functions'',
         lit ''/sys/kernel/debug/tracing/available_filter_functions'']\<rparr>"

text \<open>The fixture trees: the files that exist, by name.\<close>

definition fixture_module_source :: "(pystr \<times> pystr) list \<Rightarrow> module_source" where
  "fixture_module_source files =
     \<lparr>ms_read_proc_modules =
        Inr (case map_of files (lit ''proc_modules.txt'') of None \<Rightarrow> [] | Some t \<Rightarrow> t),
      ms_read_tainted =
        py_int (strip (case map_of files (lit ''tainted.txt'') of
                         None \<Rightarrow> lit ''0'' | Some t \<Rightarrow> if t = [] then lit ''0'' else t)),
      ms_read_vmallocinfo = map_of files (lit ''vmallocinfo.txt''),
      ms_read_ftrace_functions = map_of files (lit ''ftrace.txt'')\<rparr>"

definition fixture_hook_source :: "(pystr \<times> pystr) list \<Rightarrow> hook_source" where
  "fixture_hook_source files =
     \<lparr>hs_read_enabled_functions = map_of files (lit ''enabled_functions.txt''),
      hs_read_kprobes = map_of files (lit ''kprobes.txt''),
      hs_read_kallsyms_index = map_of files (lit ''kallsyms.txt'')\<rparr>"

section \<open>Replay\<close>

definition errno_of :: "pystr \<Rightarrow> int" where
  "errno_of name =
     (if name = lit ''ENOENT'' then 2 else if name = lit ''ESRCH'' then 3
      else if name = lit ''EACCES'' then 13 else if name = lit ''EPERM'' then 1 else 5)"

fun error_class :: "py_error \<Rightarrow> nat" where
  "error_class (Vanished _) = 0"
| "error_class (Denied _) = 1"
| "error_class (Unreadable _) = 2"
| "error_class _ = 3"

text \<open>
  A fixture records the reads of one name under one process: what succeeded is in the tree and in no
  error entry, the link target with or without line ends behind it, what failed is entered under the
  name of its errno.
\<close>

definition entered :: "fixture \<Rightarrow> int \<Rightarrow> pystr \<Rightarrow> pystr option" where
  "entered fx pid name = map_of (fx_errors fx) (str_int pid @ lit ''/'' @ name)"

definition names_errno :: "pystr option \<Rightarrow> os_error \<Rightarrow> bool" where
  "names_errno code exc \<longleftrightarrow>
     (\<exists>c. code = Some c \<and> errno_of c = (if fst exc \<in> {1, 2, 3, 13} then fst exc else 5))"

definition recorded_text :: "fixture \<Rightarrow> os \<Rightarrow> int \<Rightarrow> pystr \<Rightarrow> bool" where
  "recorded_text fx os pid name \<longleftrightarrow>
     (case os_read os (proc_path (lit ''/proc'') pid name) of
        Inr t \<Rightarrow> entered fx pid name = None \<and>
          fx_read fx (proc_path (fx_root fx @ lit ''/proc'') pid name) = Inr t
      | Inl exc \<Rightarrow> names_errno (entered fx pid name) exc)"

definition recorded_link :: "fixture \<Rightarrow> os \<Rightarrow> int \<Rightarrow> pystr \<Rightarrow> bool" where
  "recorded_link fx os pid name \<longleftrightarrow>
     (case os_readlink os (proc_path (lit ''/proc'') pid name) of
        Inr t \<Rightarrow> entered fx pid name = None \<and> (t = [] \<or> last t \<noteq> 10) \<and>
          (\<exists>m. fx_read fx (proc_path (fx_root fx @ lit ''/proc'') pid (name @ lit ''.readlink'')) =
             Inr (t @ replicate m 10))
      | Inl exc \<Rightarrow> names_errno (entered fx pid name) exc)"

text \<open>The same value, or two failures of the same class out of Vanished, Denied and Unreadable.\<close>

definition same_outcome :: "pystr result \<Rightarrow> pystr result \<Rightarrow> bool" where
  "same_outcome r r' \<longleftrightarrow>
     (case (r, r') of
        (Inr x, Inr y) \<Rightarrow> x = y
      | (Inl e, Inl e') \<Rightarrow> error_class e = error_class e' \<and> error_class e < 3
      | _ \<Rightarrow> False)"

lemma rstrip_newlines_replicate: "t = [] \<or> last t \<noteq> 10 \<Longrightarrow> rstrip_newlines (t @ replicate m 10) = t"
proof -
  assume t: "t = [] \<or> last t \<noteq> 10"
  have "dropWhile (\<lambda>c. c = 10) (replicate m 10 @ xs) = dropWhile (\<lambda>c. c = (10::int)) xs" for xs
    by (induction m) simp_all
  from this [of "[]"] this
  have "dropWhile (\<lambda>c. c = 10) (replicate m 10) = []"
    "dropWhile (\<lambda>c. c = 10) (replicate m 10 @ xs) = dropWhile (\<lambda>c. c = (10::int)) xs" for xs
    by simp_all
  moreover have "dropWhile (\<lambda>c. c = 10) (rev t) = rev t"
    using t by (cases t rule: rev_cases) simp_all
  ultimately show ?thesis by (simp add: rstrip_newlines_def)
qed

lemma failure_class:
  assumes "names_errno (entered fx pid name) exc"
  shows "\<exists>e. recorded_failure fx pid name = Some e \<and>
     error_class e = error_class (translate exc what) \<and> error_class e < 3"
  using assms by (auto simp: names_errno_def entered_def recorded_failure_def translate_def Let_def
      errno_of_def vanished_errnos_def denied_errnos_def split: if_splits)

text \<open>
  C32: A fixture that records the answers of a host replays them: every file and every link reads as
  on the host, and every read that failed fails again in the same class, Vanished, Denied or
  Unreadable, as the live source makes of the errno.
\<close>

theorem replay_matches_live:
  assumes "recorded_text fx os pid name" and "recorded_link fx os pid link"
  shows "same_outcome (ps_read_text (fixture_proc_source fx) pid name)
       (ps_read_text (live_proc_source os) pid name) \<and>
     same_outcome (ps_read_link (fixture_proc_source fx) pid link)
       (ps_read_link (live_proc_source os) pid link)"
proof
  have none: "entered fx pid n = None \<Longrightarrow> recorded_failure fx pid n = None" for n
    by (simp add: entered_def recorded_failure_def Let_def)
  show "same_outcome (ps_read_text (fixture_proc_source fx) pid name)
      (ps_read_text (live_proc_source os) pid name)"
  proof (cases "os_read os (proc_path (lit ''/proc'') pid name)")
    case (Inl exc)
    then show ?thesis
      using assms(1) failure_class [of fx pid name exc "lit ''reading '' @ proc_path (lit ''/proc'') pid name"]
      by (auto simp: recorded_text_def fixture_proc_source_def fixture_read_def live_proc_source_def
          Let_def translated_def same_outcome_def)
  next
    case (Inr t)
    then show ?thesis
      using assms(1) by (simp add: recorded_text_def fixture_proc_source_def fixture_read_def none
          live_proc_source_def Let_def translated_def same_outcome_def)
  qed
  show "same_outcome (ps_read_link (fixture_proc_source fx) pid link)
      (ps_read_link (live_proc_source os) pid link)"
  proof (cases "os_readlink os (proc_path (lit ''/proc'') pid link)")
    case (Inl exc)
    then show ?thesis
      using assms(2) failure_class [of fx pid link exc "lit ''resolving '' @ proc_path (lit ''/proc'') pid link"]
      by (auto simp: recorded_link_def fixture_proc_source_def fixture_read_def live_proc_source_def
          Let_def translated_def same_outcome_def)
  next
    case (Inr t)
    then show ?thesis
      using assms(2) by (auto simp: recorded_link_def fixture_proc_source_def fixture_read_def none
          live_proc_source_def Let_def translated_def same_outcome_def rstrip_newlines_replicate
          rstrip_newlines_replicate [of "[]", simplified])
  qed
qed

definition replayed_os :: os where
  "replayed_os = \<lparr>os_listdir = (\<lambda>_. Inr []), os_read = (\<lambda>_. Inl (13, lit ''denied'')),
     os_readlink = (\<lambda>_. Inr (lit ''/sbin/init'')), os_kill = (\<lambda>_. None)\<rparr>"

definition replaying :: fixture where
  "replaying = \<lparr>fx_root = [], fx_errors = [(lit ''7/stat'', lit ''EACCES'')], fx_names = None,
     fx_read = (\<lambda>_. Inr (lit ''/sbin/init'' @ [10]))\<rparr>"

theorem replay_matches_live_witness:
  "same_outcome (ps_read_text (fixture_proc_source replaying) 7 (lit ''stat''))
     (ps_read_text (live_proc_source replayed_os) 7 (lit ''stat'')) \<and>
   same_outcome (ps_read_link (fixture_proc_source replaying) 7 (lit ''exe''))
     (ps_read_link (live_proc_source replayed_os) 7 (lit ''exe''))"
proof (rule replay_matches_live)
  have "entered replaying 7 (lit ''stat'') = Some (lit ''EACCES'')" "entered replaying 7 (lit ''exe'') = None"
    "lit ''/sbin/init'' \<noteq> [] \<and> last (lit ''/sbin/init'') \<noteq> 10" by code_simp+
  then show "recorded_text replaying replayed_os 7 (lit ''stat'')"
    "recorded_link replaying replayed_os 7 (lit ''exe'')"
    by (auto simp: recorded_text_def recorded_link_def replayed_os_def names_errno_def errno_of_def
        replaying_def intro!: exI [of _ "1::nat"])
qed

end
