(* ===== verification/Collect_Procfs.thy ===== *)
theory Collect_Procfs
  imports Sources Snapshot_File
begin

text \<open>
  \<open>collectors/procfs.py\<close>: one walk over the processes that \<open>/proc\<close> lists. Every read that fails is
  recorded; a process that vanished is counted and never degrades the status, one that cannot be
  described keeps its id, and a field that could not be read is named in \<open>partial\<close>.
\<close>

section \<open>Classification of failures\<close>

fun kind_of :: "py_error \<Rightarrow> error_kind" where
  "kind_of (Vanished _) = EK_VANISHED"
| "kind_of (Denied _) = EK_DENIED"
| "kind_of (ParseError _) = EK_MALFORMED"
| "kind_of _ = EK_IO_ERROR"

text \<open>\<open>str(exc)\<close> of the exceptions that are caught here.\<close>

fun message :: "py_error \<Rightarrow> pystr" where
  "message (Vanished m) = m"
| "message (Denied m) = m"
| "message (Unreadable m) = m"
| "message (ParseError m) = m"
| "message _ = []"

text \<open>\<open>except (ProcSourceError, ParseError)\<close>, after \<open>except Vanished\<close>.\<close>

fun is_recorded :: "py_error \<Rightarrow> bool" where
  "is_recorded (Denied _) = True"
| "is_recorded (Unreadable _) = True"
| "is_recorded (ParseError _) = True"
| "is_recorded _ = False"

definition error_at :: "int \<Rightarrow> py_error \<Rightarrow> collection_error" where
  "error_at pid e = \<lparr>ce_entity_id = Some pid, ce_kind = kind_of e, ce_detail = message e\<rparr>"

section \<open>One process\<close>

text \<open>\<open>_optional\<close>: the value, whether the read failed, and what it appends to the two lists.\<close>

definition optional_read ::
  "'a result \<Rightarrow> int \<Rightarrow> string \<Rightarrow> pystr list \<times> collection_error list \<Rightarrow>
   ('a option \<times> bool \<times> pystr list \<times> collection_error list) result" where
  "optional_read r pid field acc =
     (let (partial, errors) = acc in
      case r of
        Inr x \<Rightarrow> Inr (Some x, False, partial, errors)
      | Inl (Vanished _) \<Rightarrow> Inr (None, False, partial, errors)
      | Inl e \<Rightarrow>
          if is_recorded e then Inr (None, True, partial @ [lit field], errors @ [error_at pid e])
          else Inl e)"

record walk =
  wk_observed :: "int list"
  wk_entities :: "(int \<times> process_entity) list"
  wk_vanished :: int
  wk_status :: status
  wk_errors :: "collection_error list"

definition process_of ::
  "stat_fields \<Rightarrow> pystr list option \<Rightarrow> status_fields option \<Rightarrow> pystr option \<Rightarrow> pystr list \<Rightarrow>
   process_entity" where
  "process_of stat cmdline creds exe partial =
     \<lparr>pe_pid = sf_pid stat, pe_ppid = sf_ppid stat, pe_comm = sf_comm stat, pe_state = sf_state stat,
      pe_flags = sf_flags stat, pe_num_threads = sf_num_threads stat,
      pe_starttime_ticks = sf_starttime_ticks stat,
      pe_cmdline = (case cmdline of None \<Rightarrow> [] | Some c \<Rightarrow> c), pe_exe = exe,
      pe_uid = map_option st_uid creds, pe_gid = map_option st_gid creds,
      pe_partial = sort partial\<rparr>"

definition read_stat :: "proc_source \<Rightarrow> int \<Rightarrow> stat_fields result" where
  "read_stat src pid = bindE (ps_read_text src pid (lit ''stat'')) parse_stat"

definition read_cmdline :: "proc_source \<Rightarrow> int \<Rightarrow> pystr list result" where
  "read_cmdline src pid =
     bindE (ps_read_text src pid (lit ''cmdline'')) (\<lambda>t. Inr (parse_cmdline t))"

definition read_status :: "proc_source \<Rightarrow> int \<Rightarrow> status_fields result" where
  "read_status src pid = bindE (ps_read_text src pid (lit ''status'')) parse_status"

definition read_exe :: "proc_source \<Rightarrow> int \<Rightarrow> pystr result" where
  "read_exe src pid = ps_read_link src pid (lit ''exe'')"

definition described :: "proc_source \<Rightarrow> int \<Rightarrow> stat_fields \<Rightarrow> walk \<Rightarrow> walk result" where
  "described src pid stat w =
     bindE (optional_read (read_cmdline src pid) pid ''cmdline'' ([], wk_errors w))
       (\<lambda>(cmdline, d1, p1, e1).
     bindE (optional_read (read_status src pid) pid ''status'' (p1, e1)) (\<lambda>(creds, d2, p2, e2).
     bindE (optional_read (read_exe src pid) pid ''exe'' (p2, e2)) (\<lambda>(exe, d3, p3, e3).
     Inr (w\<lparr>wk_status := if d1 \<or> d2 \<or> d3 then ST_PARTIAL else wk_status w,
            wk_observed := wk_observed w @ [pid],
            wk_entities := AList.update pid (process_of stat cmdline creds exe p3) (wk_entities w),
            wk_errors := e3\<rparr>))))"

definition walk_pid :: "proc_source \<Rightarrow> int \<Rightarrow> walk \<Rightarrow> walk result" where
  "walk_pid src pid w =
     (case read_stat src pid of
        Inr stat \<Rightarrow> described src pid stat w
      | Inl (Vanished m) \<Rightarrow>
          Inr (w\<lparr>wk_vanished := wk_vanished w + 1,
                 wk_errors := wk_errors w @ [error_at pid (Vanished m)]\<rparr>)
      | Inl e \<Rightarrow>
          if is_recorded e
          then Inr (w\<lparr>wk_observed := wk_observed w @ [pid], wk_status := ST_PARTIAL,
                      wk_errors := wk_errors w @ [error_at pid e]\<rparr>)
          else Inl e)"

section \<open>The walk\<close>

definition procfs_observation ::
  "pystr option \<Rightarrow> int \<Rightarrow> status \<Rightarrow> int list \<Rightarrow> (int \<times> process_entity) list \<Rightarrow> (string \<times> json) list \<Rightarrow>
   collection_error list \<Rightarrow> observation" where
  "procfs_observation label ms status ids entities stats errors =
     \<lparr>ob_collector = lit ''procfs.processes'', ob_collector_version = lit ''1'',
      ob_view = lit ''processes'', ob_trust_level = TL_LOW, ob_status = status,
      ob_duration_ms = JInt ms, ob_entity_ids = map IdInt ids,
      ob_entities = map (\<lambda>(pid, e). (IdInt pid, EProcess e)) entities, ob_stats = ldict stats,
      ob_errors = errors, ob_pass = label, ob_extra = None\<rparr>"

definition start_walk :: walk where
  "start_walk = \<lparr>wk_observed = [], wk_entities = [], wk_vanished = 0, wk_status = ST_OK,
     wk_errors = []\<rparr>"

definition collect_procfs :: "pystr option \<Rightarrow> int \<Rightarrow> proc_source \<Rightarrow> observation result" where
  "collect_procfs label ms src =
     (case ps_list_pids src of
        Inl e \<Rightarrow>
          if is_source_error e
          then Inr (procfs_observation label ms ST_FAILED [] []
                 [(''scanned'', JInt 0), (''collected'', JInt 0), (''vanished'', JInt 0)]
                 [\<lparr>ce_entity_id = None, ce_kind = EK_IO_ERROR, ce_detail = message e\<rparr>])
          else Inl e
      | Inr pids \<Rightarrow>
          bindE (foldE (walk_pid src) pids start_walk) (\<lambda>w.
          Inr (procfs_observation label ms (wk_status w) (sort (wk_observed w)) (wk_entities w)
                 [(''scanned'', JInt (int (length pids))),
                  (''collected'', JInt (int (length (wk_entities w)))),
                  (''vanished'', JInt (wk_vanished w))]
                 (wk_errors w))))"

section \<open>The walk as a specification\<close>

text \<open>What the walk makes of one process, in terms of its reads alone.\<close>

definition vanished :: "proc_source \<Rightarrow> int \<Rightarrow> bool" where
  "vanished src pid \<longleftrightarrow> (\<exists>m. read_stat src pid = Inl (Vanished m))"

definition described_pid :: "proc_source \<Rightarrow> int \<Rightarrow> bool" where
  "described_pid src pid \<longleftrightarrow> (\<exists>st. read_stat src pid = Inr st)"

definition unread :: "'a result \<Rightarrow> bool" where
  "unread r \<longleftrightarrow> (\<exists>e. r = Inl e \<and> is_recorded e)"

definition unread_fields :: "proc_source \<Rightarrow> int \<Rightarrow> pystr list" where
  "unread_fields src pid =
     (if unread (read_cmdline src pid) then [lit ''cmdline''] else []) @
     (if unread (read_status src pid) then [lit ''status''] else []) @
     (if unread (read_exe src pid) then [lit ''exe''] else [])"

definition value_of :: "'a result \<Rightarrow> 'a option" where
  "value_of r = (case r of Inl _ \<Rightarrow> None | Inr x \<Rightarrow> Some x)"

definition entity_of :: "proc_source \<Rightarrow> int \<Rightarrow> stat_fields \<Rightarrow> process_entity" where
  "entity_of src pid st =
     process_of st (value_of (read_cmdline src pid)) (value_of (read_status src pid))
       (value_of (read_exe src pid)) (unread_fields src pid)"

definition degrades :: "proc_source \<Rightarrow> int \<Rightarrow> bool" where
  "degrades src pid \<longleftrightarrow>
     unread (read_stat src pid) \<or> described_pid src pid \<and> unread_fields src pid \<noteq> []"

text \<open>
  The error records of one process, in the order of its reads: that of its stat, vanished or not,
  or those of the three other reads, where a vanished file leaves no record.
\<close>

definition record_of :: "int \<Rightarrow> py_error \<Rightarrow> collection_error" where
  "record_of pid e = \<lparr>ce_entity_id = Some pid, ce_kind = kind_of e, ce_detail = message e\<rparr>"

definition unread_records :: "int \<Rightarrow> 'a result \<Rightarrow> collection_error list" where
  "unread_records pid r =
     (case r of Inl e \<Rightarrow> if is_recorded e then [record_of pid e] else [] | Inr _ \<Rightarrow> [])"

definition error_records :: "proc_source \<Rightarrow> int \<Rightarrow> collection_error list" where
  "error_records src pid =
     (case read_stat src pid of
        Inl e \<Rightarrow> [record_of pid e]
      | Inr _ \<Rightarrow> unread_records pid (read_cmdline src pid) @ unread_records pid (read_status src pid) @
          unread_records pid (read_exe src pid))"

text \<open>Failures of an optional read, and the three classes of failures of a read.\<close>

definition tame :: "'a result \<Rightarrow> bool" where
  "tame r \<longleftrightarrow> (\<forall>e. r = Inl e \<longrightarrow> is_recorded e \<or> (\<exists>m. e = Vanished m))"

lemma optional_read_tame:
  assumes "tame r"
  shows "optional_read r pid field (partial, errs) =
     Inr (value_of r, unread r, partial @ (if unread r then [lit field] else []),
       errs @ unread_records pid r)"
  using assms
  by (cases r; cases "projl r")
    (auto simp: optional_read_def tame_def value_of_def unread_def unread_records_def record_of_def
      error_at_def)

lemma described_tame:
  assumes "tame (read_cmdline src pid)" "tame (read_status src pid)" "tame (read_exe src pid)"
  shows "described src pid st w = Inr (w\<lparr>
     wk_status := if unread_fields src pid \<noteq> [] then ST_PARTIAL else wk_status w,
     wk_observed := wk_observed w @ [pid],
     wk_entities := AList.update pid (entity_of src pid st) (wk_entities w),
     wk_errors := wk_errors w @ unread_records pid (read_cmdline src pid) @
       unread_records pid (read_status src pid) @ unread_records pid (read_exe src pid)\<rparr>)"
  by (simp add: described_def optional_read_tame assms unread_fields_def entity_of_def)

definition entity_at_pid :: "proc_source \<Rightarrow> int \<Rightarrow> process_entity" where
  "entity_at_pid src pid = entity_of src pid (projr (read_stat src pid))"

context proc_contract
begin

lemma tame_reads:
  "tame (read_stat src pid)" "tame (read_cmdline src pid)" "tame (read_status src pid)"
  "tame (read_exe src pid)"
proof -
  have e: "is_recorded e \<or> (\<exists>m. e = Vanished m)" if "is_source_error e" for e
    using that by (cases e) auto
  have stat: "\<exists>m. e = ParseError m" if "parse_stat t = Inl e" for t e
    using parse_stat_error [OF that] .
  have status: "\<exists>m. e = ParseError m" if "parse_status t = Inl e" for t e
    using parse_status_error [OF that] .
  show "tame (read_stat src pid)"
    by (auto simp: tame_def read_stat_def bindE_def dest!: e [OF text_error] stat
        split: sum.splits)
  show "tame (read_cmdline src pid)"
    by (auto simp: tame_def read_cmdline_def bindE_def dest!: e [OF text_error]
        split: sum.splits)
  show "tame (read_status src pid)"
    by (auto simp: tame_def read_status_def bindE_def dest!: e [OF text_error] status
        split: sum.splits)
  show "tame (read_exe src pid)"
    by (auto simp: tame_def read_exe_def dest!: e [OF link_error])
qed

lemma walk_pid_spec:
  "walk_pid src pid w = Inr \<lparr>
     wk_observed = wk_observed w @ (if vanished src pid then [] else [pid]),
     wk_entities = (if described_pid src pid
       then AList.update pid (entity_at_pid src pid) (wk_entities w) else wk_entities w),
     wk_vanished = wk_vanished w + (if vanished src pid then 1 else 0),
     wk_status = (if degrades src pid then ST_PARTIAL else wk_status w),
     wk_errors = wk_errors w @ error_records src pid\<rparr>"
proof (cases "read_stat src pid")
  case (Inr st)
  then show ?thesis
    by (cases w) (auto simp: walk_pid_def vanished_def described_pid_def degrades_def unread_def
        entity_at_pid_def error_records_def described_tame tame_reads)
next
  case (Inl e)
  then have "is_recorded e \<or> (\<exists>m. e = Vanished m)"
    using tame_reads(1) [of pid] by (simp add: tame_def)
  then show ?thesis
    by (cases w; cases e)
      (auto simp: walk_pid_def Inl vanished_def described_pid_def degrades_def unread_def
        error_records_def record_of_def error_at_def)
qed

lemma walk_spec:
  "foldE (walk_pid src) pids w = Inr \<lparr>
     wk_observed = wk_observed w @ filter (\<lambda>p. \<not> vanished src p) pids,
     wk_entities = fold (\<lambda>p. AList.update p (entity_at_pid src p)) (filter (described_pid src) pids)
       (wk_entities w),
     wk_vanished = wk_vanished w + int (length (filter (vanished src) pids)),
     wk_status = (if list_ex (degrades src) pids then ST_PARTIAL else wk_status w),
     wk_errors = wk_errors w @ concat (map (error_records src) pids)\<rparr>"
  by (induction pids arbitrary: w) (auto simp: walk_pid_spec)

text \<open>The observation of a walk, in closed form.\<close>

lemma collect_spec:
  assumes "ps_list_pids src = Inr pids" and "distinct pids"
  shows "collect_procfs label ms src = Inr
     (procfs_observation label ms
        (if list_ex (degrades src) pids then ST_PARTIAL else ST_OK)
        (filter (\<lambda>p. \<not> vanished src p) pids)
        (map (\<lambda>p. (p, entity_at_pid src p)) (filter (described_pid src) pids))
        [(''scanned'', JInt (int (length pids))),
         (''collected'', JInt (int (length (filter (described_pid src) pids)))),
         (''vanished'', JInt (int (length (filter (vanished src) pids))))]
        (concat (map (error_records src) pids)))"
proof -
  have sorted: "sorted pids" using assms(1) by (rule listing_sorted)
  have ents: "fold (\<lambda>p. AList.update p (entity_at_pid src p)) (filter (described_pid src) pids) [] =
      map (\<lambda>p. (p, entity_at_pid src p)) (filter (described_pid src) pids)"
    using dict_of_fresh [of "\<lambda>p. p" "filter (described_pid src) pids" "entity_at_pid src"] assms(2)
    by (simp add: dict_of_def)
  have "sort (filter (\<lambda>p. \<not> vanished src p) pids) = filter (\<lambda>p. \<not> vanished src p) pids"
    using sorted by (simp add: sorted_sort_id sorted_wrt_filter)
  with ents show ?thesis
    by (simp add: collect_procfs_def assms(1) start_walk_def walk_spec)
qed

lemma collect_failed:
  assumes "ps_list_pids src = Inl e" and "e \<noteq> ValueError"
  shows "\<exists>o'. collect_procfs label ms src = Inr o' \<and> ob_status o' = ST_FAILED \<and>
     ob_entity_ids o' = [] \<and> ob_entities o' = []"
  using assms listing_error [OF assms(1)]
  by (simp add: collect_procfs_def procfs_observation_def)

end

section \<open>Properties\<close>

text \<open>
  C23: On a live host the walk lists, in ascending order, exactly the pids that did not vanish; it
  describes exactly those whose stat was read and parsed, by what their own reads returned; its
  status is PARTIAL exactly when something that exists could not be read; its counters are the
  numbers of pids listed, described and vanished; its errors are, pid by pid, the records of the
  reads that failed, with pid, kind and message; and no read failure escapes it.
\<close>

theorem live_walk_complete:
  assumes "ps_list_pids (live_proc_source os) = Inr pids" and "distinct pids"
  defines "src \<equiv> live_proc_source os"
  shows "\<exists>o'. collect_procfs label ms src = Inr o' \<and>
     ob_entity_ids o' = map IdInt (filter (\<lambda>p. \<not> vanished src p) pids) \<and>
     ob_entities o' = map (\<lambda>p. (IdInt p, EProcess (entity_at_pid src p)))
       (filter (described_pid src) pids) \<and>
     ob_status o' = (if list_ex (degrades src) pids then ST_PARTIAL else ST_OK) \<and>
     ob_stats o' =
       [(lit ''scanned'', JInt (int (length pids))),
        (lit ''collected'', JInt (int (length (filter (described_pid src) pids)))),
        (lit ''vanished'', JInt (int (length (filter (vanished src) pids))))] \<and>
     ob_errors o' = concat (map (error_records src) pids) \<and> sorted pids"
  using live.collect_spec [OF assms(1,2), of label ms] live.listing_sorted [OF assms(1)]
  by (auto simp: src_def procfs_observation_def ldict_def)

definition sample_os :: os where
  "sample_os = \<lparr>os_listdir = (\<lambda>_. Inr [lit ''1'', lit ''self'', lit ''7'']),
     os_read = (\<lambda>path. if path = lit ''/proc/1/stat''
        then Inr (lit ''1 (init) S 0 1 1 0 0 0 0 0 0 0 0 0 0 0 0 0 1 0 5'' @ [10])
        else if path = lit ''/proc/1/status'' then Inl (13, lit ''Permission denied'')
        else Inl (2, lit ''No such file'')),
     os_readlink = (\<lambda>_. Inl (2, lit ''No such file'')), os_kill = (\<lambda>_. None)\<rparr>"

theorem live_walk_complete_witness:
  "\<exists>o'. collect_procfs None 0 (live_proc_source sample_os) = Inr o' \<and>
     ob_entity_ids o' = [IdInt 1] \<and> map fst (ob_entities o') = [IdInt 1] \<and>
     ob_status o' = ST_PARTIAL \<and> map ce_kind (ob_errors o') = [EK_DENIED, EK_VANISHED]"
proof -
  let ?src = "live_proc_source sample_os"
  have pids: "ps_list_pids ?src = Inr [1, 7]" by code_simp
  have 1: "read_stat ?src 1 = Inr \<lparr>sf_pid = 1, sf_comm = lit ''init'', sf_state = lit ''S'', sf_ppid = 0,
      sf_flags = 0, sf_num_threads = 1, sf_starttime_ticks = 5\<rparr>" by code_simp
  have 7: "read_stat ?src 7 = Inl (Vanished (lit ''reading /proc/7/stat: No such file (errno 2)''))"
    by code_simp
  have s1: "read_status ?src 1 =
      Inl (Denied (lit ''reading /proc/1/status: Permission denied (errno 13)''))"
    by code_simp
  have records: "map ce_kind (concat (map (error_records ?src) [1, 7])) = [EK_DENIED, EK_VANISHED]"
    by code_simp
  have "distinct [1, 7 :: int]" by simp
  from live_walk_complete [OF pids this, of None 0] records show ?thesis
    by (simp add: vanished_def described_pid_def degrades_def unread_fields_def unread_def 1 7 s1)
      auto
qed

text \<open>
  The walk never fails for a reason of the host: if the listing itself cannot be read, it
  returns a FAILED observation without entities, which a replayed capture does as well.
\<close>

theorem walk_failed_listing:
  assumes "ps_list_pids (live_proc_source os) = Inl e" and "e \<noteq> ValueError"
    and "fx_names fx = None"
  shows "(\<exists>o'. collect_procfs label ms (live_proc_source os) = Inr o' \<and> ob_status o' = ST_FAILED \<and>
       ob_entity_ids o' = [] \<and> ob_entities o' = []) \<and>
     (\<exists>o'. collect_procfs label ms (fixture_proc_source fx) = Inr o' \<and> ob_status o' = ST_FAILED \<and>
       ob_entity_ids o' = [] \<and> ob_entities o' = [])"
proof
  show "\<exists>o'. collect_procfs label ms (live_proc_source os) = Inr o' \<and> ob_status o' = ST_FAILED \<and>
       ob_entity_ids o' = [] \<and> ob_entities o' = []"
    by (rule live.collect_failed [OF assms(1,2)])
  show "\<exists>o'. collect_procfs label ms (fixture_proc_source fx) = Inr o' \<and> ob_status o' = ST_FAILED \<and>
       ob_entity_ids o' = [] \<and> ob_entities o' = []"
    by (rule fixture.collect_failed [of fx "Unreadable (lit ''no proc directory under '' @ fx_root fx)"])
      (simp_all add: fixture_proc_source_def assms(3))
qed

theorem walk_failed_listing_witness:
  "\<exists>o'. collect_procfs None 0 (live_proc_source (sample_os\<lparr>os_listdir := \<lambda>_. Inl (5, lit ''I/O'')\<rparr>)) =
     Inr o' \<and> ob_status o' = ST_FAILED"
proof -
  let ?os = "sample_os\<lparr>os_listdir := \<lambda>_. Inl (5, lit ''I/O'')\<rparr>"
  have "ps_list_pids (live_proc_source ?os) = Inl (Unreadable (lit ''listing /proc: I/O (errno 5)''))"
    by code_simp
  moreover have "Unreadable m \<noteq> ValueError" for m by simp
  moreover have "fx_names \<lparr>fx_root = [], fx_errors = [], fx_names = None, fx_read = Inr\<rparr> = None"
    by simp
  ultimately show ?thesis using walk_failed_listing [of ?os] by blast
qed

end
