(* ===== verification/Collect_Kernel.thy ===== *)
theory Collect_Kernel
  imports Sources Snapshot_File
begin

text \<open>
  \<open>collectors/modules.py\<close>, \<open>kernel_hooks.py\<close>, \<open>syscall_sweep.py\<close> and \<open>sockets.py\<close>: the other four
  views. None of them catches a parser's exception; each records what its channels said.
\<close>

section \<open>Modules\<close>

definition observation_of ::
  "string \<Rightarrow> string \<Rightarrow> trust_level \<Rightarrow> int \<Rightarrow> eid list \<Rightarrow> (eid \<times> entity) list \<Rightarrow> (string \<times> json) list \<Rightarrow>
   (string \<times> json) list option \<Rightarrow> observation" where
  "observation_of name view trust ms ids entities stats extra =
     \<lparr>ob_collector = lit name, ob_collector_version = lit ''1'', ob_view = lit view,
      ob_trust_level = trust, ob_status = ST_OK, ob_duration_ms = JInt ms, ob_entity_ids = ids,
      ob_entities = entities, ob_stats = ldict stats, ob_errors = [], ob_pass = None,
      ob_extra = map_option ldict extra\<rparr>"

definition module_of_row :: "module_row \<Rightarrow> module_entity" where
  "module_of_row r =
     \<lparr>mo_name = mr_name r, mo_size = mr_size r, mo_refcount = mr_refcount r,
      mo_dependents = mr_dependents r, mo_state = mr_state r, mo_base_addr = mr_base_addr r,
      mo_taint = mr_taint r\<rparr>"

definition collect_modules :: "int \<Rightarrow> module_source \<Rightarrow> observation result" where
  "collect_modules ms src =
     bindE (bindE (ms_read_proc_modules src) parse_proc_modules) (\<lambda>rows.
     let entities = dict_of mr_name module_of_row rows in
     Inr (observation_of ''procfs.modules'' ''modules'' TL_LOW ms
            (map IdStr (sort (map fst entities)))
            (map (\<lambda>(n, m). (IdStr n, EModule m)) entities)
            [(''listed'', JInt (int (length entities)))] None))"

text \<open>\<open>if r.taint\<close>: an empty marker does not count.\<close>

definition has_taint :: "module_row \<Rightarrow> bool" where
  "has_taint r \<longleftrightarrow> mr_taint r \<noteq> None \<and> mr_taint r \<noteq> Some []"

definition collect_module_evidence :: "int \<Rightarrow> module_source \<Rightarrow> observation result" where
  "collect_module_evidence ms src =
     bindE (ms_read_tainted src) (\<lambda>taint.
     bindE (bindE (ms_read_proc_modules src) parse_proc_modules) (\<lambda>listed.
     let markers = int (length (filter has_taint listed));
         regions = map_option count_module_regions (ms_read_vmallocinfo src);
         ftrace_modules =
           map_option (\<lambda>t. sorted_set (parse_ftrace_modules t)) (ms_read_ftrace_functions src) in
     Inr (observation_of ''kernel.module_evidence'' ''modules'' TL_MEDIUM ms [] []
            [(''taint'', JInt taint), (''load_module_regions'', opt_json JInt regions),
             (''ftrace_available'', JBool (ms_read_ftrace_functions src \<noteq> None)),
             (''ftrace_module_count'',
              JInt (case ftrace_modules of None \<Rightarrow> 0 | Some ns \<Rightarrow> int (length ns)))]
            (Some [(''listed_taint_markers'', JInt markers),
                   (''ftrace_modules'', opt_json strs_json ftrace_modules)]))))"

section \<open>Hooks\<close>

text \<open>The inline tag, else the module of the callback symbol; an empty callback counts as none.\<close>

definition hook_owner :: "(pystr \<times> pystr) list \<Rightarrow> hook_row \<Rightarrow> pystr option" where
  "hook_owner sym_to_mod r =
     (case hr_owner_module r of
        Some m \<Rightarrow> Some m
      | None \<Rightarrow>
          (case hr_callback r of
             None \<Rightarrow> None
           | Some cb \<Rightarrow> if cb = [] then None else map_of sym_to_mod cb))"

definition hook_key :: "hook_row \<Rightarrow> pystr" where
  "hook_key r = hr_hook_type r @ lit '':'' @ hr_function r"

definition hook_of_row :: "(pystr \<times> pystr) list \<Rightarrow> hook_row \<Rightarrow> hook_entity" where
  "hook_of_row sym_to_mod r =
     \<lparr>hk_function = hr_function r, hk_hook_type = hr_hook_type r, hk_callback = hr_callback r,
      hk_owner_module = hook_owner sym_to_mod r\<rparr>"

definition parse_opt :: "('a \<Rightarrow> 'b list result) \<Rightarrow> 'a option \<Rightarrow> 'b list result" where
  "parse_opt parse text' = (case text' of None \<Rightarrow> Inr [] | Some t \<Rightarrow> parse t)"

definition collect_hooks :: "int \<Rightarrow> hook_source \<Rightarrow> observation result" where
  "collect_hooks ms src =
     (let kallsyms = hs_read_kallsyms_index src;
          sym_to_mod = (case kallsyms of None \<Rightarrow> [] | Some t \<Rightarrow>
            if t = [] then [] else reduce_kallsyms t) in
      bindE (parse_opt parse_enabled_functions (hs_read_enabled_functions src)) (\<lambda>rows1.
      bindE (parse_opt parse_kprobes (hs_read_kprobes src)) (\<lambda>rows2.
      let entities = dict_of hook_key (hook_of_row sym_to_mod) (rows1 @ rows2) in
      Inr (observation_of ''kernel.hooks'' ''kernel_hooks'' TL_MEDIUM ms
             (map IdStr (sort (map fst entities)))
             (map (\<lambda>(k, h). (IdStr k, EHook h)) entities)
             [(''enabled_functions_available'', JBool (hs_read_enabled_functions src \<noteq> None)),
              (''kprobes_available'', JBool (hs_read_kprobes src \<noteq> None)),
              (''kallsyms_available'', JBool (kallsyms \<noteq> None)),
              (''hooks'', JInt (int (length entities)))]
             (Some [(''kallsyms_modules'', strs_json (sorted_set (map snd sym_to_mod)))])))))"

section \<open>The sweep\<close>

definition sweep_entity_of :: "signal_source \<Rightarrow> int \<Rightarrow> sweep_entity" where
  "sweep_entity_of src task_id =
     (case ss_read_status src task_id of
        None \<Rightarrow> \<lparr>sw_tgid = task_id, sw_status_readable = False, sw_comm = None\<rparr>
      | Some (tgid, comm) \<Rightarrow> \<lparr>sw_tgid = tgid, sw_status_readable = True, sw_comm = comm\<rparr>)"

definition collect_sweep :: "int \<Rightarrow> int \<Rightarrow> signal_source \<Rightarrow> observation result" where
  "collect_sweep sweep_ms ms src =
     bindE (ss_pid_max src) (\<lambda>pid_max.
     let alive = ss_sweep src pid_max;
         entities = dict_of (\<lambda>i. i) (sweep_entity_of src) alive in
     Inr (observation_of ''syscall_sweep.processes'' ''processes'' TL_MEDIUM ms
            (map IdInt (sort alive)) (map (\<lambda>(i, e). (IdInt i, ESweep e)) entities)
            [(''pid_max'', JInt pid_max), (''responded'', JInt (int (length alive))),
             (''sweep_ms'', JInt sweep_ms)] None))"

section \<open>Sockets\<close>

definition rich_families :: "pystr list" where
  "rich_families = [lit ''tcp'', lit ''tcp6'', lit ''udp'', lit ''udp6'']"

definition socket_of_row :: "net_row \<Rightarrow> socket_entity" where
  "socket_of_row r =
     \<lparr>so_inode = nr_inode r, so_kind = nr_kind r, so_state = nr_state r, so_local = nr_local r,
      so_remote = nr_remote r, so_uid = nr_uid r, so_in_table = True, so_owner_pids = []\<rparr>"

definition socket_key :: "net_row \<Rightarrow> pystr" where
  "socket_key r = str_int (nr_inode r)"

text \<open>The tables that could be read, with their families.\<close>

definition readable_tables :: "socket_source \<Rightarrow> (pystr \<times> pystr) list" where
  "readable_tables src =
     concat (map (\<lambda>kind. case so_read_net_table src kind of None \<Rightarrow> [] | Some t \<Rightarrow> [(kind, t)])
       rich_families)"

text \<open>The pids of the walk in the order they are visited, with the inodes each holds.\<close>

definition held_sockets :: "socket_source \<Rightarrow> int list \<Rightarrow> (pystr \<times> int) list result" where
  "held_sockets src pids =
     bindE (mapE (\<lambda>pid. bindE (so_list_fds src pid) (\<lambda>fds.
              Inr (map (\<lambda>(inode, _). (str_int inode, pid)) fds))) pids) (\<lambda>held.
     Inr (concat held))"

definition own :: "pystr \<times> int list \<Rightarrow> (pystr \<times> socket_entity) list \<Rightarrow> (pystr \<times> socket_entity) list" where
  "own ko entities =
     (case ko of (key, pids) \<Rightarrow>
       (case map_of entities key of
          None \<Rightarrow> entities
        | Some e \<Rightarrow> AList.update key (e\<lparr>so_owner_pids := sorted_set pids\<rparr>) entities))"

definition collect_sockets :: "int list \<Rightarrow> int \<Rightarrow> socket_source \<Rightarrow> observation result" where
  "collect_sockets pids ms src =
     bindE (mapE (\<lambda>(kind, t). parse_net_tcp t kind) (readable_tables src)) (\<lambda>tables.
     let entities = dict_of socket_key socket_of_row (concat tables) in
     bindE (held_sockets src pids) (\<lambda>held.
     let owners = group_by fst snd (filter (\<lambda>(key, pid). key \<in> fst ` set entities) held);
         entities' = fold own owners entities in
     Inr (observation_of ''procfs.sockets'' ''sockets'' TL_LOW ms
            (map IdStr (sort (map fst entities')))
            (map (\<lambda>(k, e). (IdStr k, ESocket e)) entities')
            [(''tables_read'', JInt (int (length (readable_tables src)))),
             (''sockets'', JInt (int (length entities'))),
             (''pids_walked'', JInt (set_size pids))] None)))"

section \<open>Ownership in closed form\<close>

lemma update_existing:
  "distinct (map fst d) \<Longrightarrow> k \<in> fst ` set d \<Longrightarrow>
   AList.update k v d = map (\<lambda>(k', v'). (k', if k' = k then v else v')) d"
proof (induction d)
  case (Cons p d)
  obtain k' v' where p: "p = (k', v')" by (cases p)
  show ?case
  proof (cases "k' = k")
    case True
    with Cons.prems have "k \<notin> fst ` set d" by (simp add: p)
    then have "map (\<lambda>(k', v'). (k', if k' = k then v else v')) d = d"
      by (intro map_idI) force
    with True show ?thesis by (simp add: p)
  next
    case False
    with Cons show ?thesis by (simp add: p)
  qed
qed simp

definition owned_by :: "(pystr \<times> int list) list \<Rightarrow> pystr \<times> socket_entity \<Rightarrow> pystr \<times> socket_entity" where
  "owned_by owners ke =
     (case ke of (k, e) \<Rightarrow> (k, case map_of owners k of None \<Rightarrow> e
        | Some ps \<Rightarrow> e\<lparr>so_owner_pids := sorted_set ps\<rparr>))"

lemma own_map:
  assumes "distinct (map fst entities)"
  shows "own (key, ps) entities = map (\<lambda>(k, e). (k, if k = key
     then e\<lparr>so_owner_pids := sorted_set ps\<rparr> else e)) entities"
proof (cases "map_of entities key")
  case None
  then have "key \<notin> fst ` set entities" by (simp add: map_of_eq_None_iff)
  then have "map (\<lambda>(k, e). (k, if k = key then e\<lparr>so_owner_pids := sorted_set ps\<rparr> else e)) entities = entities"
    by (intro map_idI) force
  with None show ?thesis by (simp add: own_def)
next
  case (Some e)
  then have key: "key \<in> fst ` set entities" by (metis map_of_eq_None_iff option.distinct(1))
  have uniq: "e' = e" if "(key, e') \<in> set entities" for e'
    using that Some assms by simp
  have "own (key, ps) entities = AList.update key (e\<lparr>so_owner_pids := sorted_set ps\<rparr>) entities"
    using Some by (simp add: own_def)
  then show ?thesis
    unfolding update_existing [OF assms key] by (rule trans) (rule map_cong [OF refl], use uniq in force)
qed

lemma fst_own_map: "map fst (map (\<lambda>(k, e). (k, f k e)) d) = map fst d"
  by (simp add: case_prod_beta comp_def)

lemma fold_own:
  "distinct (map fst owners) \<Longrightarrow> distinct (map fst entities) \<Longrightarrow>
   fold own owners entities = map (owned_by owners) entities"
proof (induction owners arbitrary: entities)
  case Nil
  show ?case by (simp add: owned_by_def case_prod_beta)
next
  case (Cons ko owners)
  obtain key ps where ko: "ko = (key, ps)" by (cases ko)
  let ?E = "map (\<lambda>(k, e). (k, if k = key then e\<lparr>so_owner_pids := sorted_set ps\<rparr> else e)) entities"
  have "fold own (ko # owners) entities = fold own owners ?E"
    using Cons.prems by (simp add: ko own_map)
  also have "distinct (map fst ?E)" using Cons.prems(2) by (simp only: fst_own_map)
  then have "fold own owners ?E = map (owned_by owners) ?E"
    using Cons.prems(1) by (intro Cons.IH) simp_all
  also have "\<dots> = map (owned_by (ko # owners)) entities"
  proof (rule map_map [THEN trans], rule map_cong [OF refl])
    fix x
    have "map_of owners key = None" using Cons.prems(1) by (simp add: ko map_of_eq_None_iff)
    then show "(owned_by owners \<circ> (\<lambda>(k, e). (k, if k = key then e\<lparr>so_owner_pids := sorted_set ps\<rparr>
        else e))) x = owned_by (ko # owners) x"
      by (cases x) (auto simp: owned_by_def ko split: option.splits)
  qed
  finally show ?case .
qed

definition holders :: "(pystr \<times> int) list \<Rightarrow> pystr \<Rightarrow> int list" where
  "holders held key = map snd (filter (\<lambda>h. fst h = key) held)"

lemma owned_entities:
  assumes "entities = dict_of socket_key socket_of_row rows"
  shows "fold own (group_by fst snd (filter (\<lambda>(key, pid). key \<in> fst ` set entities) held)) entities =
     map (\<lambda>(k, e). (k, e\<lparr>so_owner_pids := sorted_set (holders held k)\<rparr>)) entities"
proof -
  let ?g = "group_by fst snd (filter (\<lambda>(key, pid). key \<in> fst ` set entities) held)"
  have none: "e\<lparr>so_owner_pids := []\<rparr> = e" if "(k, e) \<in> set entities" for k e
  proof -
    have "map_of entities k = Some e" using that by (simp add: assms distinct_fst_dict_of)
    then show ?thesis
      by (auto simp: assms map_of_dict_of socket_of_row_def split: list.splits)
  qed
  have "owned_by ?g (k, e) = (k, e\<lparr>so_owner_pids := sorted_set (holders held k)\<rparr>)"
    if ke: "(k, e) \<in> set entities" for k e
  proof -
    have k: "k \<in> fst ` set entities" using ke by force
    have f: "filter (\<lambda>x. (case x of (key, pid) \<Rightarrow> key \<in> fst ` set entities) \<and> fst x = k) held =
        filter (\<lambda>h. fst h = k) held"
      using k by (auto simp: case_prod_beta intro!: filter_cong)
    show ?thesis
    proof (cases "holders held k = []")
      case True
      then have "k \<notin> fst ` set (filter (\<lambda>(key, pid). key \<in> fst ` set entities) held)"
        by (auto simp: holders_def filter_empty_conv)
      then show ?thesis
        using none [OF ke] by (simp add: owned_by_def map_of_group_by True sorted_set_def)
    next
      case False
      then have "k \<in> fst ` set (filter (\<lambda>(key, pid). key \<in> fst ` set entities) held)"
        using k by (force simp: holders_def filter_empty_conv)
      then show ?thesis
        by (simp add: owned_by_def map_of_group_by f holders_def)
    qed
  qed
  then show ?thesis
    by (auto simp: fold_own distinct_fst_group_by assms distinct_fst_dict_of)
qed

lemma held_sockets_set:
  assumes "\<forall>p \<in> set pids. \<exists>fds. so_list_fds src p = Inr fds"
  shows "\<exists>held. held_sockets src pids = Inr held \<and>
     set held = {(str_int i, p) | i p. p \<in> set pids \<and> i \<in> fst ` set (projr (so_list_fds src p))}"
proof -
  let ?f = "\<lambda>p. map (\<lambda>(inode, _). (str_int inode, p)) (projr (so_list_fds src p))"
  have "mapE (\<lambda>pid. bindE (so_list_fds src pid) (\<lambda>fds.
      Inr (map (\<lambda>(inode, _). (str_int inode, pid)) fds))) pids = Inr (map ?f pids)"
    using assms by (intro mapE_total) auto
  then show ?thesis
    by (force simp: held_sockets_def)
qed

section \<open>Attribution\<close>

text \<open>
  C35: A hook is attributed to the module tagged on its own line, and only without such a tag to
  the module that kallsyms gives for its callback; the last row of a function decides.
\<close>

theorem hook_attribution:
  assumes "collect_hooks ms src = Inr o'"
    and "parse_opt parse_enabled_functions (hs_read_enabled_functions src) = Inr rows1"
    and "parse_opt parse_kprobes (hs_read_kprobes src) = Inr rows2"
    and "rows1 @ rows2 = before @ r # after" and "hook_key r \<notin> hook_key ` set after"
  shows "\<exists>h. map_of (ob_entities o') (IdStr (hook_key r)) = Some (EHook h) \<and>
     hk_function h = hr_function r \<and> hk_callback h = hr_callback r \<and>
     hk_owner_module h =
       (case hr_owner_module r of
          Some m \<Rightarrow> Some m
        | None \<Rightarrow> (case (hr_callback r, hs_read_kallsyms_index src) of
            (Some cb, Some t) \<Rightarrow> if cb = [] \<or> t = [] then None else map_of (reduce_kallsyms t) cb
          | _ \<Rightarrow> None))"
proof -
  define syms where "syms = (case hs_read_kallsyms_index src of None \<Rightarrow> [] | Some t \<Rightarrow>
    if t = [] then [] else reduce_kallsyms t)"
  from assms(1-3) have "ob_entities o' = map (\<lambda>(k, h). (IdStr k, EHook h))
      (dict_of hook_key (hook_of_row syms) (rows1 @ rows2))"
    by (auto simp: collect_hooks_def Let_def observation_of_def syms_def)
  moreover have "map_of (dict_of hook_key (hook_of_row syms) (rows1 @ rows2)) (hook_key r) =
      Some (hook_of_row syms r)"
    unfolding assms(4) using assms(5) by (rule map_of_dict_of_last)
  ultimately have "map_of (ob_entities o') (IdStr (hook_key r)) = Some (EHook (hook_of_row syms r))"
    using map_of_map_inj [of IdStr EHook "dict_of hook_key (hook_of_row syms) (rows1 @ rows2)"
        "hook_key r"] by simp
  then show ?thesis
    by (auto simp: hook_of_row_def hook_owner_def syms_def split: option.split)
qed

definition sample_hooks :: hook_source where
  "sample_hooks = \<lparr>hs_read_enabled_functions = Some (lit ''f (1) R ->cb+0x0'' @ [10]),
     hs_read_kprobes = None, hs_read_kallsyms_index = Some (lit ''0 t cb'' @ 9 # lit ''[evil]'' @ [10])\<rparr>"

theorem hook_attribution_witness:
  "\<exists>o' h. collect_hooks 0 sample_hooks = Inr o' \<and>
     map_of (ob_entities o') (IdStr (lit ''ftrace:f'')) = Some (EHook h) \<and>
     hk_owner_module h = Some (lit ''evil'')"
proof -
  let ?r = "\<lparr>hr_function = lit ''f'', hr_hook_type = lit ''ftrace'', hr_callback = Some (lit ''cb''),
     hr_owner_module = None\<rparr>"
  have rows: "parse_opt parse_enabled_functions (hs_read_enabled_functions sample_hooks) = Inr [?r]"
    "parse_opt parse_kprobes (hs_read_kprobes sample_hooks) = Inr []" by code_simp+
  then obtain o' where o': "collect_hooks 0 sample_hooks = Inr o'"
    by (auto simp: collect_hooks_def Let_def)
  have "[?r] @ [] = [] @ ?r # []" "hook_key ?r \<notin> hook_key ` set []" by simp_all
  from hook_attribution [OF o' rows this] obtain h where
    h: "map_of (ob_entities o') (IdStr (hook_key ?r)) = Some (EHook h)"
      "hk_owner_module h = map_of (reduce_kallsyms (lit ''0 t cb'' @ 9 # lit ''[evil]'' @ [10])) (lit ''cb'')"
    by (auto simp: sample_hooks_def)
  have "hook_key ?r = lit ''ftrace:f''" "map_of (reduce_kallsyms
      (lit ''0 t cb'' @ 9 # lit ''[evil]'' @ [10])) (lit ''cb'') = Some (lit ''evil'')"
    by code_simp+
  with h o' show ?thesis by metis
qed

text \<open>
  The socket view does not depend on the order in which the set of pids is walked, and names
  for every socket of the tables exactly the walked pids that hold it.
\<close>

theorem sockets_order_independent:
  assumes "\<forall>p \<in> set pids. \<exists>fds. so_list_fds src p = Inr fds" and "set pids' = set pids"
  shows "collect_sockets pids' ms src = collect_sockets pids ms src"
proof -
  obtain held where h: "held_sockets src pids = Inr held"
    "set held = {(str_int i, p) | i p. p \<in> set pids \<and> i \<in> fst ` set (projr (so_list_fds src p))}"
    using held_sockets_set [OF assms(1)] by blast
  obtain held' where h': "held_sockets src pids' = Inr held'"
    "set held' = {(str_int i, p) | i p. p \<in> set pids' \<and> i \<in> fst ` set (projr (so_list_fds src p))}"
    using held_sockets_set [of pids' src] assms by auto
  have "set held' = set held" using h h' assms(2) by simp
  then have "sorted_set (holders held' k) = sorted_set (holders held k)" for k
    by (intro sorted_set_eqI) (simp add: holders_def)
  then show ?thesis
    by (simp add: collect_sockets_def Let_def h h' owned_entities [OF refl] set_size_card assms(2))
qed

theorem sockets_order_independent_witness:
  "\<exists>src. so_list_fds src 7 = Inr [(5, [])] \<and> collect_sockets [8, 7] 0 src = collect_sockets [7, 8] 0 src"
proof -
  let ?src = "\<lparr>so_read_net_table = (\<lambda>_. None), so_list_fds = (\<lambda>_. Inr [(5, [])])\<rparr>"
  have "\<forall>p \<in> set [7, 8]. \<exists>fds. so_list_fds ?src p = Inr fds" "set [8, 7] = set [7, 8 :: int]" by auto
  from sockets_order_independent [OF this, of 0] show ?thesis by (intro exI [of _ ?src]) simp
qed

end
