(* ===== verification/Capture.thy ===== *)
theory Capture
  imports Collect_Procfs Collect_Kernel Verdicts
begin

text \<open>
  \<open>cli.cmd_capture\<close>: the seven observations of a capture, in its order, and what the analysis of
  such a snapshot says about the processes of the host. The process source is given twice, as the
  host answers the first and the second walk.
\<close>

section \<open>The capture\<close>

record host_sources =
  hx_procs_a :: proc_source
  hx_signals :: signal_source
  hx_procs_b :: proc_source
  hx_modules :: module_source
  hx_hooks :: hook_source
  hx_sockets :: socket_source

fun id_int :: "eid \<Rightarrow> int list" where
  "id_int (IdInt i) = [i]"
| "id_int (IdStr _) = []"

text \<open>
  \<open>set(observations[0].entity_ids) | set(observations[1].entity_ids)\<close>, in ascending order: the
  order does not matter to the collector. All clocks read \<open>ms\<close>.
\<close>

definition walked_pids :: "observation \<Rightarrow> observation \<Rightarrow> int list" where
  "walked_pids a b = sorted_set (concat (map id_int (ob_entity_ids a @ ob_entity_ids b)))"

definition capture_observations :: "int \<Rightarrow> host_sources \<Rightarrow> observation list result" where
  "capture_observations ms h =
     bindE (collect_procfs (Some (lit ''A'')) ms (hx_procs_a h)) (\<lambda>o1.
     bindE (collect_sweep ms ms (hx_signals h)) (\<lambda>o2.
     bindE (collect_procfs (Some (lit ''B'')) ms (hx_procs_b h)) (\<lambda>o3.
     bindE (collect_modules ms (hx_modules h)) (\<lambda>o4.
     bindE (collect_module_evidence ms (hx_modules h)) (\<lambda>o5.
     bindE (collect_hooks ms (hx_hooks h)) (\<lambda>o6.
     bindE (collect_sockets (walked_pids o1 o2) ms (hx_sockets h)) (\<lambda>o7.
     Inr [o1, o2, o3, o4, o5, o6, o7])))))))"

text \<open>The identifier, the time and the host facts are given; the version constants are the code's.\<close>

definition capture ::
  "pystr \<Rightarrow> pystr \<Rightarrow> host_facts \<Rightarrow> int \<Rightarrow> pystr \<Rightarrow> int \<Rightarrow> host_sources \<Rightarrow> snapshot result" where
  "capture snapshot_id captured_at host euid tool_version ms h =
     bindE (capture_observations ms h) (\<lambda>os.
     Inr \<lparr>sn_schema_version = schema_version_const, sn_snapshot_id = snapshot_id,
          sn_captured_at = captured_at, sn_host = host,
          sn_capture = \<lparr>cm_tool_version = tool_version, cm_euid = JInt euid\<rparr>, sn_observations = os\<rparr>)"

section \<open>What a capture holds\<close>

lemma procfs_collector: "collect_procfs label ms src = Inr o' \<Longrightarrow> ob_collector o' = lit ''procfs.processes''"
  by (auto simp: collect_procfs_def procfs_observation_def bindE_eq_Inr_iff
      split: sum.splits if_splits)

lemma collectors:
  "collect_sweep sms ms sg = Inr o' \<Longrightarrow> ob_collector o' = lit ''syscall_sweep.processes''"
  "collect_modules ms md = Inr o' \<Longrightarrow> ob_collector o' = lit ''procfs.modules''"
  "collect_module_evidence ms md = Inr o' \<Longrightarrow> ob_collector o' = lit ''kernel.module_evidence''"
  "collect_hooks ms hk = Inr o' \<Longrightarrow> ob_collector o' = lit ''kernel.hooks''"
  "collect_sockets pids ms sk = Inr o' \<Longrightarrow> ob_collector o' = lit ''procfs.sockets''"
  by (auto simp: collect_sweep_def collect_modules_def collect_module_evidence_def collect_hooks_def
      collect_sockets_def observation_of_def Let_def bindE_eq_Inr_iff)

lemma capture_observed:
  assumes "capture sid at host euid tv ms h = Inr s"
  obtains o1 o2 o3 o4 o5 o6 o7 where
    "collect_procfs (Some (lit ''A'')) ms (hx_procs_a h) = Inr o1"
    "collect_sweep ms ms (hx_signals h) = Inr o2"
    "collect_procfs (Some (lit ''B'')) ms (hx_procs_b h) = Inr o3"
    "collect_modules ms (hx_modules h) = Inr o4"
    "collect_module_evidence ms (hx_modules h) = Inr o5"
    "collect_hooks ms (hx_hooks h) = Inr o6"
    "collect_sockets (walked_pids o1 o2) ms (hx_sockets h) = Inr o7"
    "observations s ''procfs.processes'' = [o1, o3]"
    "observations s ''syscall_sweep.processes'' = [o2]"
    "observations s ''procfs.modules'' = [o4]"
    "observations s ''kernel.module_evidence'' = [o5]"
    "observations s ''kernel.hooks'' = [o6]"
    "observations s ''procfs.sockets'' = [o7]"
proof -
  from assms obtain os where os: "capture_observations ms h = Inr os" and s: "sn_observations s = os"
    by (auto simp: capture_def bindE_eq_Inr_iff)
  from os obtain o1 o2 o3 o4 o5 o6 o7 where
    c: "collect_procfs (Some (lit ''A'')) ms (hx_procs_a h) = Inr o1"
    "collect_sweep ms ms (hx_signals h) = Inr o2"
    "collect_procfs (Some (lit ''B'')) ms (hx_procs_b h) = Inr o3"
    "collect_modules ms (hx_modules h) = Inr o4"
    "collect_module_evidence ms (hx_modules h) = Inr o5"
    "collect_hooks ms (hx_hooks h) = Inr o6"
    "collect_sockets (walked_pids o1 o2) ms (hx_sockets h) = Inr o7"
    and os: "os = [o1, o2, o3, o4, o5, o6, o7]"
    by (auto simp: capture_observations_def bindE_eq_Inr_iff)
  note names = procfs_collector [OF c(1)] procfs_collector [OF c(3)] collectors(1) [OF c(2)]
    collectors(2) [OF c(4)] collectors(3) [OF c(5)] collectors(4) [OF c(6)] collectors(5) [OF c(7)]
  show ?thesis
    using c by (rule that) (simp_all add: observations_def s os names)
qed

text \<open>The walk of a process source that keeps its contract lists what did not vanish.\<close>

definition walk_lists :: "proc_source \<Rightarrow> int \<Rightarrow> bool" where
  "walk_lists src n \<longleftrightarrow> (\<exists>pids. ps_list_pids src = Inr pids \<and> n \<in> set pids \<and> \<not> vanished src n)"

lemma live_walk_ids:
  assumes "collect_procfs label ms (live_proc_source os) = Inr o'"
    and "\<And>pids. ps_list_pids (live_proc_source os) = Inr pids \<Longrightarrow> distinct pids"
  shows "IdInt n \<in> set (ob_entity_ids o') \<longleftrightarrow> walk_lists (live_proc_source os) n"
proof (cases "ps_list_pids (live_proc_source os)")
  case (Inl e)
  then show ?thesis using assms(1)
    by (auto simp: collect_procfs_def walk_lists_def procfs_observation_def split: if_splits)
next
  case (Inr pids)
  from live.collect_spec [OF Inr assms(2) [OF Inr], of label ms] assms(1)
  show ?thesis by (auto simp: walk_lists_def Inr procfs_observation_def)
qed

section \<open>The sweep in a capture\<close>

text \<open>Some task that answered the sweep belongs to thread group \<open>n\<close>, by its status.\<close>

definition sweep_sees :: "signal_source \<Rightarrow> int \<Rightarrow> bool" where
  "sweep_sees sg n \<longleftrightarrow>
     (\<exists>m task comm. ss_pid_max sg = Inr m \<and> task \<in> set (ss_sweep sg m) \<and>
        ss_read_status sg task = Some (n, comm))"

lemma swept_capture:
  assumes "collect_sweep sms ms sg = Inr o'"
  shows "swept o' (ob_entity_ids o') n \<longleftrightarrow> sweep_sees sg n"
proof -
  from assms obtain m where m: "ss_pid_max sg = Inr m"
    and ids: "set (ob_entity_ids o') = IdInt ` set (ss_sweep sg m)"
    and ents: "ob_entities o' = map (\<lambda>(i, e). (IdInt i, ESweep e))
       (dict_of (\<lambda>i. i) (sweep_entity_of sg) (ss_sweep sg m))"
    by (auto simp: collect_sweep_def Let_def bindE_eq_Inr_iff observation_of_def)
  have "entity_at o' (IdInt t) = Inr (ESweep (sweep_entity_of sg t))" if t: "t \<in> set (ss_sweep sg m)" for t
  proof -
    obtain b a where "ss_sweep sg m = b @ t # a" and "t \<notin> set a"
      using split_list_last [OF t] by blast
    then have "map_of (dict_of (\<lambda>i. i) (sweep_entity_of sg) (ss_sweep sg m)) t = Some (sweep_entity_of sg t)"
      using map_of_dict_of_last [of "\<lambda>i. i" t a] by simp
    then show ?thesis
      using map_of_map_inj [of IdInt ESweep "dict_of (\<lambda>i. i) (sweep_entity_of sg) (ss_sweep sg m)" t]
      by (simp add: entity_at_def ents)
  qed
  then have "swept o' (ob_entity_ids o') n \<longleftrightarrow> (\<exists>t \<in> set (ss_sweep sg m).
      sw_status_readable (sweep_entity_of sg t) \<and> sw_tgid (sweep_entity_of sg t) = n)"
    by (auto simp: swept_def list_ex_iff ids)
  also have "\<dots> \<longleftrightarrow> sweep_sees sg n"
    by (fastforce simp: sweep_sees_def m sweep_entity_of_def split: option.splits)
  finally show ?thesis .
qed

definition sweep_channels :: "pystr set" where
  "sweep_channels = {lit ''syscall_kill'', lit ''direct_status''}"

text \<open>One of the two channels of the sweep in a finding is enough to tell, and both are there.\<close>

lemma sweep_finding_channels:
  assumes "all_signals s baseline = Inr sigs" and "lit ''syscall_kill'' \<in> cs" and "cs \<subseteq> sweep_channels"
  shows "(\<exists>f \<in> set (score sigs). fi_kind f = HIDDEN_PROCESS \<and>
       fi_subject f = lit ''pid '' @ str_int n \<and>
       cs \<subseteq> set (fi_channels_agree f) \<and> C_MEDIUM \<le> fi_confidence f) \<longleftrightarrow>
     swept_hidden s n" (is "?L \<longleftrightarrow> _")
proof
  assume ?L
  then obtain f m where "fi_subject f = lit ''pid '' @ str_int n"
    "lit ''syscall_kill'' \<in> set (fi_channels_agree f)"
    "f = compose (process_suspect m) (members sigs (process_suspect m))"
    using process_finding_iff [OF assms(1)] assms(2) by blast
  then show "swept_hidden s n"
    by (auto simp: process_subject process_members [OF assms(1)] simp del: compose_sel split: if_splits)
next
  assume n: "swept_hidden s n"
  let ?f = "compose (process_suspect n) (members sigs (process_suspect n))"
  have "?f \<in> set (score sigs)" "fi_kind ?f = HIDDEN_PROCESS"
    using process_finding_iff [OF assms(1), of ?f] n by blast+
  moreover have "C_MEDIUM \<le> fi_confidence ?f"
    by (simp add: compose_confidence process_members [OF assms(1)] n confidence_of_def
        less_eq_confidence_def del: compose_sel)
  moreover have "sweep_channels \<subseteq> set (fi_channels_agree ?f)"
    by (auto simp: sweep_channels_def process_members [OF assms(1)] n simp del: compose_sel)
  ultimately show ?L
    using assms(3) by (intro bexI [of _ ?f]) (auto simp: process_subject simp del: compose_sel)
qed

lemma sweep_finding_iff:
  assumes "all_signals s baseline = Inr sigs"
  shows "(\<exists>f \<in> set (score sigs). fi_kind f = HIDDEN_PROCESS \<and>
       fi_subject f = lit ''pid '' @ str_int n \<and>
       lit ''syscall_kill'' \<in> set (fi_channels_agree f) \<and> C_MEDIUM \<le> fi_confidence f) \<longleftrightarrow>
     swept_hidden s n"
  using sweep_finding_channels [OF assms, of "{lit ''syscall_kill''}"] by (simp add: sweep_channels_def)

text \<open>What the sweep and the two walks of a capture amount to.\<close>

lemma capture_swept_hidden:
  assumes "capture sid at host euid tv ms h = Inr s"
    and "hx_procs_a h = live_proc_source a" and "hx_procs_b h = live_proc_source b"
    and "\<And>pids. ps_list_pids (live_proc_source a) = Inr pids \<Longrightarrow> distinct pids"
    and "\<And>pids. ps_list_pids (live_proc_source b) = Inr pids \<Longrightarrow> distinct pids"
  shows "swept_hidden s n \<longleftrightarrow>
     sweep_sees (hx_signals h) n \<and> \<not> walk_lists (hx_procs_a h) n \<and> \<not> walk_lists (hx_procs_b h) n"
proof -
  from assms(1) obtain o1 o2 o3 where o:
    "collect_procfs (Some (lit ''A'')) ms (hx_procs_a h) = Inr o1"
    "collect_sweep ms ms (hx_signals h) = Inr o2"
    "collect_procfs (Some (lit ''B'')) ms (hx_procs_b h) = Inr o3"
    "observations s ''procfs.processes'' = [o1, o3]"
    "observations s ''syscall_sweep.processes'' = [o2]"
    by (rule capture_observed)
  have a: "IdInt n \<in> set (ob_entity_ids o1) \<longleftrightarrow> walk_lists (hx_procs_a h) n"
    using o(1) assms(4) unfolding assms(2) by (rule live_walk_ids)
  have b: "IdInt n \<in> set (ob_entity_ids o3) \<longleftrightarrow> walk_lists (hx_procs_b h) n"
    using o(3) assms(5) unfolding assms(3) by (rule live_walk_ids)
  show ?thesis
    by (auto simp: swept_hidden_def procfs_listed_def o(4,5) a b swept_capture [OF o(2)])
qed

text \<open>
  C1: End to end, on a live host whose two listings name each pid once: the analysis of the capture
  reports process n as hidden, with both channels of the sweep and at least medium confidence,
  exactly when a task of n answered the sweep and told its thread group, while neither walk, before
  or after the sweep, listed n.
\<close>

theorem capture_sweep_verdict:
  assumes "capture sid at host euid tv ms h = Inr s" and "analyze s baseline = Inr fs"
    and "hx_procs_a h = live_proc_source a" and "hx_procs_b h = live_proc_source b"
    and "\<And>pids. ps_list_pids (live_proc_source a) = Inr pids \<Longrightarrow> distinct pids"
    and "\<And>pids. ps_list_pids (live_proc_source b) = Inr pids \<Longrightarrow> distinct pids"
  shows "(\<exists>f \<in> set fs. fi_kind f = HIDDEN_PROCESS \<and> fi_subject f = lit ''pid '' @ str_int n \<and>
       {lit ''syscall_kill'', lit ''direct_status''} \<subseteq> set (fi_channels_agree f) \<and>
       C_MEDIUM \<le> fi_confidence f) \<longleftrightarrow>
     sweep_sees (hx_signals h) n \<and> \<not> walk_lists (hx_procs_a h) n \<and> \<not> walk_lists (hx_procs_b h) n"
proof -
  from assms(2) obtain sigs where all: "all_signals s baseline = Inr sigs" and fs: "fs = score sigs"
    by (rule analyzeE)
  show ?thesis
    using sweep_finding_channels [OF all, of sweep_channels n] capture_swept_hidden [OF assms(1,3-6)]
    by (simp add: fs sweep_channels_def)
qed

definition rootkit_os :: os where
  "rootkit_os = sample_os\<lparr>os_kill := \<lambda>i. if i \<in> {1, 5} then None else Some (3, lit ''No such process''),
     os_read := \<lambda>path. if path = lit ''/proc/5/status''
        then Inr (unlines [lit ''Name: x'', lit ''Tgid: 5'', lit ''Uid: 0'', lit ''Gid: 0''])
        else if path = lit ''/proc/sys/kernel/pid_max'' then Inr (lit ''8'' @ [10])
        else os_read sample_os path\<rparr>"

definition rootkit_host :: host_sources where
  "rootkit_host =
     \<lparr>hx_procs_a = live_proc_source rootkit_os,
      hx_signals = live_signal_source rootkit_os,
      hx_procs_b = live_proc_source rootkit_os,
      hx_modules = fixture_module_source [], hx_hooks = fixture_hook_source [],
      hx_sockets = fixture_socket_source \<lparr>kx_tables = [], kx_fds = []\<rparr>\<rparr>"

lemma rootkit_captured:
  "\<exists>s sigs. capture [] [] sample_host 0 [] 0 rootkit_host = Inr s \<and> all_signals s None = Inr sigs"
proof -
  have "\<not> isl (bindE (capture [] [] sample_host 0 [] 0 rootkit_host) (\<lambda>s. all_signals s None))"
    by code_simp
  then obtain sigs where
    "bindE (capture [] [] sample_host 0 [] 0 rootkit_host) (\<lambda>s. all_signals s None) = Inr sigs"
    by (cases "bindE (capture [] [] sample_host 0 [] 0 rootkit_host) (\<lambda>s. all_signals s None)") auto
  then show ?thesis by (auto simp: bindE_eq_Inr_iff)
qed

theorem capture_sweep_verdict_witness:
  "\<exists>s fs. capture [] [] sample_host 0 [] 0 rootkit_host = Inr s \<and> analyze s None = Inr fs \<and>
     (\<exists>f \<in> set fs. fi_kind f = HIDDEN_PROCESS \<and> fi_subject f = lit ''pid '' @ str_int 5)"
proof -
  obtain s sigs where s: "capture [] [] sample_host 0 [] 0 rootkit_host = Inr s"
    and sigs: "all_signals s None = Inr sigs"
    using rootkit_captured by blast
  from sigs have fs: "analyze s None = Inr (score sigs)" by (simp add: analyze_def)
  have list: "ps_list_pids (live_proc_source rootkit_os) = Inr [1, 7]" by code_simp
  then have "distinct pids" if "ps_list_pids (live_proc_source rootkit_os) = Inr pids" for pids
    using that by auto
  moreover have src: "hx_procs_a rootkit_host = live_proc_source rootkit_os"
    "hx_procs_b rootkit_host = live_proc_source rootkit_os"
    by (simp_all add: rootkit_host_def)
  moreover have "ss_pid_max (hx_signals rootkit_host) = Inr 8"
    "5 \<in> set (ss_sweep (hx_signals rootkit_host) 8)"
    "ss_read_status (hx_signals rootkit_host) 5 = Some (5, Some (lit ''x''))"
    by code_simp+
  then have "sweep_sees (hx_signals rootkit_host) 5" unfolding sweep_sees_def by blast
  moreover have "\<not> walk_lists (live_proc_source rootkit_os) 5" by (simp add: walk_lists_def list)
  ultimately show ?thesis
    using capture_sweep_verdict [OF s fs src, of 5] s fs by auto
qed

end
