(* ===== verification/Cli.thy ===== *)
theory Cli
  imports Baseline Capture Report_Props Redact
begin

text \<open>
  \<open>cli.py\<close>: the five commands, from their parsed arguments to the exit code, the files and the
  two output streams; \<open>hostfacts.py\<close>; and the tool \<open>redact_snapshot\<close>. An exception that a command
  does not catch is its result.
\<close>

section \<open>Loading\<close>

definition parse_file :: "platform \<Rightarrow> pystr \<Rightarrow> json act" where
  "parse_file pf path = bindW (read_text pf path) (\<lambda>t. lift (loads t))"

text \<open>\<open>_load_snapshot\<close>: \<open>None\<close> after an error line.\<close>

definition load_snapshot :: "platform \<Rightarrow> pystr \<Rightarrow> (snapshot \<times> json) option act" where
  "load_snapshot pf path_str =
     (let path = path_text path_str;
          fail = (\<lambda>t. bindW (print_err (lit ''error: '' @ t)) (\<lambda>_. lift (Inr None))) in
      bindW (attempt (parse_file pf path)) (\<lambda>r.
      case r of
        Inl e \<Rightarrow>
          if is_os_error e then fail (lit ''cannot read '' @ path @ lit '': '' @ exc_text pf e)
          else if e = JSONDecodeError
          then fail (path @ lit '' is not valid JSON: '' @ exc_text pf e)
          else if e = UnicodeDecodeError
          then fail (path @ lit '' is not valid UTF-8: '' @ exc_text pf e)
          else lift (Inl e)
      | Inr raw \<Rightarrow>
          bindW (attempt (decode_snapshot raw)) (\<lambda>r.
          case r of
            Inl (IncompatibleSnapshot m) \<Rightarrow> fail m
          | Inl e \<Rightarrow> lift (Inl e)
          | Inr s \<Rightarrow> lift (Inr (Some (s, raw))))))"

text \<open>
  \<open>_load_verified_baseline\<close>: an option that is absent or empty gives no baseline. \<open>pem\<close> reads a
  public key, \<open>verify\<close> checks a signature.
\<close>

definition given :: "pystr option \<Rightarrow> bool" where
  "given a \<longleftrightarrow> a \<noteq> None \<and> a \<noteq> Some []"

definition load_verified_baseline ::
  "platform \<Rightarrow> (int list \<Rightarrow> 'pk option result) \<Rightarrow> ('pk \<Rightarrow> int list \<Rightarrow> int list \<Rightarrow> bool) \<Rightarrow>
   pystr option \<Rightarrow> pystr option \<Rightarrow> snapshot option act" where
  "load_verified_baseline pf pem verify baseline verify_key =
     (let fail = (\<lambda>t. bindW (print_err (lit ''error: '' @ t)) (\<lambda>_. lift (Inl BaselineLoadError))) in
      if \<not> given baseline then lift (Inr None)
      else if \<not> given verify_key then fail (lit ''--baseline requires --verify-key'')
      else
        bindW (attempt (bindW (load_public_key pf pem (path_text (the verify_key)))
                 (load_baseline pf verify (path_text (the baseline))))) (\<lambda>r.
        case r of
          Inl (BaselineTampered m) \<Rightarrow> fail (lit ''baseline verification failed: '' @ m)
        | Inl e \<Rightarrow> if is_os_error e \<or> is_value_error e then fail (exc_text pf e) else lift (Inl e)
        | Inr s \<Rightarrow> lift (Inr (Some s))))"

section \<open>analyze\<close>

definition spaces :: "nat \<Rightarrow> pystr" where
  "spaces n = replicate n 32"

text \<open>\<open>', '.join(owners)\<close>: every item must be a string.\<close>

fun str_item :: "json \<Rightarrow> pystr result" where
  "str_item (JStr s) = Inr s"
| "str_item _ = Inl TypeError"

text \<open>\<open>cli._note_lines\<close>\<close>

definition terminal_note :: "channel_note \<Rightarrow> pystr list result" where
  "terminal_note n =
     (let channel = printable (cn_channel n) in
      if cn_reason n = lit ''saturated'' then
        bindE (dict_items (detail_get n ''explained_by'' (JDict []))) (\<lambda>items.
        bindE (mapE (\<lambda>(b, owners). bindE (py_list owners) (\<lambda>os. bindE (mapE str_item os) (\<lambda>named.
                 Inr (spaces 11 @ lit ''bit '' @ printable b @ lit '': '' @ printable (commas named)))))
               (sort_key fst items)) (\<lambda>rest.
        Inr ((lit ''note:      '' @ channel @
              lit '' could not corroborate (saturated); every bit it reads is explained by a listed module'')
             # rest)))
      else if cn_reason n = lit ''uncorroborated'' then
        bindE (py_list (detail_get n ''channels_consulted'' (JList []))) (\<lambda>consulted.
        Inr [lit ''note:      '' @ channel @
               lit '' could not corroborate (uncorroborated); every listed module came back uncorroborated, so the channel is reporting on itself rather than on the modules'',
             spaces 11 @ lit ''listed modules: '' @
               printable (json_str (detail_get n ''listed'' (JStr (lit ''?'')))) @
               lit ''   channels consulted: '' @ printable (commas (map json_str consulted))])
      else
        Inr [lit ''note:      '' @ channel @ lit '' did not contribute (reason: '' @
               printable (cn_reason n) @ lit '')'',
             spaces 11 @ lit ''detail keys: '' @ detail_keys printable n])"

definition observation_lines :: "observation \<Rightarrow> pystr list" where
  "observation_lines o' =
     [lit ''  '' @ printable (ob_collector o') @ lit ''   trust='' @ trust_value (ob_trust_level o') @
        lit ''   status='' @ status_value (ob_status o') @ lit ''   '' @
        str_int (int (length (ob_entity_ids o'))) @ lit '' entities   '' @
        json_str (ob_duration_ms o') @ lit ''ms'',
      spaces 21 @ join (lit ''  '')
        (map (\<lambda>(k, v). printable (k @ lit ''='' @ json_str v)) (sort_key fst (ob_stats o')))]"

definition summary_lines :: "pystr \<Rightarrow> snapshot \<Rightarrow> pystr list" where
  "summary_lines path s =
     (let h = sn_host s in
     [lit ''snapshot:  '' @ printable path,
      lit ''schema:    '' @ printable (sn_schema_version s),
      lit ''host:      '' @ printable (hf_hostname h) @ lit ''  '' @ printable (hf_kernel_release h) @
        lit ''  '' @ printable (hf_arch h),
      lit ''captured:  '' @ printable (sn_captured_at s) @ lit ''   boot '' @
        printable (take 8 (hf_boot_id h)),
      lit ''euid:      '' @ json_str (cm_euid (sn_capture s)),
      [], lit ''collectors:'']
     @ concat (map observation_lines (sn_observations s)))"

definition terminal_finding :: "finding \<Rightarrow> pystr list" where
  "terminal_finding f =
     [lit ''  ['' @ confidence_value (fi_confidence f) @ lit '']   '' @ finding_kind_value (fi_kind f) @
        lit ''   '' @ printable (fi_subject f),
      lit ''           seen by: '' @ commas (fi_channels_agree f),
      lit ''           denied by: '' @ commas (fi_channels_dissent f)]"

definition exit_of :: "finding list \<Rightarrow> int" where
  "exit_of fs = (if fs = [] then 0 else 3)"

fun print_notes :: "channel_note list \<Rightarrow> unit act" where
  "print_notes [] = lift (Inr ())"
| "print_notes (n # ns) =
     bindW (lift (terminal_note n)) (\<lambda>ls. bindW (print_lines ls) (\<lambda>_. print_notes ns))"

text \<open>The end of \<open>analyze\<close>: what it prints of its conclusions, and the exit code.\<close>

definition present :: "bool \<Rightarrow> finding list \<Rightarrow> channel_note list \<Rightarrow> int act" where
  "present as_json fs ns =
     (if as_json then
        bindW (print_line (json_text (Some 0) (JList (map finding_to_dict fs)))) (\<lambda>_.
        lift (Inr (exit_of fs)))
      else
        bindW (print_line []) (\<lambda>_.
        bindW (print_notes ns) (\<lambda>_.
        if fs = [] then bindW (print_line (lit ''findings:  none'')) (\<lambda>_. lift (Inr 0))
        else bindW (print_lines (lit ''findings:'' # concat (map terminal_finding fs))) (\<lambda>_.
          lift (Inr 3)))))"

definition cmd_analyze ::
  "platform \<Rightarrow> (int list \<Rightarrow> 'pk option result) \<Rightarrow> ('pk \<Rightarrow> int list \<Rightarrow> int list \<Rightarrow> bool) \<Rightarrow>
   pystr \<Rightarrow> bool \<Rightarrow> pystr option \<Rightarrow> pystr option \<Rightarrow> int act" where
  "cmd_analyze pf pem verify snapshot_arg as_json baseline verify_key =
     bindW (load_snapshot pf snapshot_arg) (\<lambda>loaded.
     case loaded of
       None \<Rightarrow> lift (Inr 1)
     | Some (s, raw) \<Rightarrow>
         bindW (if as_json then lift (Inr ()) else print_lines (summary_lines (path_text snapshot_arg) s)) (\<lambda>_.
         bindW (attempt (load_verified_baseline pf pem verify baseline verify_key)) (\<lambda>r.
         case r of
           Inl e \<Rightarrow> lift (if e = BaselineLoadError then Inr 1 else Inl e)
         | Inr b \<Rightarrow>
             bindW (lift (analyze s b)) (\<lambda>fs.
             bindW (lift (channel_notes s)) (\<lambda>ns. present as_json fs ns)))))"

section \<open>report\<close>

definition end_line :: "pystr \<Rightarrow> pystr" where
  "end_line t = (if t \<noteq> [] \<and> last t = 10 then t else t @ [10])"

definition cmd_report ::
  "platform \<Rightarrow> (int list \<Rightarrow> 'pk option result) \<Rightarrow> ('pk \<Rightarrow> int list \<Rightarrow> int list \<Rightarrow> bool) \<Rightarrow>
   pystr \<Rightarrow> bool \<Rightarrow> pystr option \<Rightarrow> pystr option \<Rightarrow> pystr option \<Rightarrow> int act" where
  "cmd_report pf pem verify snapshot_arg as_json out baseline verify_key =
     bindW (load_snapshot pf snapshot_arg) (\<lambda>loaded.
     case loaded of
       None \<Rightarrow> lift (Inr 1)
     | Some (s, raw) \<Rightarrow>
         bindW (attempt (load_verified_baseline pf pem verify baseline verify_key)) (\<lambda>r.
         case r of
           Inl e \<Rightarrow> lift (if e = BaselineLoadError then Inr 1 else Inl e)
         | Inr b \<Rightarrow>
             bindW (lift (analyze s b)) (\<lambda>fs.
             bindW (lift (extract_iocs fs)) (\<lambda>iocs.
             bindW (lift (channel_notes s)) (\<lambda>ns.
             let name = (if given baseline then Some (path_name (the baseline)) else None) in
             bindW (if as_json then lift (Inr (render_json s fs iocs name ns))
                    else lift (render_markdown s fs iocs name ns)) (\<lambda>t.
             if given out then
               bindW (attempt (write_text pf (path_text (the out)) (end_line t))) (\<lambda>r.
               case r of
                 Inl e \<Rightarrow>
                   if is_os_error e
                   then bindW (print_err (lit ''error: cannot write '' @ the out @ lit '': '' @ exc_text pf e)) (\<lambda>_.
                     lift (Inr 1))
                   else lift (Inl e)
               | Inr _ \<Rightarrow> bindW (print_line (the out)) (\<lambda>_. lift (Inr (exit_of fs))))
             else bindW (print_out (end_line t)) (\<lambda>_. lift (Inr (exit_of fs)))))))))"

section \<open>redact and baseline\<close>

definition cmd_redact :: "platform \<Rightarrow> pystr \<Rightarrow> pystr \<Rightarrow> int act" where
  "cmd_redact pf infile outfile =
     bindW (load_snapshot pf infile) (\<lambda>loaded.
     case loaded of
       None \<Rightarrow> lift (Inr 1)
     | Some (s, raw) \<Rightarrow>
         bindW (bindW (lift (redact_snapshot raw)) decode_snapshot) (\<lambda>out.
         bindW (attempt (bindW (lift (snapshot_to_json True out)) (\<lambda>t.
                  write_text pf (path_text outfile) (t @ [10])))) (\<lambda>r.
         case r of
           Inl e \<Rightarrow>
             if is_os_error e
             then bindW (print_err (lit ''error: cannot write '' @ outfile @ lit '': '' @ exc_text pf e)) (\<lambda>_.
               lift (Inr 1))
             else lift (Inl e)
         | Inr _ \<Rightarrow> bindW (print_line outfile) (\<lambda>_. lift (Inr 0)))))"

text \<open>\<open>tools/redact_snapshot.py\<close> has the same steps and catches nothing.\<close>

definition tool_redact :: "platform \<Rightarrow> pystr list \<Rightarrow> int act" where
  "tool_redact pf argv =
     (case argv of
        [_, infile, outfile] \<Rightarrow>
          bindW (parse_file pf (path_text infile)) (\<lambda>raw.
          bindW (bindW (lift (redact_snapshot raw)) decode_snapshot) (\<lambda>s.
          bindW (lift (snapshot_to_json True s)) (\<lambda>t.
          bindW (write_text pf (path_text outfile) (t @ [10])) (\<lambda>_.
          bindW (print_line outfile) (\<lambda>_. lift (Inr 0))))))
      | _ \<Rightarrow> bindW (print_err (lit ''usage: redact_snapshot.py <in.json> <out.json>'')) (\<lambda>_. lift (Inr 2)))"

fun is_incompatible :: "py_error \<Rightarrow> bool" where
  "is_incompatible (IncompatibleSnapshot _) = True"
| "is_incompatible _ = False"

definition cmd_baseline ::
  "platform \<Rightarrow> (int list \<Rightarrow> 'sk option result) \<Rightarrow> ('sk \<Rightarrow> int list \<Rightarrow> int list) \<Rightarrow>
   pystr \<Rightarrow> pystr \<Rightarrow> pystr \<Rightarrow> int act" where
  "cmd_baseline pf pem sign snapshot_arg out sign_key =
     (let fail = (\<lambda>e. bindW (print_err (lit ''error: '' @ exc_text pf e)) (\<lambda>_. lift (Inr 1))) in
      bindW (attempt (bindW (parse_file pf (path_text snapshot_arg)) decode_snapshot)) (\<lambda>r.
      case r of
        Inl e \<Rightarrow>
          if is_os_error e \<or> e = JSONDecodeError \<or> is_incompatible e then fail e
          else lift (Inl e)
      | Inr s \<Rightarrow>
          bindW (attempt (bindW (load_private_key pf pem (path_text sign_key)) (\<lambda>key.
                   write_baseline pf sign s (path_text out) key))) (\<lambda>r.
          case r of
            Inl e \<Rightarrow> if is_os_error e \<or> is_value_error e then fail e else lift (Inl e)
          | Inr _ \<Rightarrow> bindW (print_lines [out, out @ lit ''.sig'']) (\<lambda>_. lift (Inr 0)))))"

section \<open>capture\<close>

record host_calls =
  hc_release :: pystr
  hc_machine :: pystr
  hc_hostname :: pystr
  hc_clk_tck :: int

definition stat_path :: pystr where
  "stat_path = lit ''/proc/stat''"

definition boot_id_path :: pystr where
  "boot_id_path = lit ''/proc/sys/kernel/random/boot_id''"

definition btime_of :: "pystr \<Rightarrow> int result" where
  "btime_of text =
     (case filter (\<lambda>l. startswith l (lit ''btime '')) (split_on 10 text) of
        [] \<Rightarrow> Inl (RuntimeError (lit ''no btime line in '' @ stat_path))
      | l # _ \<Rightarrow> (case split_ws l of _ # n # _ \<Rightarrow> py_int n | _ \<Rightarrow> Inl IndexError))"

definition gather :: "platform \<Rightarrow> host_calls \<Rightarrow> host_facts act" where
  "gather pf hc =
     bindW (read_text pf boot_id_path) (\<lambda>boot.
     bindW (bindW (read_text pf stat_path) (\<lambda>t. lift (btime_of t))) (\<lambda>btime.
     lift (Inr \<lparr>hf_hostname = hc_hostname hc, hf_kernel_release = hc_release hc,
       hf_arch = hc_machine hc, hf_boot_id = strip boot, hf_btime = btime,
       hf_clock_ticks_per_sec = hc_clk_tck hc\<rparr>)))"

text \<open>A UTC time; numbers are padded with zeros.\<close>

record datetime =
  dt_year :: int
  dt_month :: int
  dt_day :: int
  dt_hour :: int
  dt_minute :: int
  dt_second :: int
  dt_microsecond :: int

definition zpad :: "nat \<Rightarrow> int \<Rightarrow> pystr" where
  "zpad n i = replicate (n - length (str_int i)) 48 @ str_int i"

definition iso_millis :: "datetime \<Rightarrow> pystr" where
  "iso_millis t =
     str_int (dt_year t) @ lit ''-'' @ zpad 2 (dt_month t) @ lit ''-'' @ zpad 2 (dt_day t) @ lit ''T'' @
     zpad 2 (dt_hour t) @ lit '':'' @ zpad 2 (dt_minute t) @ lit '':'' @ zpad 2 (dt_second t) @
     lit ''.'' @ zpad 3 (dt_microsecond t div 1000) @ lit ''Z''"

definition stamp :: "datetime \<Rightarrow> pystr" where
  "stamp t =
     str_int (dt_year t) @ zpad 2 (dt_month t) @ zpad 2 (dt_day t) @ lit ''T'' @
     zpad 2 (dt_hour t) @ zpad 2 (dt_minute t) @ zpad 2 (dt_second t) @ lit ''Z''"

definition tool_version :: pystr where
  "tool_version = lit ''1.0.0''"

definition euid_warning :: "int \<Rightarrow> pystr" where
  "euid_warning euid =
     lit ''warning: running as euid '' @ str_int euid @
     lit '', not root. Kernel addresses in /proc/modules and /proc/kallsyms will read as zero, and some per-process reads will be denied. See docs/limitations.md L4.''"

definition capture_path :: "pystr option \<Rightarrow> datetime \<Rightarrow> host_facts \<Rightarrow> pystr" where
  "capture_path out now host =
     path_text (if given out then the out
       else lit ''captures/'' @ stamp now @ lit ''_'' @ hf_hostname host @ lit ''_'' @
         take 8 (hf_boot_id host) @ lit ''.json'')"

definition cmd_capture ::
  "platform \<Rightarrow> host_calls \<Rightarrow> int \<Rightarrow> datetime \<Rightarrow> pystr \<Rightarrow> int \<Rightarrow> host_sources \<Rightarrow>
   pystr option \<Rightarrow> bool \<Rightarrow> int act" where
  "cmd_capture pf hc euid now uuid ms sources out pretty =
     bindW (gather pf hc) (\<lambda>host.
     bindW (if euid \<noteq> 0 then print_err (euid_warning euid) else lift (Inr ())) (\<lambda>_.
     bindW (lift (capture uuid (iso_millis now) host euid tool_version ms sources)) (\<lambda>s.
     bindW (lift (snapshot_to_json pretty s)) (\<lambda>payload.
     if out = Some (lit ''-'') then bindW (print_line payload) (\<lambda>_. lift (Inr 0))
     else
       bindW (mkdir_parents pf (path_parent (capture_path out now host))) (\<lambda>_.
       bindW (write_text pf (capture_path out now host) (payload @ [10])) (\<lambda>_.
       bindW (print_line (capture_path out now host)) (\<lambda>_. lift (Inr 0))))))))"

end
