(* ===== verification/Cli_Props.thy ===== *)
theory Cli_Props
  imports Cli
begin

text \<open>
  The commands as a user sees them: exit codes, what appears on the terminal, and the files that
  one command leaves for the next.
\<close>

section \<open>Commands that only read\<close>

text \<open>The result of such an action depends on the files alone, and it leaves the files alone.\<close>

definition reads_only :: "'a act \<Rightarrow> bool" where
  "reads_only m \<longleftrightarrow>
     (\<forall>w w'. wd_files w = wd_files w' \<longrightarrow> fst (m w) = fst (m w')) \<and>
     (\<forall>w. wd_files (snd (m w)) = wd_files w)"

lemma reads_only_lift [simp]: "reads_only (lift r)"
  by (simp add: reads_only_def)

lemma reads_only_print [simp]: "reads_only (print_out t)" "reads_only (print_err t)"
    "reads_only (print_line t)" "reads_only (print_lines ls)"
  by (simp_all add: reads_only_def print_line_def print_lines_def)

lemma reads_onlyD:
  assumes "reads_only m" and "m w = (r, u)"
  shows "wd_files u = wd_files w" and "wd_files w = wd_files w' \<Longrightarrow> m w' = (r', u') \<Longrightarrow> r' = r"
  using assms unfolding reads_only_def by (metis fst_conv snd_conv)+

lemma reads_onlyI:
  assumes "\<And>w r u. m w = (r, u) \<Longrightarrow> wd_files u = wd_files w"
    and "\<And>w w' r r' u u'. m w = (r, u) \<Longrightarrow> m w' = (r', u') \<Longrightarrow> wd_files w = wd_files w' \<Longrightarrow> r = r'"
  shows "reads_only m"
  using assms unfolding reads_only_def by (metis prod.collapse)

lemma reads_only_bind:
  assumes m: "reads_only m" and f: "\<And>x. reads_only (f x)"
  shows "reads_only (bindW m f)"
proof (rule reads_onlyI)
  fix w r u
  assume r: "bindW m f w = (r, u)"
  obtain a v where a: "m w = (a, v)" by (cases "m w")
  then show "wd_files u = wd_files w"
    using r reads_onlyD(1) [OF m a] reads_onlyD(1) [OF f] by (cases a) auto
next
  fix w w' r r' u u'
  assume r: "bindW m f w = (r, u)" "bindW m f w' = (r', u')" and eq: "wd_files w = wd_files w'"
  obtain a v a' v' where a: "m w = (a, v)" "m w' = (a', v')" by (cases "m w"; cases "m w'")
  have "a' = a" by (rule reads_onlyD(2) [OF m a(1) eq a(2)])
  moreover have "wd_files v = wd_files v'"
    using reads_onlyD(1) [OF m a(1)] reads_onlyD(1) [OF m a(2)] eq by simp
  ultimately show "r = r'"
    using r a reads_onlyD(2) [OF f] by (cases a) auto
qed

lemma reads_only_attempt:
  assumes "reads_only m"
  shows "reads_only (attempt m)"
proof (rule reads_onlyI)
  fix w r u
  assume "attempt m w = (r, u)"
  then show "wd_files u = wd_files w"
    using reads_onlyD(1) [OF assms] by (cases "m w") auto
next
  fix w w' r r' u u'
  assume "attempt m w = (r, u)" "attempt m w' = (r', u')" "wd_files w = wd_files w'"
  then show "r = r'"
    using reads_onlyD(2) [OF assms, of w] by (cases "m w"; cases "m w'") auto
qed

lemma reads_only_if: "reads_only m \<Longrightarrow> reads_only m' \<Longrightarrow> reads_only (if b then m else m')"
  by simp

lemmas reads_only_intros = reads_only_bind reads_only_attempt reads_only_if

lemma reads_only_read_bytes [simp]: "reads_only (read_bytes pf p)"
  by (auto simp: reads_only_def read_bytes_def split: option.split)

lemma reads_only_read_text [simp]: "reads_only (read_text pf p)"
  by (simp add: read_text_def reads_only_bind)

lemma reads_only_parse_file [simp]: "reads_only (parse_file pf p)"
  by (simp add: parse_file_def reads_only_bind)

lemma reads_only_decode [simp]: "reads_only (decode_snapshot d)"
  unfolding decode_snapshot_def by (intro reads_only_bind reads_only_lift) (simp add: reads_only_def)

lemma reads_only_load_key [simp]: "reads_only (load_key k pf pem p)"
  by (simp add: load_key_def reads_only_bind)

lemma reads_only_load_baseline [simp]: "reads_only (load_baseline pf verify p key)"
  by (auto simp: load_baseline_def intro!: reads_only_intros split: sum.split)

lemma reads_only_load_snapshot [simp]: "reads_only (load_snapshot pf p)"
  by (auto simp: load_snapshot_def Let_def intro!: reads_only_intros
      split: sum.split py_error.split)

lemma reads_only_load_verified_baseline [simp]: "reads_only (load_verified_baseline pf pem verify b k)"
  by (auto simp: load_verified_baseline_def Let_def load_public_key_def intro!: reads_only_intros
      split: sum.split py_error.split)

section \<open>Loading what was stored\<close>

lemma plain_lines: "plain_text (replicate m 10)"
  by (simp add: plain_text_def list_all_iff)

lemma parse_stored:
  assumes "json_ok v" and "wd_files w (path_text p) = Some (json_text l v @ replicate m 10)"
    and "pf_read pf (path_text p) = None"
  shows "parse_file pf (path_text p) w = (Inr (json_sorted v), w)"
proof -
  have "plain_text (json_text l v @ replicate m 10)" by (simp add: plain_json_text plain_lines)
  note a = plain_ascii(1,2) [OF this]
  have "read_text pf (path_text p) w = (Inr (json_text l v @ replicate m 10), w)"
    using assms(2,3) by (simp add: read_text_def read_bytes_def utf8_plain(2) [OF a(1)]
        universal_newlines_id [OF a(2)])
  then show ?thesis by (simp add: parse_file_def loads_json_text [OF assms(1)])
qed

lemma load_stored:
  assumes ok: "snapshot_ok s" "snapshot_to_dict s = Inr d" "json_ok d"
    and t: "snapshot_to_json pretty s = Inr t"
    and stored: "wd_files w (path_text p) = Some (t @ replicate m 10)" "pf_read pf (path_text p) = None"
  shows "\<exists>w1. load_snapshot pf p w = (Inr (Some (snapshot_filed s, json_sorted d)), w1) \<and>
     wd_files w1 = wd_files w"
proof -
  have tt: "t = json_text (if pretty then Some 0 else None) d"
    using t ok(2) by (simp add: snapshot_to_json_def)
  have parse: "parse_file pf (path_text p) w = (Inr (json_sorted d), w)"
    using parse_stored [OF ok(3)] stored by (simp add: tt)
  obtain w1 where "decode_snapshot (json_sorted d) w = (Inr (snapshot_filed s), w1)"
    "wd_files w1 = wd_files w"
    using decode_snapshot_runs [OF snapshot_text(1) [OF ok(1,2)]] by blast
  with parse show ?thesis by (simp add: load_snapshot_def Let_def)
qed

text \<open>A machine that refuses nothing and holds the sample, as \<open>capture\<close> stores it.\<close>

definition calm :: platform where
  "calm = \<lparr>pf_read = (\<lambda>p. None), pf_write = (\<lambda>p. None), pf_mkdir = (\<lambda>p. None),
     pf_message = (\<lambda>e. [])\<rparr>"

definition holding :: "pystr \<Rightarrow> pystr \<Rightarrow> world" where
  "holding p t = \<lparr>wd_files = [path_text p \<mapsto> t @ [10]], wd_out = [], wd_err = []\<rparr>"

lemma infected_loads:
  "\<exists>t raw w1. snapshot_to_json True infected = Inr t \<and>
     load_snapshot calm p (holding p t) = (Inr (Some (snapshot_filed infected, raw)), w1)"
proof -
  obtain d where d: "snapshot_to_dict infected = Inr d" "json_ok d" using infected_text by blast
  obtain t where t: "snapshot_to_json True infected = Inr t"
    using snapshot_file_text [OF infected_ok d] by blast
  have "wd_files (holding p t) (path_text p) = Some (t @ replicate 1 10)" "pf_read calm (path_text p) = None"
    by (simp_all add: holding_def calm_def)
  from load_stored [OF infected_ok d t this] t show ?thesis by blast
qed

section \<open>Notes on the terminal\<close>

lemma str_items: "mapE (\<lambda>x. Inr x) ss = Inr ss"
  by simp

lemma taint_terminal_note:
  assumes "taint_notes s = Inr ns" and "n \<in> set ns"
  shows "\<not> isl (terminal_note n)"
proof -
  obtain r where n: "n = \<lparr>cn_channel = lit ''taint'', cn_reason = lit ''saturated'',
      cn_detail = ldict [(''explained_by'', explained_json r)]\<rparr>"
    using assms by (auto simp: taint_notes_def Let_def split: list.splits if_splits)
  let ?items = "dict_of (\<lambda>(b, v). str_int b) (\<lambda>(b, v). strs_json v) (tr_explained_by r)"
  let ?bit = "\<lambda>(b, owners). bindE (py_list owners) (\<lambda>os. bindE (mapE str_item os)
      (\<lambda>named. Inr (spaces 11 @ lit ''bit '' @ printable b @ lit '': '' @ printable (commas named))))"
  have "\<not> isl (?bit e)" if "e \<in> set (sort_key fst ?items)" for e
  proof -
    obtain b v where e: "e = (b, v)" by (cases e)
    with that have "(b, v) \<in> set ?items" by (metis set_sort)
    then obtain ss where "v = strs_json ss" using explained_owners by blast
    then show ?thesis by (simp add: e strs_json_def)
  qed
  then obtain rest where "mapE ?bit (sort_key fst ?items) = Inr rest"
    using mapE_not_isl [of "sort_key fst ?items" ?bit] by blast
  then show ?thesis by (auto simp: n terminal_note_def detail_get_def explained_json_def Let_def)
qed

lemma over_listed_terminal_note:
  assumes "over_listed_notes s = Inr ns" and "n \<in> set ns"
  shows "\<not> isl (terminal_note n)"
  using assms by (auto simp: over_listed_notes_def terminal_note_def detail_get_def strs_json_def
      Let_def split: option.splits if_splits)

lemma terminal_notes_ok:
  assumes "channel_notes s = Inr ns"
  shows "list_all (\<lambda>n. \<not> isl (terminal_note n)) ns"
  using assms taint_terminal_note over_listed_terminal_note
  by (auto simp: channel_notes_def list_all_iff)

text \<open>Every line is free of invisible characters, whatever the reason of the note.\<close>

lemma shown_spaces [simp]: "shown (spaces n)"
  by (simp add: spaces_def)

lemma terminal_note_shown:
  assumes "terminal_note n = Inr ls"
  shows "list_all shown ls"
proof -
  have w: "shown (lit ''note:      '')" "shown (lit ''bit '')" "shown (lit '': '')"
    "shown (lit '' could not corroborate (saturated); every bit it reads is explained by a listed module'')"
    "shown (lit '' could not corroborate (uncorroborated); every listed module came back uncorroborated, so the channel is reporting on itself rather than on the modules'')"
    "shown (lit ''listed modules: '')" "shown (lit ''   channels consulted: '')"
    "shown (lit '' did not contribute (reason: '')" "shown (lit '')'')" "shown (lit ''detail keys: '')"
    by (intro shown_lit; simp add: ascii_text_def)+
  let ?line = "\<lambda>b named. spaces 11 @ lit ''bit '' @ printable b @ lit '': '' @ printable (commas named)"
  have "list_all shown rest"
    if "mapE (\<lambda>(b, owners). bindE (py_list owners) (\<lambda>os. bindE (mapE str_item os)
        (\<lambda>named. Inr (?line b named)))) items = Inr rest" for items rest
  proof -
    have "shown l" if "(case e of (b, owners) \<Rightarrow> bindE (py_list owners) (\<lambda>os. bindE (mapE str_item os)
        (\<lambda>named. Inr (?line b named)))) = Inr l" for e l
      using that w by (cases e) auto
    with mapE_set [OF that] show ?thesis unfolding list_all_iff by blast
  qed
  with assms w show ?thesis
    by (auto simp: terminal_note_def Let_def detail_keys_shown split: if_splits)
qed

section \<open>The exit code\<close>

text \<open>What a loaded snapshot and baseline make of a run: an exception, or 3 with findings, else 0.\<close>

definition outcome :: "snapshot \<Rightarrow> snapshot option \<Rightarrow> int result" where
  "outcome s b =
     bindE (analyze s b) (\<lambda>fs. bindE (channel_notes s) (\<lambda>_. Inr (exit_of fs)))"

definition run_outcome ::
  "platform \<Rightarrow> (int list \<Rightarrow> 'pk option result) \<Rightarrow> ('pk \<Rightarrow> int list \<Rightarrow> int list \<Rightarrow> bool) \<Rightarrow>
   pystr \<Rightarrow> pystr option \<Rightarrow> pystr option \<Rightarrow> world \<Rightarrow> int result" where
  "run_outcome pf pem verify snapshot_arg baseline verify_key w =
     (case fst (load_snapshot pf snapshot_arg w) of
        Inl e \<Rightarrow> Inl e
      | Inr None \<Rightarrow> Inr 1
      | Inr (Some (s, _)) \<Rightarrow>
          (case fst (load_verified_baseline pf pem verify baseline verify_key w) of
             Inl e \<Rightarrow> if e = BaselineLoadError then Inr 1 else Inl e
           | Inr b \<Rightarrow> outcome s b))"

lemma print_notes_runs:
  "list_all (\<lambda>n. \<not> isl (terminal_note n)) ns \<Longrightarrow> \<exists>w'. print_notes ns w = (Inr (), w')"
proof (induction ns arbitrary: w)
  case (Cons n ns)
  then obtain ls where "terminal_note n = Inr ls" by (cases "terminal_note n") auto
  then show ?case using Cons by (simp add: print_lines_def)
qed simp

lemma present_exit:
  assumes "channel_notes s = Inr ns"
  shows "fst (present as_json fs ns w) = Inr (exit_of fs)"
proof -
  have "\<exists>w'. print_notes ns v = (Inr (), w')" for v
    using print_notes_runs [OF terminal_notes_ok [OF assms]] by blast
  then obtain w' where "print_notes ns (w\<lparr>wd_out := wd_out w @ [10]\<rparr>) = (Inr (), w')" by blast
  then show ?thesis
    by (simp add: present_def exit_of_def print_line_def print_lines_def)
qed

text \<open>The baseline as seen after the summary has been printed.\<close>

lemma same_baseline:
  assumes "wd_files w1 = wd_files w"
  shows "fst (load_verified_baseline pf pem verify b k w1) =
     fst (load_verified_baseline pf pem verify b k w)"
  using assms reads_only_load_verified_baseline [of pf pem verify b k] unfolding reads_only_def by blast

lemma analyze_outcome:
  "fst (cmd_analyze pf pem verify p as_json b k w) = run_outcome pf pem verify p b k w"
proof -
  obtain r w1 where l: "load_snapshot pf p w = (r, w1)" by (cases "load_snapshot pf p w")
  show ?thesis
  proof (cases r)
    case (Inr loaded)
    show ?thesis
    proof (cases loaded)
      case (Some sr)
      obtain s raw where sr: "sr = (s, raw)" by (cases sr)
      let ?pre = "if as_json then lift (Inr ()) else print_lines (summary_lines (path_text p) s)"
      have pre: "\<exists>w2. ?pre w1 = (Inr (), w2) \<and> wd_files w2 = wd_files w"
        using reads_onlyD(1) [OF reads_only_load_snapshot l] by (simp add: print_lines_def)
      then obtain w2 where w2: "?pre w1 = (Inr (), w2)" "wd_files w2 = wd_files w" by blast
      obtain rb w3 where rb: "load_verified_baseline pf pem verify b k w2 = (rb, w3)"
        by (cases "load_verified_baseline pf pem verify b k w2")
      have fb: "fst (load_verified_baseline pf pem verify b k w) = rb"
        using same_baseline [OF w2(2)] rb by (metis fst_conv)
      show ?thesis
      proof (cases rb)
        case (Inl e)
        then show ?thesis
          using l Inr Some sr w2 rb fb by (simp add: cmd_analyze_def run_outcome_def del: bindW_def)
      next
        case rb': (Inr base)
        have "fst (bindW (lift (analyze s base)) (\<lambda>fs. bindW (lift (channel_notes s))
            (\<lambda>ns. present as_json fs ns)) w3) = outcome s base"
          using present_exit by (simp add: outcome_def bindE_def split: sum.split)
        with rb' show ?thesis
          using l Inr Some sr w2 rb fb by (simp add: cmd_analyze_def run_outcome_def)
      qed
    qed (use l Inr in \<open>simp add: cmd_analyze_def run_outcome_def\<close>)
  qed (use l in \<open>simp add: cmd_analyze_def run_outcome_def\<close>)
qed

text \<open>The reports never fail on what an analysis hands them.\<close>

lemma report_renders:
  assumes "analyze s b = Inr fs" and "channel_notes s = Inr ns"
  shows "\<exists>iocs. extract_iocs fs = Inr iocs \<and> (\<forall>name. \<exists>t. render_markdown s fs iocs name ns = Inr t)"
proof -
  obtain sigs where sigs: "all_signals s b = Inr sigs" "fs = score sigs"
    using assms(1) by (auto simp: analyze_def)
  then obtain iocs where iocs: "extract_iocs fs = Inr iocs" using ioc_keys [OF sigs(1)] by auto
  obtain nls where "mapE note_lines ns = Inr nls" using channel_notes_lines [OF assms(2)] by blast
  note total = report_lines_total [OF assms(1) this, of iocs]
  have "\<exists>t. render_markdown s fs iocs name ns = Inr t" for name
    using total [of name] by (elim exE conjE) (simp only: render_markdown_def bindE_Inr, blast)
  with iocs show ?thesis by blast
qed

lemma report_outcome:
  "fst (cmd_report pf pem verify p as_json None b k w) = run_outcome pf pem verify p b k w"
proof -
  obtain r w1 where l: "load_snapshot pf p w = (r, w1)" by (cases "load_snapshot pf p w")
  show ?thesis
  proof (cases r)
    case (Inr loaded)
    show ?thesis
    proof (cases loaded)
      case (Some sr)
      obtain s raw where sr: "sr = (s, raw)" by (cases sr)
      obtain rb w3 where rb: "load_verified_baseline pf pem verify b k w1 = (rb, w3)"
        by (cases "load_verified_baseline pf pem verify b k w1")
      have "wd_files w1 = wd_files w" by (rule reads_onlyD(1) [OF reads_only_load_snapshot l])
      then have fb: "fst (load_verified_baseline pf pem verify b k w) = rb"
        using same_baseline rb by (metis fst_conv)
      show ?thesis
      proof (cases rb)
        case (Inl e)
        then show ?thesis
          using l Inr Some sr rb fb by (simp add: cmd_report_def run_outcome_def)
      next
        case rb': (Inr base)
        show ?thesis
        proof (cases "\<exists>fs ns. analyze s base = Inr fs \<and> channel_notes s = Inr ns")
          case True
          then obtain fs ns iocs where a: "analyze s base = Inr fs" "channel_notes s = Inr ns"
            "extract_iocs fs = Inr iocs" and t: "\<And>name. \<exists>t. render_markdown s fs iocs name ns = Inr t"
            using report_renders by blast
          obtain t where "render_markdown s fs iocs (if given b then Some (path_name (the b)) else None) ns = Inr t"
            using t by blast
          with a rb' l Inr Some sr rb fb show ?thesis
            by (simp add: cmd_report_def run_outcome_def outcome_def given_def Let_def)
        next
          case False
          have "analyze s base = Inr fs \<Longrightarrow> \<exists>iocs. extract_iocs fs = Inr iocs" for fs
            using ioc_keys by (fastforce simp: analyze_def)
          with False rb' l Inr Some sr rb fb show ?thesis
            by (cases "analyze s base"; cases "channel_notes s")
              (fastforce simp: cmd_report_def run_outcome_def outcome_def)+
        qed
      qed
    qed (use l Inr in \<open>simp add: cmd_report_def run_outcome_def\<close>)
  qed (use l in \<open>simp add: cmd_report_def run_outcome_def\<close>)
qed


lemma infected_outcome:
  "\<exists>t raw. snapshot_to_json True infected = Inr t \<and>
     fst (load_snapshot calm p (holding p t)) = Inr (Some (snapshot_filed infected, raw)) \<and>
     run_outcome calm pem verify p None k (holding p t) = Inr 3"
proof -
  let ?s = "snapshot_filed infected"
  have "\<not> isl (all_signals ?s None) \<and> projr (all_signals ?s None) \<noteq> []" by code_simp
  moreover have "\<not> isl (channel_notes ?s)" by code_simp
  ultimately have "outcome ?s None = Inr 3"
    by (auto simp: outcome_def analyze_def not_isl_iff exit_of_def score_Nil_iff)
  moreover obtain t raw w1 where "snapshot_to_json True infected = Inr t"
    "load_snapshot calm p (holding p t) = (Inr (Some (?s, raw)), w1)"
    using infected_loads by blast
  ultimately show ?thesis
    by (simp add: run_outcome_def load_verified_baseline_def given_def Let_def)
qed


section \<open>Files of another format version\<close>

text \<open>
  The minor number of a document this build reads: the text of its version value, by Python's
  \<open>str\<close>, is two numbers with a dot between them, the first of them 1.
\<close>

definition readable_minor :: "(pystr \<times> json) list \<Rightarrow> int option" where
  "readable_minor kvs =
     (case map_of kvs (lit ''schema_version'') of
        None \<Rightarrow> None
      | Some raw \<Rightarrow>
          (case parse_version (json_str raw) of
             Inr (major, minor) \<Rightarrow> if raw \<noteq> JNull \<and> major = 1 then Some minor else None
           | Inl _ \<Rightarrow> None))"

lemma version_refused:
  assumes "readable_minor kvs = None"
  shows "\<exists>m. check_schema_version (JDict kvs) = Inl (IncompatibleSnapshot m)"
  using assms by (auto simp: readable_minor_def check_schema_version_def version_of_def
      split: option.splits sum.splits prod.splits if_splits)

lemma version_accepted:
  assumes "readable_minor kvs = Some minor"
  shows "\<exists>ls. check_schema_version (JDict kvs) = Inr ls \<and> length ls = (if minor \<le> 1 then 0 else 1)"
  using assms by (auto simp: readable_minor_def check_schema_version_def version_of_def Let_def
      split: option.splits sum.splits prod.splits if_splits)

text \<open>
  C28: No command accepts a file of an incompatible format. Whatever else a JSON object in a file
  holds, when its version is missing, is no version or has another major number, then \<open>analyze\<close>,
  \<open>report\<close>, \<open>redact\<close> and \<open>baseline\<close> all do exactly the same: they exit with 1 after one error line, and
  print, write and change nothing else; also with a baseline, an output file or a key on the command
  line. When the version is readable the gate lets the object through, without a warning up to
  version 1.1 and with exactly one above it.
\<close>

theorem schema_gate:
  assumes "parse_file pf (path_text p) w = (Inr (JDict kvs), w)"
  shows "case readable_minor kvs of
     None \<Rightarrow> \<exists>m. let refused = (Inr 1, w\<lparr>wd_err := wd_err w @ lit ''error: '' @ m @ [10]\<rparr>) in
       cmd_analyze pf pem verify p as_json b k w = refused \<and>
       cmd_report pf pem verify p as_json out b k w = refused \<and>
       cmd_redact pf p outfile w = refused \<and>
       cmd_baseline pf pem' sign p outfile sign_key w = refused
   | Some minor \<Rightarrow>
       \<exists>ls. check_schema_version (JDict kvs) = Inr ls \<and> length ls = (if minor \<le> 1 then 0 else 1)"
proof (cases "readable_minor kvs")
  case None
  then obtain m where m: "check_schema_version (JDict kvs) = Inl (IncompatibleSnapshot m)"
    using version_refused by blast
  let ?w = "w\<lparr>wd_err := wd_err w @ lit ''error: '' @ m @ [10]\<rparr>"
  have "decode_snapshot (JDict kvs) w = (Inl (IncompatibleSnapshot m), w)"
    by (simp add: decode_snapshot_def m)
  then have l: "load_snapshot pf p w = (Inr None, ?w)"
    and b: "cmd_baseline pf pem' sign p outfile sign_key w = (Inr 1, ?w)"
    using assms by (simp_all add: load_snapshot_def cmd_baseline_def Let_def exc_text_def)
  have "cmd_analyze pf pem verify p as_json b k w = (Inr 1, ?w)"
    "cmd_report pf pem verify p as_json out b k w = (Inr 1, ?w)" "cmd_redact pf p outfile w = (Inr 1, ?w)"
    by (simp_all add: cmd_analyze_def cmd_report_def cmd_redact_def l)
  with b None show ?thesis by (auto simp: Let_def)
next
  case (Some minor)
  then show ?thesis using version_accepted by simp
qed

theorem schema_gate_witness:
  "\<exists>m. cmd_redact calm (lit ''/a.json'') (lit ''/b.json'')
       (holding (lit ''/a.json'') (json_text None (JDict [(lit ''schema_version'', JStr (lit ''2.0''))]))) =
     (Inr 1, holding (lit ''/a.json'') (json_text None (JDict [(lit ''schema_version'', JStr (lit ''2.0''))]))
        \<lparr>wd_err := lit ''error: '' @ m @ [10]\<rparr>)"
proof -
  let ?kvs = "[(lit ''schema_version'', JStr (lit ''2.0''))]"
  let ?w = "holding (lit ''/a.json'') (json_text None (JDict ?kvs))"
  have "json_ok (JDict ?kvs)" by (rule json_small_ok) code_simp
  then have "parse_file calm (path_text (lit ''/a.json'')) ?w = (Inr (json_sorted (JDict ?kvs)), ?w)"
    by (rule parse_stored [where m = 1]) (simp_all add: holding_def calm_def)
  then have p: "parse_file calm (path_text (lit ''/a.json'')) ?w = (Inr (JDict ?kvs), ?w)"
    by (simp add: json_sorted.simps(2))
  have r: "readable_minor ?kvs = None" by code_simp
  from schema_gate [OF p, of "\<lambda>b. Inr (Some ())" "\<lambda>k sig m. True" False None None None
      "lit ''/b.json''" "\<lambda>b. Inr (Some ())" "\<lambda>k m. m" "[]"]
  show ?thesis by (auto simp: r Let_def holding_def)
qed

section \<open>What reaches the terminal\<close>

definition as_lines :: "pystr list \<Rightarrow> pystr" where
  "as_lines ls = concat (map (\<lambda>l. l @ [10]) ls)"

text \<open>The action adds whole lines of visible characters to the standard output.\<close>

definition prints_shown :: "'a act \<Rightarrow> bool" where
  "prints_shown m \<longleftrightarrow>
     (\<forall>w. \<exists>ls. wd_out (snd (m w)) = wd_out w @ as_lines ls \<and> list_all shown ls)"

lemma as_lines_append: "as_lines (ls @ ms) = as_lines ls @ as_lines ms"
  by (simp add: as_lines_def)

lemma prints_silent: "(\<And>w. wd_out (snd (m w)) = wd_out w) \<Longrightarrow> prints_shown m"
  unfolding prints_shown_def by (auto simp: as_lines_def intro!: exI [of _ "[]"])

lemma prints_simple [simp]: "prints_shown (lift r)" "prints_shown (print_err t)"
    "prints_shown (read_bytes pf p)"
  by (rule prints_silent, simp add: read_bytes_def split: option.split)+

lemma prints_lines: "list_all shown ls \<Longrightarrow> prints_shown (print_lines ls)"
  by (auto simp: prints_shown_def print_lines_def as_lines_def)

lemma prints_line: "shown t \<Longrightarrow> prints_shown (print_line t)"
  using prints_lines [of "[t]"] by (simp add: print_lines_def print_line_def)

lemma prints_bind_at:
  assumes m: "prints_shown m" and f: "\<And>x. fst (m w) = Inr x \<Longrightarrow> prints_shown (f x)"
  shows "\<exists>ls. wd_out (snd (bindW m f w)) = wd_out w @ as_lines ls \<and> list_all shown ls"
proof -
  obtain r v where r: "m w = (r, v)" by (cases "m w")
  obtain ls where ls: "wd_out v = wd_out w @ as_lines ls" "list_all shown ls"
    using m r unfolding prints_shown_def by (metis snd_conv)
  show ?thesis
  proof (cases r)
    case (Inl e)
    with r ls show ?thesis by auto
  next
    case (Inr x)
    then obtain ms where "wd_out (snd (f x v)) = wd_out v @ as_lines ms" "list_all shown ms"
      using f [of x] r unfolding prints_shown_def by auto
    with r Inr ls have "wd_out (snd (bindW m f w)) = wd_out w @ as_lines (ls @ ms)"
      "list_all shown (ls @ ms)" by (simp_all add: as_lines_append)
    then show ?thesis by blast
  qed
qed

lemma prints_bind:
  assumes "prints_shown m" and "\<And>w x w'. m w = (Inr x, w') \<Longrightarrow> prints_shown (f x)"
  shows "prints_shown (bindW m f)"
  unfolding prints_shown_def
proof (rule allI, rule prints_bind_at [OF assms(1)])
  show "prints_shown (f x)" if "fst (m w) = Inr x" for w x
    using assms(2) [of w x] that by (cases "m w") simp
qed

lemma prints_attempt: "prints_shown m \<Longrightarrow> prints_shown (attempt m)"
  by (auto simp: prints_shown_def split: prod.split) (metis snd_conv)

lemma prints_if: "(b \<Longrightarrow> prints_shown m) \<Longrightarrow> (\<not> b \<Longrightarrow> prints_shown m') \<Longrightarrow>
    prints_shown (if b then m else m')"
  by simp

lemmas prints_intros = prints_bind prints_attempt prints_if

lemma prints_loading [simp]:
  "prints_shown (decode_snapshot d)" "prints_shown (parse_file pf p)" "prints_shown (load_key k pf pem p)"
proof -
  show "prints_shown (decode_snapshot d)"
    unfolding decode_snapshot_def by (intro prints_bind prints_simple) (simp add: prints_silent)
  show "prints_shown (parse_file pf p)" "prints_shown (load_key k pf pem p)"
    by (simp_all add: parse_file_def read_text_def load_key_def prints_bind)
qed

lemma prints_load_baseline [simp]: "prints_shown (load_baseline pf verify p key)"
  by (auto simp: load_baseline_def intro!: prints_intros split: sum.split)

lemma prints_load_snapshot [simp]: "prints_shown (load_snapshot pf p)"
  by (auto simp: load_snapshot_def Let_def intro!: prints_intros split: sum.split py_error.split)

lemma prints_load_verified [simp]: "prints_shown (load_verified_baseline pf pem verify b k)"
  by (auto simp: load_verified_baseline_def Let_def load_public_key_def intro!: prints_intros
      split: sum.split py_error.split)

text \<open>The two kinds of values that \<open>analyze\<close> prints as they are.\<close>

definition raw_shown :: "snapshot \<Rightarrow> bool" where
  "raw_shown s \<longleftrightarrow> shown (json_str (cm_euid (sn_capture s))) \<and>
     list_all (\<lambda>o'. shown (json_str (ob_duration_ms o'))) (sn_observations s)"

lemma summary_shown:
  assumes "raw_shown s"
  shows "list_all shown (summary_lines p s)"
proof -
  have w: "shown (lit ''snapshot:  '')" "shown (lit ''schema:    '')" "shown (lit ''host:      '')"
    "shown (lit ''  '')" "shown (lit ''captured:  '')" "shown (lit ''   boot '')"
    "shown (lit ''euid:      '')" "shown (lit ''collectors:'')" "shown (lit ''   trust='')"
    "shown (lit ''   status='')" "shown (lit ''   '')" "shown (lit '' entities   '')" "shown (lit ''ms'')"
    "shown (trust_value tl)" "shown (status_value st)" for tl st
    by (cases tl; cases st; simp add: shown_lit ascii_text_def)+
  have "list_all shown (observation_lines o')" if "shown (json_str (ob_duration_ms o'))" for o'
    using w that by (auto simp: observation_lines_def list_all_iff intro!: shown_join)
  then have "list_all shown (concat (map observation_lines (sn_observations s)))"
    using assms by (auto simp: raw_shown_def list_all_iff)
  then show ?thesis
    using w assms by (simp add: summary_lines_def Let_def raw_shown_def)
qed

lemma terminal_finding_shown:
  assumes "reportable f"
  shows "list_all shown (terminal_finding f)"
proof -
  have "shown (lit ''  ['')" "shown (lit '']   '')" "shown (lit ''   '')"
    "shown (lit ''           seen by: '')" "shown (lit ''           denied by: '')"
    by (intro shown_lit; simp add: ascii_text_def)+
  with assms show ?thesis by (simp add: terminal_finding_def reportable_def)
qed

lemma prints_notes: "prints_shown (print_notes ns)"
proof (induction ns)
  case (Cons n ns)
  show ?case
    unfolding print_notes.simps
    by (intro prints_bind prints_simple prints_lines Cons.IH) (auto dest: terminal_note_shown)
qed (unfold print_notes.simps, rule prints_simple)

text \<open>ASCII text is made of visible lines.\<close>

lemma plain_as_lines: "\<exists>ls. t @ [10] = as_lines ls \<and> list_all shown ls" if "plain_text t" for t
  using that
proof (induction t)
  case Nil
  have "[] @ [10] = as_lines [[]]" by (simp add: as_lines_def)
  then show ?case by (intro exI [of _ "[[]]"]) simp
next
  case (Cons c t)
  then obtain ls where ls: "t @ [10] = as_lines ls" "list_all shown ls" by auto
  then obtain l ks where l: "ls = l # ks" by (cases ls) (simp_all add: as_lines_def)
  show ?case
  proof (cases "c = 10")
    case True
    then show ?thesis using ls by (intro exI [of _ "[] # ls"]) (simp add: as_lines_def)
  next
    case False
    with Cons.prems have "\<not> is_invisible c" by (simp add: ascii_visible)
    then show ?thesis using ls by (intro exI [of _ "(c # l) # ks"]) (simp add: as_lines_def l)
  qed
qed

lemma prints_present:
  assumes "list_all reportable fs"
  shows "prints_shown (present as_json fs ns)"
proof -
  have j: "prints_shown (print_line (json_text l v))" for l v
    using plain_as_lines [OF plain_json_text [of l v]]
    by (auto simp: prints_shown_def print_line_def)
  have f: "list_all shown (lit ''findings:'' # concat (map terminal_finding fs))"
    using assms terminal_finding_shown by (fastforce simp: list_all_iff shown_lit ascii_text_def)
  have n: "shown (lit ''findings:  none'')" "shown []"
    by (simp_all add: shown_lit ascii_text_def)
  show ?thesis
    unfolding present_def
    by (intro prints_if prints_bind prints_simple prints_notes j prints_lines [OF f] prints_line [OF n(1)]
        prints_line [OF n(2)])
qed



text \<open>Without that condition the terminal is open: a text in the place of these numbers comes through.\<close>

lemma raw_values_printed:
  "cm_euid (sn_capture s) = JStr t \<Longrightarrow> lit ''euid:      '' @ t \<in> set (summary_lines path s)"
  "o' \<in> set (sn_observations s) \<Longrightarrow> ob_duration_ms o' = JStr t \<Longrightarrow>
     \<exists>l \<in> set (summary_lines path s). sublist t l"
proof -
  show "cm_euid (sn_capture s) = JStr t \<Longrightarrow> lit ''euid:      '' @ t \<in> set (summary_lines path s)"
    by (simp add: summary_lines_def json_str_def Let_def)
  assume o: "o' \<in> set (sn_observations s)" "ob_duration_ms o' = JStr t"
  let ?l = "hd (observation_lines o')"
  have "sublist t ?l"
    using o(2) by (simp add: observation_lines_def json_str_def sublist_append)
  moreover have "?l \<in> set (summary_lines path s)"
    using o(1) by (force simp: summary_lines_def observation_lines_def Let_def)
  ultimately show "\<exists>l \<in> set (summary_lines path s). sublist t l" by blast
qed

end
