(* ===== verification/Cli_Args.thy ===== *)
theory Cli_Args
  imports Py_Str Py_Num
begin

text \<open>
  The command line of \<open>cli.main\<close>: the six argument parsers that it builds, and what
  \<open>argparse.ArgumentParser.parse_args\<close> of the standard library makes of the words of the command
  line. The algorithm is that of CPython 3.11 and 3.12, restricted to the kinds of arguments that
  occur here and in \<open>step0_phase2.py\<close>: options that take one value, a string or a number, flags, the
  option for help, positional arguments of one word, and the subcommands.
\<close>

section \<open>Arguments and parsers\<close>

text \<open>
  A value in the namespace. \<open>NoWords\<close> is the empty list, which argparse stores for a positional
  argument whose only word is \<open>--\<close>, because it removes one such word from the words it matched.
\<close>

datatype arg_value = NoValue | Truth bool | Text pystr | Number int | NoWords

datatype arg_action = Store | StoreTrue | ShowHelp

record argument =
  ar_strings :: "pystr list"
  ar_dest :: pystr
  ar_action :: arg_action
  ar_int :: bool
  ar_required :: bool
  ar_choices :: "pystr list option"
  ar_default :: arg_value

text \<open>The name of the attribute of an option: without leading dashes, the others as underscores.\<close>

definition dest_of :: "pystr \<Rightarrow> pystr" where
  "dest_of s = map (\<lambda>c. if c = 45 then 95 else c) (dropWhile (\<lambda>c. c = 45) s)"

definition positional :: "string \<Rightarrow> argument" where
  "positional s =
     \<lparr>ar_strings = [], ar_dest = lit s, ar_action = Store, ar_int = False, ar_required = True, ar_choices = None,
      ar_default = NoValue\<rparr>"

definition value_option :: "string \<Rightarrow> argument" where
  "value_option s =
     \<lparr>ar_strings = [lit s], ar_dest = dest_of (lit s), ar_action = Store, ar_int = False, ar_required = False,
      ar_choices = None, ar_default = NoValue\<rparr>"

definition flag_option :: "string \<Rightarrow> argument" where
  "flag_option s =
     \<lparr>ar_strings = [lit s], ar_dest = dest_of (lit s), ar_action = StoreTrue, ar_int = False,
      ar_required = False, ar_choices = None, ar_default = Truth False\<rparr>"

text \<open>The option for help, which every parser starts with.\<close>

definition help_option :: argument where
  "help_option =
     \<lparr>ar_strings = [lit ''-h'', lit ''--help''], ar_dest = lit ''help'', ar_action = ShowHelp,
      ar_int = False, ar_required = False, ar_choices = None, ar_default = NoValue\<rparr>"

definition prog_name :: pystr where
  "prog_name = lit ''kdetect''"

text \<open>The subcommands in the order of the source.\<close>

definition capture_args :: "argument list" where
  "capture_args = [help_option, value_option ''--out'', flag_option ''--pretty'']"

definition analyze_args :: "argument list" where
  "analyze_args =
     [help_option, positional ''snapshot'', flag_option ''--json'', value_option ''--baseline'',
      value_option ''--verify-key'']"

definition baseline_args :: "argument list" where
  "baseline_args =
     [help_option, positional ''snapshot'', (value_option ''--out'')\<lparr>ar_required := True\<rparr>,
      (value_option ''--sign-key'')\<lparr>ar_required := True\<rparr>]"

definition report_args :: "argument list" where
  "report_args =
     [help_option, positional ''snapshot'',
      (value_option ''--format'')\<lparr>ar_choices := Some [lit ''md'', lit ''json''],
        ar_default := Text (lit ''md'')\<rparr>,
      value_option ''--out'', value_option ''--baseline'', value_option ''--verify-key'']"

definition redact_args :: "argument list" where
  "redact_args = [help_option, positional ''infile'', positional ''outfile'']"

definition cli_parsers :: "(pystr \<times> argument list) list" where
  "cli_parsers =
     [(lit ''capture'', capture_args), (lit ''analyze'', analyze_args),
      (lit ''baseline'', baseline_args), (lit ''report'', report_args),
      (lit ''redact'', redact_args)]"

text \<open>The option strings of a parser in the order of \<open>_option_string_actions\<close>.\<close>

definition options_of :: "argument list \<Rightarrow> (pystr \<times> argument) list" where
  "options_of args = concat (map (\<lambda>a. map (\<lambda>s. (s, a)) (ar_strings a)) args)"

definition positionals_of :: "argument list \<Rightarrow> argument list" where
  "positionals_of args = filter (\<lambda>a. ar_strings a = []) args"

type_synonym namespace = "pystr \<Rightarrow> arg_value option"

definition defaults_of :: "argument list \<Rightarrow> namespace" where
  "defaults_of args =
     map_of (map (\<lambda>a. (ar_dest a, ar_default a)) (filter (\<lambda>a. ar_action a \<noteq> ShowHelp) args))"

definition arg_name :: "argument \<Rightarrow> pystr" where
  "arg_name a = (if ar_strings a = [] then ar_dest a else join (lit ''/'') (ar_strings a))"

section \<open>How parsing can end\<close>

text \<open>What a usage error is about; its wording is a parameter of the program.\<close>

datatype usage_error =
    AmbiguousOption pystr "pystr list"
  | ExpectedOneArgument pystr
  | IgnoredExplicit pystr pystr
  | InvalidChoice pystr pystr
  | InvalidInt pystr pystr
  | RequiredArguments "pystr list"
  | UnrecognizedArguments "pystr list"

text \<open>A parser that does not return: it printed its help, or a usage error. It names its program.\<close>

datatype halt = HelpShown pystr | UsageError pystr usage_error

definition bindH :: "halt + 'a \<Rightarrow> ('a \<Rightarrow> halt + 'b) \<Rightarrow> halt + 'b" where
  "bindH r f = (case r of Inl h \<Rightarrow> Inl h | Inr x \<Rightarrow> f x)"

lemma bindH_simps [simp]: "bindH (Inl h) f = Inl h" "bindH (Inr x) f = f x"
  by (simp_all add: bindH_def)

lemma bindH_cong [fundef_cong]:
  "r = r' \<Longrightarrow> (\<And>x. r' = Inr x \<Longrightarrow> f x = f' x) \<Longrightarrow> bindH r f = bindH r' f'"
  by (cases r') auto

lemma bindH_InrE [elim!]:
  assumes "bindH r f = Inr y"
  obtains x where "r = Inr x" and "f x = Inr y"
  using assms by (cases r) auto

section \<open>Options and arguments\<close>

text \<open>
  What \<open>_parse_optional\<close> finds in a word that looks like an option: the argument, the option string,
  whether an equals sign follows it, and the value written in the same word. \<open>None\<close> is an option
  that this parser does not know.
\<close>

type_synonym occurrence = "(argument \<times> pystr \<times> bool \<times> pystr option) option"

datatype mark = IsOption occurrence | IsArg | IsDashes

type_synonym marked = "pystr \<times> mark"

definition dashes :: pystr where
  "dashes = lit ''--''"

text \<open>\<open>s.partition('=')\<close>: the part before, whether there is an equals sign, and the part after.\<close>

definition partition_eq :: "pystr \<Rightarrow> pystr \<times> pystr option" where
  "partition_eq s =
     (case split_once 61 s of None \<Rightarrow> (s, None) | Some (a, b) \<Rightarrow> (a, Some b))"

text \<open>\<open>^-\d+$|^-\d*\.\d+$\<close>, where the dollar also matches before a final line feed.\<close>

definition digits :: "pystr \<Rightarrow> bool" where
  "digits s \<longleftrightarrow> s \<noteq> [] \<and> list_all (\<lambda>c. decimal_value c \<noteq> None) s"

definition chop_newline :: "pystr \<Rightarrow> pystr" where
  "chop_newline s = (if s \<noteq> [] \<and> last s = 10 then butlast s else s)"

definition negative_number :: "pystr \<Rightarrow> bool" where
  "negative_number w =
     (case chop_newline w of
        [] \<Rightarrow> False
      | c # s \<Rightarrow> c = 45 \<and>
          (digits s \<or>
           (case split_once 46 s of
              None \<Rightarrow> False
            | Some (a, b) \<Rightarrow> (a = [] \<or> digits a) \<and> digits b)))"

text \<open>
  \<open>_get_option_tuples\<close>: with two dashes every option that the part before the equals sign abbreviates,
  with one dash the option of one letter with its value attached, and abbreviations again.
\<close>

definition option_tuples :: "(pystr \<times> argument) list \<Rightarrow> pystr \<Rightarrow> (argument \<times> pystr \<times> bool \<times> pystr option) list" where
  "option_tuples opts w =
     (if w ! 1 = 45 then
        (case partition_eq w of (name, v) \<Rightarrow>
           map (\<lambda>(s, a). (a, s, v \<noteq> None, v)) (filter (\<lambda>(s, a). startswith s name) opts))
      else
        map (\<lambda>(s, a). if s = take 2 w then (a, s, False, Some (drop 2 w)) else (a, s, False, None))
          (filter (\<lambda>(s, a). s = take 2 w \<or> startswith s w) opts))"

text \<open>\<open>_parse_optional\<close>: an option, or \<open>None\<close> for a positional argument.\<close>

definition parse_optional ::
  "pystr \<Rightarrow> (pystr \<times> argument) list \<Rightarrow> pystr \<Rightarrow> halt + occurrence option" where
  "parse_optional prog opts w =
     (if w = [] \<or> hd w \<noteq> 45 then Inr None
      else case map_of opts w of
        Some a \<Rightarrow> Inr (Some (Some (a, w, False, None)))
      | None \<Rightarrow>
          if length w = 1 then Inr None
          else case partition_eq w of (name, v) \<Rightarrow>
            (case (if v \<noteq> None then map_of opts name else None) of
               Some a \<Rightarrow> Inr (Some (Some (a, name, True, v)))
             | None \<Rightarrow>
                 (case option_tuples opts w of
                    [t] \<Rightarrow> Inr (Some (Some t))
                  | _ # _ # _ \<Rightarrow>
                      Inl (UsageError prog
                        (AmbiguousOption w (map (\<lambda>t. fst (snd t)) (option_tuples opts w))))
                  | [] \<Rightarrow>
                      if negative_number w \<or> 32 \<in> set w then Inr None
                      else Inr (Some None))))"

text \<open>Every word before the first \<open>--\<close> is an option or not; every word after it is none.\<close>

fun classify :: "pystr \<Rightarrow> (pystr \<times> argument) list \<Rightarrow> pystr list \<Rightarrow> halt + marked list" where
  "classify prog opts [] = Inr []"
| "classify prog opts (w # ws) =
     (if w = dashes then Inr ((w, IsDashes) # map (\<lambda>w. (w, IsArg)) ws)
      else
        bindH (parse_optional prog opts w) (\<lambda>t.
        bindH (classify prog opts ws) (\<lambda>ms.
        Inr ((w, case t of None \<Rightarrow> IsArg | Some oc \<Rightarrow> IsOption oc) # ms))))"

fun is_option :: "marked \<Rightarrow> bool" where
  "is_option (w, m) = (case m of IsOption _ \<Rightarrow> True | _ \<Rightarrow> False)"

fun is_dashes :: "marked \<Rightarrow> bool" where
  "is_dashes (w, m) \<longleftrightarrow> m = IsDashes"

section \<open>Parsing\<close>

text \<open>
  The state of \<open>_parse_known_args\<close>: the program of the parser, the namespace, the arguments seen, the
  positional arguments still to come, the words nobody wanted, and those that a subcommand left.
\<close>

record parse_state =
  ps_prog :: pystr
  ps_space :: namespace
  ps_seen :: "pystr list"
  ps_left :: "argument list"
  ps_extras :: "pystr list"
  ps_unrecognized :: "pystr list"

text \<open>
  \<open>take_action\<close> for an argument with one word: \<open>_get_values\<close> drops one \<open>--\<close> from the words of a
  positional argument, converts a number (no argument has a type and choices) and checks the choices.
\<close>

definition take_value :: "argument \<Rightarrow> pystr list \<Rightarrow> parse_state \<Rightarrow> halt + parse_state" where
  "take_value a words st =
     (let store = (\<lambda>v. st\<lparr>ps_seen := ps_seen st @ [ar_dest a],
                          ps_space := (ps_space st)(ar_dest a \<mapsto> v)\<rparr>) in
      case (if ar_strings a = [] then remove1 dashes words else words) of
        [] \<Rightarrow> Inr (store NoWords)
      | v # _ \<Rightarrow>
          if ar_int a then
            (case py_int v of
               Inl _ \<Rightarrow> Inl (UsageError (ps_prog st) (InvalidInt (arg_name a) v))
             | Inr i \<Rightarrow> Inr (store (Number i)))
          else (case ar_choices a of
             None \<Rightarrow> Inr (store (Text v))
           | Some cs \<Rightarrow>
               if v \<in> set cs then Inr (store (Text v))
               else Inl (UsageError (ps_prog st) (InvalidChoice (arg_name a) v))))"

definition take_flag :: "argument \<Rightarrow> parse_state \<Rightarrow> parse_state" where
  "take_flag a st =
     st\<lparr>ps_seen := ps_seen st @ [ar_dest a],
        ps_space := (ps_space st)(ar_dest a \<mapsto> Truth True)\<rparr>"

text \<open>
  \<open>-h\<close> with more letters in the same word. \<open>-h\<close> is the only option of one letter, so the letters
  after it are read until one is not \<open>h\<close>; then the help is printed.
\<close>

fun help_cluster :: "pystr \<Rightarrow> pystr \<Rightarrow> bool \<Rightarrow> pystr \<Rightarrow> halt" where
  "help_cluster prog name eq [] = UsageError prog (IgnoredExplicit name [])"
| "help_cluster prog name eq (c # cs) =
     (if eq \<or> c = 45 then UsageError prog (IgnoredExplicit name (c # cs))
      else if c \<noteq> 104 then HelpShown prog
      else case cs of
        [] \<Rightarrow> HelpShown prog
      | d # ds \<Rightarrow> if d = 61 then help_cluster prog name True ds else help_cluster prog name False cs)"

text \<open>\<open>consume_optional\<close>: the words after the option, and the state.\<close>

definition consume_optional ::
  "occurrence \<Rightarrow> pystr \<Rightarrow> marked list \<Rightarrow> parse_state \<Rightarrow> halt + marked list \<times> parse_state" where
  "consume_optional oc w rest st =
     (case oc of
        None \<Rightarrow> Inr (rest, st\<lparr>ps_extras := ps_extras st @ [w]\<rparr>)
      | Some (a, name, eq, explicit) \<Rightarrow>
          (case explicit of
             Some v \<Rightarrow>
               if ar_action a = Store then bindH (take_value a [v] st) (\<lambda>st'. Inr (rest, st'))
               else if name ! 1 \<noteq> 45 then Inl (help_cluster (ps_prog st) (arg_name a) eq v)
               else Inl (UsageError (ps_prog st) (IgnoredExplicit (arg_name a) v))
           | None \<Rightarrow>
               (case ar_action a of
                  Store \<Rightarrow>
                    (case rest of
                       (v, IsArg) # rest' \<Rightarrow>
                         bindH (take_value a [v] st) (\<lambda>st'. Inr (rest', st'))
                     | _ \<Rightarrow> Inl (UsageError (ps_prog st) (ExpectedOneArgument (arg_name a))))
                | StoreTrue \<Rightarrow> Inr (rest, take_flag a st)
                | ShowHelp \<Rightarrow> Inl (HelpShown (ps_prog st)))))"

text \<open>
  \<open>consume_positionals\<close>: the pattern of a positional argument is one word, with every \<open>--\<close> around it.
  As many positional arguments are taken as match at the start of the words.
\<close>

definition positional_words :: "marked list \<Rightarrow> (pystr list \<times> marked list) option" where
  "positional_words ws =
     (case dropWhile is_dashes ws of
        (w, IsArg) # r \<Rightarrow>
          Some (map fst (takeWhile is_dashes ws) @ w # map fst (takeWhile is_dashes r),
                dropWhile is_dashes r)
      | _ \<Rightarrow> None)"

fun match_positionals ::
  "argument list \<Rightarrow> marked list \<Rightarrow> parse_state \<Rightarrow> halt + marked list \<times> parse_state" where
  "match_positionals [] ws st = Inr (ws, st\<lparr>ps_left := []\<rparr>)"
| "match_positionals (a # as) ws st =
     (case positional_words ws of
        None \<Rightarrow> Inr (ws, st\<lparr>ps_left := a # as\<rparr>)
      | Some (taken, ws') \<Rightarrow> bindH (take_value a taken st) (match_positionals as ws'))"

definition consume_positionals :: "marked list \<Rightarrow> parse_state \<Rightarrow> halt + marked list \<times> parse_state" where
  "consume_positionals ws st = match_positionals (ps_left st) ws st"

lemma consume_optional_length:
  "consume_optional oc w rest st = Inr (ws, st') \<Longrightarrow> length ws \<le> length rest"
  by (auto simp: consume_optional_def split: option.splits if_splits arg_action.splits list.splits
      prod.splits mark.splits)

text \<open>
  The loop of \<open>_parse_known_args\<close>, as long as an option is ahead. \<open>pos\<close> consumes positional arguments.
\<close>

function consume ::
  "(marked list \<Rightarrow> parse_state \<Rightarrow> halt + marked list \<times> parse_state) \<Rightarrow>
   marked list \<Rightarrow> parse_state \<Rightarrow> halt + marked list \<times> parse_state" where
  "consume pos [] st = Inr ([], st)"
| "consume pos ((w, m) # ws) st =
     (if \<not> list_ex is_option ((w, m) # ws) then Inr ((w, m) # ws, st)
      else case m of
        IsOption oc \<Rightarrow> bindH (consume_optional oc w ws st) (\<lambda>(ws', st'). consume pos ws' st')
      | _ \<Rightarrow>
          bindH (pos ((w, m) # ws) st) (\<lambda>(ws', st').
            if length ws' < Suc (length ws) then consume pos ws' st'
            else
              consume pos (dropWhile (\<lambda>x. \<not> is_option x) ws)
                (st'\<lparr>ps_extras := ps_extras st' @
                     w # map fst (takeWhile (\<lambda>x. \<not> is_option x) ws)\<rparr>)))"
  by pat_completeness auto
termination
proof (relation "measure (\<lambda>(pos, ws, st). length ws)")
  fix pos w m ws st oc x ws' st'
  assume "consume_optional oc w ws st = Inr x" and "(ws', st') = x"
  then show "((pos, ws', st'), (pos, (w, m) # ws, st)) \<in> measure (\<lambda>(pos, ws, st). length ws)"
    using consume_optional_length by fastforce
qed (auto simp: le_imp_less_Suc length_dropWhile_le)

text \<open>One parser over its words: the loop, the positional arguments after it, and the rest.\<close>

definition parse_words ::
  "(marked list \<Rightarrow> parse_state \<Rightarrow> halt + marked list \<times> parse_state) \<Rightarrow> argument list \<Rightarrow>
   parse_state \<Rightarrow> pystr list \<Rightarrow> halt + parse_state" where
  "parse_words pos args st ws =
     bindH (classify (ps_prog st) (options_of args) ws) (\<lambda>ms.
     bindH (consume pos ms st) (\<lambda>(rest, st).
     bindH (pos rest st) (\<lambda>(rest, st).
     Inr (st\<lparr>ps_extras := ps_extras st @ map fst rest\<rparr>))))"

definition start_state :: "pystr \<Rightarrow> argument list \<Rightarrow> parse_state" where
  "start_state prog args =
     \<lparr>ps_prog = prog, ps_space = defaults_of args, ps_seen = [], ps_left = positionals_of args,
      ps_extras = [], ps_unrecognized = []\<rparr>"

text \<open>\<open>parse_known_args\<close> of a subcommand, and the check for required arguments.\<close>

definition missing_arguments :: "argument list \<Rightarrow> parse_state \<Rightarrow> argument list" where
  "missing_arguments args st =
     filter (\<lambda>a. ar_required a \<and> ar_dest a \<notin> set (ps_seen st)) args"

definition parse_known :: "pystr \<Rightarrow> argument list \<Rightarrow> pystr list \<Rightarrow> halt + parse_state" where
  "parse_known prog args ws =
     bindH (parse_words consume_positionals args (start_state prog args) ws) (\<lambda>st.
     if missing_arguments args st \<noteq> []
     then Inl (UsageError prog (RequiredArguments (map arg_name (missing_arguments args st))))
     else Inr st)"

text \<open>
  The top parser. Its one positional argument is the subcommand, which takes every word that
  follows; its parser runs at once. The word before the rest is the name, also when it is \<open>--\<close>.
\<close>

definition command_argument :: argument where
  "command_argument =
     \<lparr>ar_strings = [], ar_dest = lit ''command'', ar_action = Store, ar_int = False, ar_required = False,
      ar_choices = Some (map fst cli_parsers), ar_default = NoValue\<rparr>"

definition top_args :: "argument list" where
  "top_args = [help_option, command_argument]"

fun run_command :: "pystr list \<Rightarrow> parse_state \<Rightarrow> halt + marked list \<times> parse_state" where
  "run_command [] st = Inr ([], st)"
| "run_command (name # ws) st =
     (case map_of cli_parsers name of
        None \<Rightarrow> Inl (UsageError (ps_prog st) (InvalidChoice (arg_name command_argument) name))
      | Some args \<Rightarrow>
          bindH (parse_known (ps_prog st @ 32 # name) args ws) (\<lambda>sub.
          Inr ([], st\<lparr>ps_space := (ps_space st)(lit ''command'' \<mapsto> Text name) ++ ps_space sub,
                      ps_left := [],
                      ps_unrecognized := ps_extras sub\<rparr>)))"

definition consume_command :: "marked list \<Rightarrow> parse_state \<Rightarrow> halt + marked list \<times> parse_state" where
  "consume_command ws st =
     (if ps_left st = [] then Inr (ws, st)
      else case dropWhile is_dashes ws of
        (w, IsArg) # _ \<Rightarrow> run_command (map fst ws) st
      | _ \<Rightarrow> Inr (ws, st))"

text \<open>\<open>parse_args\<close>: the namespace, unless words are left over.\<close>

definition parse_args :: "pystr list \<Rightarrow> halt + namespace" where
  "parse_args ws =
     bindH (parse_words consume_command top_args (start_state prog_name top_args) ws) (\<lambda>st.
     let left_over = ps_extras st @ ps_unrecognized st in
     if left_over \<noteq> [] then Inl (UsageError prog_name (UnrecognizedArguments left_over))
     else Inr (ps_space st))"

end
