(* ===== verification/Cli_Typed.thy ===== *)
theory Cli_Typed
  imports Cli_Args
begin

text \<open>
  What the parsers of Cli_Args guarantee: an invariant of the parser state on the types of the
  attributes, which every step of the loop keeps.
\<close>

section \<open>Words and marks\<close>

lemma classify_words: "classify prog opts ws = Inr ms \<Longrightarrow> map fst ms = ws"
  by (induction ws arbitrary: ms) (auto simp: comp_def split: if_splits)

text \<open>
  \<open>fresh\<close>: the words from here on hold at most one \<open>--\<close> that is marked, with no option after it, and
  none that is not marked before it.
\<close>

fun fresh :: "marked list \<Rightarrow> bool" where
  "fresh [] = True"
| "fresh ((w, m) # ws) =
     (if m = IsDashes then w = dashes \<and> (\<forall>x \<in> set ws. snd x = IsArg) else w \<noteq> dashes \<and> fresh ws)"

lemma classify_fresh: "classify prog opts ws = Inr ms \<Longrightarrow> fresh ms"
  by (induction ws arbitrary: ms) (auto split: if_splits option.splits)

lemma fresh_skip:
  "fresh ws \<Longrightarrow> list_ex is_option ws \<Longrightarrow> fresh (dropWhile (\<lambda>x. \<not> is_option x) ws)"
proof (induction ws rule: fresh.induct)
  case (2 w m ws)
  then show ?case by (cases m) (auto simp: list_ex_iff)
qed simp

lemma fresh_argD: "fresh ((w, IsArg) # ws) \<Longrightarrow> w \<noteq> dashes \<and> fresh ws"
  by simp

lemma fresh_optionD: "fresh ((w, IsOption oc) # ws) \<Longrightarrow> fresh ws"
  by simp

text \<open>The first positional argument always gets a word.\<close>

lemma first_word:
  assumes "fresh ws" and taken: "positional_words ws = Some (taken, r)"
  obtains s t where "remove1 dashes taken = s # t"
proof (cases ws)
  case Nil
  with taken show ?thesis by (simp add: positional_words_def)
next
  case (Cons x xs)
  obtain w m where x: "x = (w, m)" by (cases x)
  show ?thesis
  proof (cases m)
    case (IsOption oc)
    with taken Cons x show ?thesis by (simp add: positional_words_def)
  next
    case IsArg
    with taken Cons x assms(1) that show ?thesis by (auto simp: positional_words_def)
  next
    case IsDashes
    with assms(1) Cons x have w: "w = dashes" and xs: "\<forall>x \<in> set xs. snd x = IsArg" by auto
    then obtain v ys where "xs = (v, IsArg) # ys"
      using taken Cons x IsDashes by (cases xs) (auto simp: positional_words_def)
    moreover from xs this have "takeWhile is_dashes ys = []" by (cases ys) auto
    ultimately show ?thesis
      using taken Cons x IsDashes w that by (auto simp: positional_words_def)
  qed
qed

lemma positional_words_suffix:
  "positional_words ws = Some (taken, r) \<Longrightarrow> suffix r ws"
proof -
  assume "positional_words ws = Some (taken, r)"
  then obtain w ys where ys: "dropWhile is_dashes ws = (w, IsArg) # ys" and r: "r = dropWhile is_dashes ys"
    by (auto simp: positional_words_def split: list.splits prod.splits mark.splits)
  have "suffix r ys" using r suffix_dropWhile by blast
  moreover have "suffix ((w, IsArg) # ys) ws" using ys suffix_dropWhile [of is_dashes ws] by simp
  ultimately show ?thesis by (meson suffix_ConsD suffix_order.trans)
qed

text \<open>Every option that a word was recognized as belongs to the parser.\<close>

fun known_mark :: "argument list \<Rightarrow> mark \<Rightarrow> bool" where
  "known_mark args (IsOption (Some (a, s, e, v))) \<longleftrightarrow> a \<in> set args \<and> ar_strings a \<noteq> []"
| "known_mark args m \<longleftrightarrow> True"

definition known_marks :: "argument list \<Rightarrow> marked list \<Rightarrow> bool" where
  "known_marks args ws \<longleftrightarrow> (\<forall>x \<in> set ws. known_mark args (snd x))"

lemma options_of_known:
  "(s, a) \<in> set (options_of args) \<Longrightarrow> a \<in> set args \<and> ar_strings a \<noteq> []"
  by (auto simp: options_of_def)

lemma parse_optional_known:
  assumes "parse_optional prog (options_of args) w = Inr (Some (Some (a, s, e, v)))"
  shows "a \<in> set args \<and> ar_strings a \<noteq> []"
proof -
  have tuples: "\<And>x. x \<in> set (option_tuples (options_of args) w) \<Longrightarrow>
      fst x \<in> set args \<and> ar_strings (fst x) \<noteq> []"
    by (auto simp: option_tuples_def dest!: options_of_known split: if_splits prod.splits)
  from assms consider s where "map_of (options_of args) s = Some a"
    | "(a, s, e, v) \<in> set (option_tuples (options_of args) w)"
    by (auto simp: parse_optional_def split: if_splits option.splits prod.splits list.splits)
  then show ?thesis
    using tuples by cases (auto dest!: map_of_SomeD options_of_known)
qed

lemma classify_known:
  "classify prog (options_of args) ws = Inr ms \<Longrightarrow> known_marks args ms"
proof (induction ws arbitrary: ms)
  case (Cons w ws)
  show ?case
  proof (cases "w = dashes")
    case False
    with Cons.prems obtain t ms' where t: "parse_optional prog (options_of args) w = Inr t"
      and ms': "classify prog (options_of args) ws = Inr ms'"
      and ms: "ms = (w, case t of None \<Rightarrow> IsArg | Some oc \<Rightarrow> IsOption oc) # ms'"
      by auto
    have "known_mark args (case t of None \<Rightarrow> IsArg | Some oc \<Rightarrow> IsOption oc)"
    proof (cases "\<exists>a s e v. t = Some (Some (a, s, e, v))")
      case True
      with t parse_optional_known show ?thesis by fastforce
    next
      case False
      then have "t = None \<or> t = Some None" by (metis not_Some_eq prod_cases4)
      then show ?thesis by auto
    qed
    with Cons.IH [OF ms'] show ?thesis by (simp add: ms known_marks_def)
  qed (use Cons.prems in \<open>auto simp: known_marks_def\<close>)
qed (simp add: known_marks_def)

lemma known_marks_suffix: "suffix ws' ws \<Longrightarrow> known_marks args ws \<Longrightarrow> known_marks args ws'"
  unfolding known_marks_def by (meson set_mono_suffix subsetD)

section \<open>Rules for the loop\<close>

lemma consume_optional_suffix:
  "consume_optional oc w rest st = Inr (ws, st') \<Longrightarrow> suffix ws rest"
  by (auto simp: consume_optional_def split: option.splits if_splits arg_action.splits list.splits
      prod.splits mark.splits intro: suffix_ConsI)

lemma match_positionals_suffix:
  "match_positionals as ws st = Inr (ws', st') \<Longrightarrow> suffix ws' ws"
proof (induction as ws st rule: match_positionals.induct)
  case (2 a as ws st)
  show ?case
  proof (cases "positional_words ws")
    case (Some p)
    obtain taken r where p: "p = (taken, r)" by (cases p)
    with Some 2(2) obtain su where "take_value a taken st = Inr su"
      and "match_positionals as r su = Inr (ws', st')" by auto
    with 2(1) [OF Some p [symmetric]] have "suffix ws' r" by simp
    with positional_words_suffix Some p show ?thesis by (metis suffix_order.trans)
  qed (use 2(2) in simp)
qed simp

lemma consume_done: "\<not> list_ex is_option ws \<Longrightarrow> consume pos ws st = Inr (ws, st)"
  by (cases ws) (auto)

lemma consume_option:
  "consume pos ((w, IsOption oc) # ws) st =
     bindH (consume_optional oc w ws st) (\<lambda>(ws', st'). consume pos ws' st')"
  by simp

lemma consume_other:
  assumes "list_ex is_option ws" and "\<not> is_option (hd ws)"
  shows "consume pos ws st =
    bindH (pos ws st) (\<lambda>(ws', st').
      if length ws' < length ws then consume pos ws' st'
      else consume pos (dropWhile (\<lambda>x. \<not> is_option x) ws)
        (st'\<lparr>ps_extras := ps_extras st' @ map fst (takeWhile (\<lambda>x. \<not> is_option x) ws)\<rparr>))"
  using assms by (cases ws) (auto split: mark.splits cong: if_cong)

text \<open>
  The interface of the loop to what consumes positional arguments: words are taken from the front.
  Both parsers, those of the subcommands and the one of the program, provide it.
\<close>

locale word_consumer =
  fixes pos :: "marked list \<Rightarrow> parse_state \<Rightarrow> halt + marked list \<times> parse_state"
  assumes pos_suffix: "pos ws st = Inr (ws', st') \<Longrightarrow> suffix ws' ws"
begin

text \<open>
  An invariant of the words ahead and the state holds after the loop, if the three kinds of steps
  keep it: an option, positional arguments, and words that nothing wants.
\<close>

lemma consume_invariant:
  assumes option: "\<And>oc w ws st ws' st'. P ((w, IsOption oc) # ws) st \<Longrightarrow>
      consume_optional oc w ws st = Inr (ws', st') \<Longrightarrow> P ws' st'"
    and pos: "\<And>ws st ws' st'. P ws st \<Longrightarrow> pos ws st = Inr (ws', st') \<Longrightarrow> P ws' st'"
    and skip: "\<And>ws st. P ws st \<Longrightarrow> list_ex is_option ws \<Longrightarrow>
      P (dropWhile (\<lambda>x. \<not> is_option x) ws)
        (st\<lparr>ps_extras := ps_extras st @ map fst (takeWhile (\<lambda>x. \<not> is_option x) ws)\<rparr>)"
    and start: "P ws st" and run: "consume pos ws st = Inr (ws', st')"
  shows "P ws' st'"
  using start run
proof (induction "length ws" arbitrary: ws st rule: less_induct)
  case less
  consider (final) "\<not> list_ex is_option ws"
    | (option) w oc xs where "ws = (w, IsOption oc) # xs"
    | (other) "list_ex is_option ws" "\<not> is_option (hd ws)"
  proof (cases ws)
    case (Cons x xs)
    then show ?thesis using that by (cases x; cases "snd x") auto
  qed (use that in auto)
  then show ?case
  proof cases
    case final
    with less.prems show ?thesis by (simp add: consume_done)
  next
    case option: option
    with less.prems(2) obtain ys su where step: "consume_optional oc w xs st = Inr (ys, su)"
      and more: "consume pos ys su = Inr (ws', st')" by auto
    have "length ys < length ws"
      using consume_optional_length [OF step] option by simp
    from less.hyps [OF this _ more] show ?thesis
      using assms(1) [OF _ step] less.prems(1) option by simp
  next
    case other
    with less.prems(2) obtain ys su where step: "pos ws st = Inr (ys, su)"
      and more: "(if length ys < length ws then consume pos ys su
        else consume pos (dropWhile (\<lambda>x. \<not> is_option x) ws)
          (su\<lparr>ps_extras := ps_extras su @ map fst (takeWhile (\<lambda>x. \<not> is_option x) ws)\<rparr>)) = Inr (ws', st')"
      by (auto simp: consume_other)
    have P: "P ys su" using pos [OF less.prems(1) step] .
    show ?thesis
    proof (cases "length ys < length ws")
      case True
      with less.hyps P more show ?thesis by auto
    next
      case False
      with pos_suffix [OF step] have ys: "ys = ws" by (auto simp: suffix_def)
      from other have "length (dropWhile (\<lambda>x. \<not> is_option x) ws) < length ws"
        by (cases ws) (auto simp: le_imp_less_Suc length_dropWhile_le)
      from less.hyps [OF this skip [OF P [unfolded ys] other(1)]] more False show ?thesis by simp
    qed
  qed
qed

end

interpretation argument_words: word_consumer consume_positionals
  by unfold_locales (simp add: consume_positionals_def match_positionals_suffix)

section \<open>The types of the attributes\<close>

text \<open>
  A flag is a truth value. An argument with a value holds its default as long as it has not been
  seen, and a string or a number afterwards; only a positional argument after the first can hold \<open>NoWords\<close>.
\<close>

definition parser_ok :: "argument list \<Rightarrow> bool" where
  "parser_ok args \<longleftrightarrow>
     distinct (map ar_dest args) \<and>
     (\<forall>a \<in> set args. (ar_action a = StoreTrue \<longrightarrow> ar_default a = Truth False) \<and>
        (ar_strings a = [] \<longrightarrow> ar_action a = Store))"

definition read_value :: "argument \<Rightarrow> arg_value \<Rightarrow> bool" where
  "read_value a v \<longleftrightarrow> (if ar_int a then \<exists>i. v = Number i else \<exists>s. v = Text s)"

definition value_ok :: "argument list \<Rightarrow> pystr list \<Rightarrow> argument \<Rightarrow> arg_value \<Rightarrow> bool" where
  "value_ok args seen a v =
     (case ar_action a of
        StoreTrue \<Rightarrow> (\<exists>b. v = Truth b)
      | Store \<Rightarrow>
          (ar_dest a \<notin> set seen \<and> v = ar_default a) \<or> read_value a v \<or>
          (v = NoWords \<and> ar_strings a = [] \<and> a \<noteq> hd (positionals_of args))
      | ShowHelp \<Rightarrow> True)"

definition space_ok :: "argument list \<Rightarrow> parse_state \<Rightarrow> bool" where
  "space_ok args st \<longleftrightarrow>
     (\<forall>a \<in> set args. ar_action a \<noteq> ShowHelp \<longrightarrow>
        (\<exists>v. ps_space st (ar_dest a) = Some v \<and> value_ok args (ps_seen st) a v)) \<and>
     dom (ps_space st) \<subseteq> ar_dest ` set args"

definition typed :: "argument list \<Rightarrow> marked list \<Rightarrow> parse_state \<Rightarrow> bool" where
  "typed args ws st \<longleftrightarrow>
     space_ok args st \<and> suffix (ps_left st) (positionals_of args) \<and> known_marks args ws \<and>
     (ps_left st = positionals_of args \<longrightarrow> fresh ws)"

lemma space_ok_extras [simp]:
  "space_ok args (st\<lparr>ps_extras := xs\<rparr>) = space_ok args st"
  "space_ok args (st\<lparr>ps_left := as\<rparr>) = space_ok args st"
  by (simp_all add: space_ok_def)

lemma space_ok_start: "parser_ok args \<Longrightarrow> space_ok args (start_state prog args)"
proof -
  assume ok: "parser_ok args"
  let ?ps = "map (\<lambda>a. (ar_dest a, ar_default a)) (filter (\<lambda>a. ar_action a \<noteq> ShowHelp) args)"
  from ok have "distinct (map fst ?ps)"
    by (simp add: parser_ok_def comp_def distinct_map_filter)
  then have "ps_space (start_state prog args) (ar_dest a) = Some (ar_default a)"
    if "a \<in> set args" "ar_action a \<noteq> ShowHelp" for a
    using that by (simp add: start_state_def defaults_of_def)
  moreover have "dom (ps_space (start_state prog args)) \<subseteq> ar_dest ` set args"
    by (auto simp: start_state_def defaults_of_def dest!: map_of_SomeD)
  ultimately show ?thesis
    using ok by (auto simp: space_ok_def value_ok_def parser_ok_def start_state_def split: arg_action.split)
qed

lemma value_ok_seen:
  "value_ok args seen a v \<Longrightarrow> ar_dest a \<noteq> d \<Longrightarrow> value_ok args (seen @ [d]) a v"
  by (auto simp: value_ok_def split: arg_action.splits)

lemma space_ok_set:
  assumes "parser_ok args" and "space_ok args st" and "a \<in> set args"
    and "value_ok args (ps_seen st @ [ar_dest a]) a v"
  shows "space_ok args (st\<lparr>ps_seen := ps_seen st @ [ar_dest a], ps_space := (ps_space st)(ar_dest a \<mapsto> v)\<rparr>)"
  unfolding space_ok_def
proof (intro conjI ballI impI)
  show "dom (ps_space (st\<lparr>ps_seen := ps_seen st @ [ar_dest a], ps_space := (ps_space st)(ar_dest a \<mapsto> v)\<rparr>)) \<subseteq> ar_dest ` set args"
    using assms(2,3) by (auto simp: space_ok_def)
next
  fix b
  assume b: "b \<in> set args" "ar_action b \<noteq> ShowHelp"
  show "\<exists>u. ps_space (st\<lparr>ps_seen := ps_seen st @ [ar_dest a], ps_space := (ps_space st)(ar_dest a \<mapsto> v)\<rparr>) (ar_dest b) = Some u \<and>
      value_ok args (ps_seen (st\<lparr>ps_seen := ps_seen st @ [ar_dest a], ps_space := (ps_space st)(ar_dest a \<mapsto> v)\<rparr>)) b u"
  proof (cases "ar_dest b = ar_dest a")
    case True
    with assms(1,3) b have "b = a" by (metis distinct_map inj_onD parser_ok_def)
    with assms(4) show ?thesis by simp
  next
    case False
    from assms(2) b obtain u where "ps_space st (ar_dest b) = Some u" "value_ok args (ps_seen st) b u"
      by (auto simp: space_ok_def)
    with False value_ok_seen show ?thesis by simp
  qed
qed

lemma take_value_ok:
  assumes ok: "parser_ok args" and sp: "space_ok args st" and a: "a \<in> set args" "ar_action a = Store"
    and run: "take_value a words st = Inr st'"
    and first: "ar_strings a = [] \<Longrightarrow> a = hd (positionals_of args) \<Longrightarrow> remove1 dashes words \<noteq> []"
    and given: "ar_strings a \<noteq> [] \<Longrightarrow> words \<noteq> []"
  shows "space_ok args st'" and "ps_left st' = ps_left st"
proof -
  from run obtain v where
    st': "st' = st\<lparr>ps_seen := ps_seen st @ [ar_dest a], ps_space := (ps_space st)(ar_dest a \<mapsto> v)\<rparr>"
    and v: "read_value a v \<or> v = NoWords \<and> (if ar_strings a = [] then remove1 dashes words else words) = []"
    by (auto simp: take_value_def Let_def read_value_def split: list.splits option.splits if_splits sum.splits)
  from v first given a(2) have "value_ok args (ps_seen st @ [ar_dest a]) a v"
    by (auto simp: value_ok_def split: if_splits)
  then show "space_ok args st'" unfolding st' by (rule space_ok_set [OF ok sp a(1)])
  show "ps_left st' = ps_left st" by (simp add: st')
qed

lemma take_flag_ok:
  assumes "parser_ok args" and "space_ok args st" and "a \<in> set args" and "ar_action a = StoreTrue"
  shows "space_ok args (take_flag a st)" and "ps_left (take_flag a st) = ps_left st"
  using space_ok_set [OF assms(1-3), of "Truth True"] assms(4)
  by (auto simp: take_flag_def value_ok_def)

section \<open>Every step keeps the invariant\<close>

lemma consume_optional_typed:
  assumes ok: "parser_ok args" and inv: "typed args ((w, IsOption oc) # ws) st"
    and run: "consume_optional oc w ws st = Inr (ws', st')"
  shows "typed args ws' st'"
proof -
  have marks: "known_marks args ws'"
    using inv known_marks_suffix [OF consume_optional_suffix [OF run]] by (auto simp: typed_def known_marks_def)
  have fresh: "fresh ws'" if "ps_left st = positionals_of args"
  proof -
    from inv that have "fresh ws" by (simp add: typed_def)
    with run show ?thesis
      by (auto simp: consume_optional_def split: option.splits if_splits arg_action.splits list.splits
          prod.splits mark.splits)
  qed
  have "space_ok args st' \<and> ps_left st' = ps_left st"
  proof (cases oc)
    case None
    with run inv show ?thesis by (auto simp: consume_optional_def typed_def)
  next
    case (Some t)
    obtain a s e v where t: "t = (a, s, e, v)" by (cases t)
    from inv Some t have a: "a \<in> set args" "ar_strings a \<noteq> []" and sp: "space_ok args st"
      by (auto simp: typed_def known_marks_def)
    from run Some t consider x where "ar_action a = Store" "take_value a [x] st = Inr st'"
      | "ar_action a = StoreTrue" "st' = take_flag a st"
      by (auto simp: consume_optional_def split: option.splits if_splits arg_action.splits list.splits
          prod.splits mark.splits)
    then show ?thesis
      using take_value_ok [OF ok sp a(1), of _ st'] take_flag_ok [OF ok sp a(1)] a(2) by cases auto
  qed
  with inv marks fresh show ?thesis by (simp add: typed_def)
qed

lemma left_not_all:
  "suffix (a # as) ps \<Longrightarrow> as \<noteq> ps"
  by (auto dest: suffix_length_le)

lemma suffix_from_head: "suffix (a # as) ps \<Longrightarrow> distinct ps \<Longrightarrow> hd ps = a \<Longrightarrow> a # as = ps"
proof -
  assume "suffix (a # as) ps" and d: "distinct ps" and a: "hd ps = a"
  then obtain zs where ps: "ps = zs @ a # as" by (auto simp: suffix_def)
  with d a show ?thesis by (cases zs) auto
qed

lemma match_positionals_typed:
  "parser_ok args \<Longrightarrow> typed args ws (st\<lparr>ps_left := as\<rparr>) \<Longrightarrow>
   match_positionals as ws st = Inr (ws', st') \<Longrightarrow> typed args ws' st'"
proof (induction as ws st rule: match_positionals.induct)
  case (1 ws st)
  then show ?case by auto
next
  case (2 a as ws st)
  note ok = 2(2) and inv = 2(3)
  show ?case
  proof (cases "positional_words ws")
    case None
    with 2 show ?thesis by auto
  next
    case (Some p)
    obtain taken r where p: "p = (taken, r)" by (cases p)
    with Some 2(4) obtain su where su: "take_value a taken st = Inr su"
      and more: "match_positionals as r su = Inr (ws', st')" by auto
    from inv have left: "suffix (a # as) (positionals_of args)" and sp: "space_ok args st"
      and marks: "known_marks args ws" by (auto simp: typed_def)
    then have "a \<in> set (positionals_of args)" by (meson list.set_intros(1) set_mono_suffix subsetD)
    then have a: "a \<in> set args" "ar_strings a = []" by (auto simp: positionals_of_def)
    with ok have act: "ar_action a = Store" by (auto simp: parser_ok_def)
    have "remove1 dashes taken \<noteq> []" if "a = hd (positionals_of args)"
    proof -
      have "distinct (positionals_of args)"
        using ok by (auto simp: parser_ok_def positionals_of_def distinct_map)
      with left that have "a # as = positionals_of args" by (simp add: suffix_from_head)
      with inv have "fresh ws" by (simp add: typed_def)
      with first_word Some p show ?thesis by (metis list.discI)
    qed
    with take_value_ok [OF ok sp a(1) act su] a(2) have "space_ok args su" by simp
    moreover have "known_marks args r"
      using marks positional_words_suffix Some p known_marks_suffix by metis
    moreover have "suffix as (positionals_of args)" and "as \<noteq> positionals_of args"
      using left by (auto dest: left_not_all suffix_ConsD)
    ultimately have "typed args r (su\<lparr>ps_left := as\<rparr>)" by (simp add: typed_def)
    from 2(1) [OF Some p [symmetric] su ok this more] show ?thesis .
  qed
qed

lemma consume_positionals_typed:
  "parser_ok args \<Longrightarrow> typed args ws st \<Longrightarrow> consume_positionals ws st = Inr (ws', st') \<Longrightarrow>
   typed args ws' st'"
  unfolding consume_positionals_def by (rule match_positionals_typed) simp_all

lemma skip_typed:
  "typed args ws st \<Longrightarrow> list_ex is_option ws \<Longrightarrow>
   typed args (dropWhile (\<lambda>x. \<not> is_option x) ws)
     (st\<lparr>ps_extras := ps_extras st @ map fst (takeWhile (\<lambda>x. \<not> is_option x) ws)\<rparr>)"
  unfolding typed_def by (auto intro: fresh_skip known_marks_suffix [OF suffix_dropWhile])

text \<open>What a parser returns.\<close>

lemma parse_words_typed:
  assumes ok: "parser_ok args"
    and run: "parse_words consume_positionals args (start_state prog args) ws = Inr st"
  shows "space_ok args st"
proof -
  from run obtain ms rest su rest' st' where ms: "classify prog (options_of args) ws = Inr ms"
    and loop: "consume consume_positionals ms (start_state prog args) = Inr (rest, su)"
    and final: "consume_positionals rest su = Inr (rest', st')"
    and st: "st = st'\<lparr>ps_extras := ps_extras st' @ map fst rest'\<rparr>"
    by (auto simp: parse_words_def start_state_def)
  have "typed args ms (start_state prog args)"
    using space_ok_start [OF ok] classify_known [OF ms] classify_fresh [OF ms]
    by (simp add: typed_def start_state_def)
  then have "typed args rest su"
  proof (rule argument_words.consume_invariant [where P = "typed args", OF _ _ _ _ loop, rotated 3])
    show "typed args ((w, IsOption oc) # ws) st \<Longrightarrow> consume_optional oc w ws st = Inr (ws', st') \<Longrightarrow>
      typed args ws' st'" for oc w ws st ws' st' by (rule consume_optional_typed [OF ok])
    show "typed args ws st \<Longrightarrow> consume_positionals ws st = Inr (ws', st') \<Longrightarrow> typed args ws' st'"
      for ws st ws' st' by (rule consume_positionals_typed [OF ok])
  qed (rule skip_typed)
  then have "typed args rest' st'" by (rule consume_positionals_typed [OF ok _ final])
  then show ?thesis by (simp add: st typed_def)
qed

lemma parse_known_words:
  "parse_known prog args ws = Inr st \<Longrightarrow>
   parse_words consume_positionals args (start_state prog args) ws = Inr st"
  by (auto simp: parse_known_def split: if_splits)

lemma parse_known_dom:
  "parser_ok args \<Longrightarrow> parse_known prog args ws = Inr st \<Longrightarrow>
   dom (ps_space st) \<subseteq> ar_dest ` set args"
  using parse_words_typed parse_known_words by (fastforce simp: space_ok_def)

theorem parse_known_typed:
  assumes ok: "parser_ok args" and run: "parse_known prog args ws = Inr st" and a: "a \<in> set args"
  shows "ar_action a = StoreTrue \<Longrightarrow> \<exists>b. ps_space st (ar_dest a) = Some (Truth b)"
    and "ar_action a = Store \<Longrightarrow> \<not> ar_required a \<Longrightarrow> ar_strings a \<noteq> [] \<Longrightarrow>
      ps_space st (ar_dest a) = Some (ar_default a) \<or> (\<exists>v. ps_space st (ar_dest a) = Some v \<and> read_value a v)"
    and "ar_action a = Store \<Longrightarrow> ar_required a \<Longrightarrow>
      ar_strings a \<noteq> [] \<or> a = hd (positionals_of args) \<Longrightarrow>
      \<exists>v. ps_space st (ar_dest a) = Some v \<and> read_value a v"
    and "ar_action a = Store \<Longrightarrow> ar_required a \<Longrightarrow>
      ps_space st (ar_dest a) = Some NoWords \<or> (\<exists>v. ps_space st (ar_dest a) = Some v \<and> read_value a v)"
proof -
  from run have "parse_words consume_positionals args (start_state prog args) ws = Inr st"
    and none: "missing_arguments args st = []"
    by (auto simp: parse_known_def split: if_splits)
  with parse_words_typed [OF ok] have sp: "space_ok args st" by blast
  have seen: "ar_required a \<Longrightarrow> ar_dest a \<in> set (ps_seen st)"
    using none a by (auto simp: missing_arguments_def filter_empty_conv)
  have val: "\<exists>v. ps_space st (ar_dest a) = Some v \<and> value_ok args (ps_seen st) a v"
    if "ar_action a \<noteq> ShowHelp" using sp a that by (simp add: space_ok_def)
  show "ar_action a = StoreTrue \<Longrightarrow> \<exists>b. ps_space st (ar_dest a) = Some (Truth b)"
    using val by (auto simp: value_ok_def)
  show "ar_action a = Store \<Longrightarrow> \<not> ar_required a \<Longrightarrow> ar_strings a \<noteq> [] \<Longrightarrow>
      ps_space st (ar_dest a) = Some (ar_default a) \<or> (\<exists>v. ps_space st (ar_dest a) = Some v \<and> read_value a v)"
    using val by (auto simp: value_ok_def)
  show "ar_action a = Store \<Longrightarrow> ar_required a \<Longrightarrow>
      ar_strings a \<noteq> [] \<or> a = hd (positionals_of args) \<Longrightarrow>
      \<exists>v. ps_space st (ar_dest a) = Some v \<and> read_value a v"
    using val seen by (auto simp: value_ok_def)
  show "ar_action a = Store \<Longrightarrow> ar_required a \<Longrightarrow>
      ps_space st (ar_dest a) = Some NoWords \<or> (\<exists>v. ps_space st (ar_dest a) = Some v \<and> read_value a v)"
    using val seen by (auto simp: value_ok_def)
qed

section \<open>The top parser\<close>

text \<open>The namespace of a command line: that of the subcommand under its name, or the defaults.\<close>

definition top_done :: "parse_state \<Rightarrow> bool" where
  "top_done st \<longleftrightarrow>
     (\<exists>name args prog ws sub. map_of cli_parsers name = Some args \<and> parse_known prog args ws = Inr sub \<and>
        ps_space st = (defaults_of top_args)(lit ''command'' \<mapsto> Text name) ++ ps_space sub)"

definition top_state :: "marked list \<Rightarrow> parse_state \<Rightarrow> bool" where
  "top_state ws st \<longleftrightarrow>
     known_marks top_args ws \<and>
     (if ps_left st = [] then top_done st else ps_space st = defaults_of top_args)"

lemma top_done_extras [simp]: "top_done (st\<lparr>ps_extras := xs\<rparr>) = top_done st"
  by (simp add: top_done_def)

lemma run_command_rest: "run_command us st = Inr (ws', st') \<Longrightarrow> ws' = []"
  by (cases us) (auto split: option.splits)

lemma run_command_InrE:
  assumes "run_command us st = Inr (ws', st')" and "us \<noteq> []"
  obtains name vs args sub where "us = name # vs" and "map_of cli_parsers name = Some args"
    and "parse_known (ps_prog st @ 32 # name) args vs = Inr sub" and "ws' = []"
    and "st' = st\<lparr>ps_space := (ps_space st)(lit ''command'' \<mapsto> Text name) ++ ps_space sub, ps_left := [],
      ps_unrecognized := ps_extras sub\<rparr>"
  using assms by (cases us) (auto split: option.splits)

lemma consume_command_suffix: "consume_command ws st = Inr (ws', st') \<Longrightarrow> suffix ws' ws"
  by (auto simp: consume_command_def split: if_splits list.splits prod.splits mark.splits
      dest: run_command_rest)

interpretation subcommand_words: word_consumer consume_command
  by unfold_locales (rule consume_command_suffix)

lemma consume_command_top:
  assumes "top_state ws st" and "consume_command ws st = Inr (ws', st')"
  shows "top_state ws' st'"
proof (cases "ps_left st = [] \<or> (ws', st') = (ws, st)")
  case True
  with assms show ?thesis by (auto simp: consume_command_def split: if_splits)
next
  case False
  with assms(2) have "run_command (map fst ws) st = Inr (ws', st')" and "map fst ws \<noteq> []"
    by (auto simp: consume_command_def split: list.splits prod.splits mark.splits)
  then show ?thesis
  proof (cases rule: run_command_InrE)
    case (1 name vs args sub)
    from assms(1) False have "ps_space st = defaults_of top_args" by (auto simp: top_state_def split: if_splits)
    with 1(5) have "ps_space st' = (defaults_of top_args)(lit ''command'' \<mapsto> Text name) ++ ps_space sub"
      by simp
    with 1(2,3) have "top_done st'" unfolding top_done_def by blast
    with 1 show ?thesis by (simp add: top_state_def known_marks_def)
  qed
qed

lemma consume_optional_top:
  assumes "top_state ((w, IsOption oc) # ws) st" and run: "consume_optional oc w ws st = Inr (ws', st')"
  shows "top_state ws' st'"
proof (cases oc)
  case None
  with assms show ?thesis by (auto simp: consume_optional_def top_state_def known_marks_def)
next
  case (Some t)
  obtain a s e v where t: "t = (a, s, e, v)" by (cases t)
  with assms(1) Some have "a = help_option"
    by (auto simp: top_state_def known_marks_def top_args_def command_argument_def)
  with run Some t show ?thesis
    by (auto simp: consume_optional_def help_option_def split: option.splits if_splits)
qed

lemma skip_top:
  "top_state ws st \<Longrightarrow> list_ex is_option ws \<Longrightarrow>
   top_state (dropWhile (\<lambda>x. \<not> is_option x) ws)
     (st\<lparr>ps_extras := ps_extras st @ map fst (takeWhile (\<lambda>x. \<not> is_option x) ws)\<rparr>)"
  unfolding top_state_def by (auto intro: known_marks_suffix [OF suffix_dropWhile])

lemma parse_args_namespace:
  assumes "parse_args ws = Inr ns"
  shows "ns = defaults_of top_args \<or>
    (\<exists>name args prog us sub. map_of cli_parsers name = Some args \<and> parse_known prog args us = Inr sub \<and>
       ns = (defaults_of top_args)(lit ''command'' \<mapsto> Text name) ++ ps_space sub)"
proof -
  let ?st = "start_state prog_name top_args"
  from assms obtain ms rest su rest' st' where ms: "classify prog_name (options_of top_args) ws = Inr ms"
    and loop: "consume consume_command ms ?st = Inr (rest, su)"
    and final: "consume_command rest su = Inr (rest', st')" and ns: "ns = ps_space st'"
    by (auto simp: parse_args_def parse_words_def start_state_def Let_def split: if_splits)
  have "top_state ms ?st"
    using classify_known [OF ms] by (simp add: top_state_def start_state_def positionals_of_def
        top_args_def command_argument_def help_option_def)
  then have "top_state rest su"
  proof (rule subcommand_words.consume_invariant [where P = top_state, OF _ _ _ _ loop, rotated 3])
    show "top_state ((w, IsOption oc) # ws) st \<Longrightarrow> consume_optional oc w ws st = Inr (ws', st') \<Longrightarrow>
      top_state ws' st'" for oc w ws st ws' st' by (rule consume_optional_top)
    show "top_state ws st \<Longrightarrow> consume_command ws st = Inr (ws', st') \<Longrightarrow> top_state ws' st'"
      for ws st ws' st' by (rule consume_command_top)
  qed (rule skip_top)
  then have "top_state rest' st'" by (rule consume_command_top [OF _ final])
  then show ?thesis by (auto simp: ns top_state_def top_done_def split: if_splits)
qed

end
