(* ===== verification/Cli_Main.thy ===== *)
theory Cli_Main
  imports Cli_Props Cli_Typed
begin

text \<open>
  \<open>cli.main\<close> and \<open>cli.cli_entry\<close>: from the words of the command line to the command that runs, the
  exit status of the process and the files it can change. The wording of help texts, usage errors
  and tracebacks is a parameter.
\<close>

section \<open>The commands\<close>

datatype command =
    NoCommand
  | Capture "pystr option" bool
  | Analyze pystr bool "pystr option" "pystr option"
  | Baseline pystr pystr pystr
  | Report pystr bool "pystr option" "pystr option" "pystr option"
  | Redact pystr pystr
  | RedactNoPath pystr
  | UnknownCommand

text \<open>
  The command of a namespace. \<open>text_of\<close> is an attribute that the command puts into \<open>Path\<close>, which takes
  strings only, \<open>option_of\<close> one that may be \<open>None\<close>, \<open>flag_of\<close> the truth of one, \<open>attribute\<close> any; each raises
  when the attribute does not exist. \<open>option_or_none\<close> and \<open>flag_or_false\<close> are \<open>getattr\<close> with a default, which the
  code uses for the baseline and for the JSON flag of \<open>analyze\<close>. A command reads its attributes as
  it runs; here it raises before it starts. The key is read only when there is a baseline. The one
  value that is no string reaches \<open>redact\<close> as the name of its output, after the input has been loaded.
\<close>

definition text_of :: "namespace \<Rightarrow> string \<Rightarrow> pystr result" where
  "text_of ns k =
     (case ns (lit k) of
        None \<Rightarrow> Inl AttributeError
      | Some (Text s) \<Rightarrow> Inr s
      | Some _ \<Rightarrow> Inl TypeError)"

definition option_of :: "namespace \<Rightarrow> string \<Rightarrow> pystr option result" where
  "option_of ns k =
     (case ns (lit k) of
        None \<Rightarrow> Inl AttributeError
      | Some NoValue \<Rightarrow> Inr None
      | Some (Text s) \<Rightarrow> Inr (Some s)
      | Some _ \<Rightarrow> Inl TypeError)"

definition option_or_none :: "namespace \<Rightarrow> string \<Rightarrow> pystr option result" where
  "option_or_none ns k = (if ns (lit k) = None then Inr None else option_of ns k)"

fun truth_of :: "arg_value \<Rightarrow> bool" where
  "truth_of NoValue = False"
| "truth_of (Truth b) = b"
| "truth_of (Text s) = (s \<noteq> [])"
| "truth_of (Number i) = (i \<noteq> 0)"
| "truth_of NoWords = False"

definition attribute :: "namespace \<Rightarrow> string \<Rightarrow> arg_value result" where
  "attribute ns k = (case ns (lit k) of None \<Rightarrow> Inl AttributeError | Some v \<Rightarrow> Inr v)"

definition flag_of :: "namespace \<Rightarrow> string \<Rightarrow> bool result" where
  "flag_of ns k = bindE (attribute ns k) (\<lambda>v. Inr (truth_of v))"

definition flag_or_false :: "namespace \<Rightarrow> string \<Rightarrow> bool" where
  "flag_or_false ns k = (case ns (lit k) of None \<Rightarrow> False | Some v \<Rightarrow> truth_of v)"

definition verify_key_of :: "namespace \<Rightarrow> pystr option \<Rightarrow> pystr option result" where
  "verify_key_of ns baseline =
     (if given baseline then option_of ns ''verify_key'' else option_or_none ns ''verify_key'')"

definition command_of :: "namespace \<Rightarrow> command result" where
  "command_of ns =
     (if ns (lit ''command'') = Some NoValue then Inr NoCommand
      else bindE (text_of ns ''command'') (\<lambda>name.
      if name = lit ''capture'' then
        bindE (flag_of ns ''pretty'') (\<lambda>pretty.
        bindE (option_of ns ''out'') (\<lambda>out. Inr (Capture out pretty)))
      else if name = lit ''analyze'' then
        bindE (text_of ns ''snapshot'') (\<lambda>path.
        bindE (option_or_none ns ''baseline'') (\<lambda>baseline.
        bindE (verify_key_of ns baseline) (\<lambda>key.
        Inr (Analyze path (flag_or_false ns ''json'') baseline key))))
      else if name = lit ''baseline'' then
        bindE (text_of ns ''snapshot'') (\<lambda>path.
        bindE (text_of ns ''out'') (\<lambda>out.
        bindE (text_of ns ''sign_key'') (\<lambda>key. Inr (Baseline path out key))))
      else if name = lit ''report'' then
        bindE (text_of ns ''snapshot'') (\<lambda>path.
        bindE (option_or_none ns ''baseline'') (\<lambda>baseline.
        bindE (verify_key_of ns baseline) (\<lambda>key.
        bindE (attribute ns ''format'') (\<lambda>format.
        bindE (option_of ns ''out'') (\<lambda>out.
        Inr (Report path (format = Text (lit ''json'')) out baseline key))))))
      else if name = lit ''redact'' then
        bindE (text_of ns ''infile'') (\<lambda>infile.
        if ns (lit ''outfile'') = Some NoWords then Inr (RedactNoPath infile)
        else bindE (text_of ns ''outfile'') (\<lambda>outfile. Inr (Redact infile outfile)))
      else Inr UnknownCommand))"

section \<open>Every accepted command line is a command\<close>

lemma dest_of_strings [simp]:
  "dest_of (lit ''--out'') = lit ''out''" "dest_of (lit ''--pretty'') = lit ''pretty''"
  "dest_of (lit ''--json'') = lit ''json''" "dest_of (lit ''--baseline'') = lit ''baseline''"
  "dest_of (lit ''--verify-key'') = lit ''verify_key''"
  "dest_of (lit ''--sign-key'') = lit ''sign_key''" "dest_of (lit ''--format'') = lit ''format''"
  by (simp_all add: dest_of_def lit_def)

lemmas args_defs = capture_args_def analyze_args_def baseline_args_def report_args_def redact_args_def

lemmas argument_defs = help_option_def positional_def value_option_def flag_option_def

lemma parsers_ok:
  "map_of cli_parsers name = Some args \<Longrightarrow> parser_ok args \<and> lit ''command'' \<notin> ar_dest ` set args"
  by (auto simp: cli_parsers_def parser_ok_def args_defs argument_defs split: if_splits)

lemma parser_cases:
  assumes "map_of cli_parsers name = Some args"
  obtains "name = lit ''capture''" "args = capture_args" | "name = lit ''analyze''" "args = analyze_args"
    | "name = lit ''baseline''" "args = baseline_args" | "name = lit ''report''" "args = report_args"
    | "name = lit ''redact''" "args = redact_args"
  using assms by (auto simp: cli_parsers_def split: if_splits)

text \<open>The attributes that a command reads as strings are strings.\<close>

lemma text_of_required:
  assumes "parser_ok args" and "parse_known prog args ws = Inr sub" and "a \<in> set args"
    and "ar_action a = Store" "ar_required a" "ar_strings a \<noteq> [] \<or> a = hd (positionals_of args)"
    and "ar_dest a = lit k" and "\<not> ar_int a"
  shows "\<exists>s. text_of (ns ++ ps_space sub) k = Inr s"
  using parse_known_typed(3) [OF assms(1-6)] assms(7,8) by (auto simp: text_of_def map_add_def read_value_def)

text \<open>An option that may be absent is \<open>None\<close> or a string, a flag is a truth value.\<close>

lemma option_of_optional:
  assumes "parser_ok args" and "parse_known prog args ws = Inr sub" and "a \<in> set args"
    and "ar_action a = Store" "\<not> ar_required a" "ar_strings a \<noteq> []" and "ar_dest a = lit k"
    and "\<not> ar_int a" and "ar_default a = NoValue"
  shows "\<exists>v. option_of (ns ++ ps_space sub) k = Inr v"
    and "\<exists>v. option_or_none (ns ++ ps_space sub) k = Inr v"
proof -
  show "\<exists>v. option_of (ns ++ ps_space sub) k = Inr v"
    using parse_known_typed(2) [OF assms(1-6)] assms(7-9)
    by (auto simp: option_of_def map_add_def read_value_def)
  then show "\<exists>v. option_or_none (ns ++ ps_space sub) k = Inr v" by (auto simp: option_or_none_def)
qed

lemma attribute_of_optional:
  assumes "parser_ok args" and "parse_known prog args ws = Inr sub" and "a \<in> set args"
    and "ar_action a = Store" "\<not> ar_required a" "ar_strings a \<noteq> []" and "ar_dest a = lit k"
  shows "\<exists>v. attribute (ns ++ ps_space sub) k = Inr v"
  using parse_known_typed(2) [OF assms(1-6)] assms(7) by (auto simp: attribute_def map_add_def)

lemma flag_of_flag:
  assumes "parser_ok args" and "parse_known prog args ws = Inr sub" and "a \<in> set args"
    and "ar_action a = StoreTrue" and "ar_dest a = lit k"
  shows "\<exists>b. flag_of (ns ++ ps_space sub) k = Inr b"
  using parse_known_typed(1) [OF assms(1-4)] assms(5) by (auto simp: flag_of_def attribute_def map_add_def)

lemma verify_key_found:
  "option_of ns ''verify_key'' = Inr k \<Longrightarrow> verify_key_of ns b = Inr k"
  by (auto simp: verify_key_of_def option_or_none_def option_of_def)

lemma command_of_total:
  assumes "parse_args ws = Inr ns"
  shows "\<exists>c. command_of ns = Inr c \<and> c \<noteq> UnknownCommand"
  using parse_args_namespace [OF assms]
proof (elim disjE exE conjE)
  assume "ns = defaults_of top_args"
  then have "command_of ns = Inr NoCommand"
    by (simp add: command_of_def defaults_of_def top_args_def help_option_def command_argument_def)
  then show ?thesis by simp
next
  fix name args prog us sub
  assume p: "map_of cli_parsers name = Some args" and run: "parse_known prog args us = Inr sub"
    and ns: "ns = (defaults_of top_args)(lit ''command'' \<mapsto> Text name) ++ ps_space sub"
  note ok = conjunct1 [OF parsers_ok [OF p]]
  have "lit ''command'' \<notin> dom (ps_space sub)"
    using parse_known_dom [OF ok run] parsers_ok [OF p] by auto
  then have name: "ns (lit ''command'') = Some (Text name)" by (auto simp: ns map_add_def split: option.split)
  note required = text_of_required [OF ok run, of _ _ "(defaults_of top_args)(lit ''command'' \<mapsto> Text name)", folded ns]
  note any = parse_known_typed(4) [OF ok run]
  let ?ns = "(defaults_of top_args)(lit ''command'' \<mapsto> Text name)"
  note option = option_of_optional(1) [OF ok run, of _ _ ?ns, folded ns]
    and getattr = option_of_optional(2) [OF ok run, of _ _ ?ns, folded ns]
    and attr = attribute_of_optional [OF ok run, of _ _ ?ns, folded ns]
    and flag = flag_of_flag [OF ok run, of _ _ ?ns, folded ns]
  from p show ?thesis
  proof (cases rule: parser_cases)
    case 1
    have "\<exists>v. option_of ns ''out'' = Inr v" "\<exists>b. flag_of ns ''pretty'' = Inr b"
      by (rule option [of "value_option ''--out''"], simp_all add: 1 args_defs argument_defs)
         (rule flag [of "flag_option ''--pretty''"], simp_all add: 1 args_defs argument_defs)
    with name show ?thesis by (auto simp: command_of_def text_of_def 1)
  next
    case 2
    have "\<exists>v. option_or_none ns ''baseline'' = Inr v" "\<exists>v. option_of ns ''verify_key'' = Inr v"
      by (rule getattr [of "value_option ''--baseline''"], simp_all add: 2 args_defs argument_defs)
         (rule option [of "value_option ''--verify-key''"], simp_all add: 2 args_defs argument_defs)
    with 2 required [of "positional ''snapshot''" "''snapshot''"] name show ?thesis
      by (auto simp: command_of_def text_of_def [of _ "''command''"] args_defs argument_defs positionals_of_def
          verify_key_found)
  next
    case 3
    with required [of "positional ''snapshot''" "''snapshot''"]
      required [of "(value_option ''--out'')\<lparr>ar_required := True\<rparr>" "''out''"]
      required [of "(value_option ''--sign-key'')\<lparr>ar_required := True\<rparr>" "''sign_key''"] name
    show ?thesis
      by (auto simp: command_of_def text_of_def [of _ "''command''"] args_defs argument_defs positionals_of_def)
  next
    case 4
    have "\<exists>v. option_or_none ns ''baseline'' = Inr v" "\<exists>v. option_of ns ''verify_key'' = Inr v"
      "\<exists>v. option_of ns ''out'' = Inr v" "\<exists>v. attribute ns ''format'' = Inr v"
      by (rule getattr [of "value_option ''--baseline''"], simp_all add: 4 args_defs argument_defs)
         (rule option [of "value_option ''--verify-key''"], simp_all add: 4 args_defs argument_defs,
          rule option [of "value_option ''--out''"], simp_all add: 4 args_defs argument_defs,
          rule attr [of "(value_option ''--format'')\<lparr>ar_choices := Some [lit ''md'', lit ''json''],
             ar_default := Text (lit ''md'')\<rparr>"], simp_all add: 4 args_defs argument_defs)
    with 4 required [of "positional ''snapshot''" "''snapshot''"] name show ?thesis
      by (auto simp: command_of_def text_of_def [of _ "''command''"] args_defs argument_defs positionals_of_def
          verify_key_found)
  next
    case 5
    with any [of "positional ''outfile''"] have "ns (lit ''outfile'') = Some NoWords \<or>
        (\<exists>s. text_of ns ''outfile'' = Inr s)"
      by (auto simp: args_defs argument_defs ns map_add_def text_of_def read_value_def)
    with 5 required [of "positional ''infile''" "''infile''"] name show ?thesis
      by (auto simp: command_of_def text_of_def [of _ "''command''"] args_defs argument_defs positionals_of_def)
  qed
qed

text \<open>What a run takes from outside: the machine, the cryptography and the host of a capture.\<close>

record ('pk, 'sk) runtime =
  rt_platform :: platform
  rt_public_pem :: "int list \<Rightarrow> 'pk option result"
  rt_private_pem :: "int list \<Rightarrow> 'sk option result"
  rt_verify :: "'pk \<Rightarrow> int list \<Rightarrow> int list \<Rightarrow> bool"
  rt_sign :: "'sk \<Rightarrow> int list \<Rightarrow> int list"
  rt_calls :: host_calls
  rt_euid :: int
  rt_now :: datetime
  rt_uuid :: pystr
  rt_clock :: int
  rt_sources :: host_sources
  rt_help :: "pystr \<Rightarrow> pystr"
  rt_usage :: "pystr \<Rightarrow> usage_error \<Rightarrow> pystr"
  rt_traceback :: "py_error \<Rightarrow> pystr"

definition exit_ok :: int where "exit_ok = 0"
definition exit_error :: int where "exit_error = 1"
definition exit_usage :: int where "exit_usage = 2"

text \<open>\<open>cmd_redact\<close> when the name of the output is no string.\<close>

definition redact_no_path :: "platform \<Rightarrow> pystr \<Rightarrow> int act" where
  "redact_no_path pf infile =
     bindW (load_snapshot pf infile) (\<lambda>loaded.
     case loaded of
       None \<Rightarrow> lift (Inr 1)
     | Some (s, raw) \<Rightarrow>
         bindW (bindW (lift (redact_snapshot raw)) decode_snapshot) (\<lambda>_. lift (Inl TypeError)))"

definition dispatch :: "('pk, 'sk) runtime \<Rightarrow> command \<Rightarrow> int act" where
  "dispatch rt args =
     (let pf = rt_platform rt in
      case args of
        NoCommand \<Rightarrow> bindW (print_out (rt_help rt prog_name)) (\<lambda>_. lift (Inr exit_usage))
      | Capture out pretty \<Rightarrow>
          cmd_capture pf (rt_calls rt) (rt_euid rt) (rt_now rt) (rt_uuid rt) (rt_clock rt)
            (rt_sources rt) out pretty
      | Analyze path as_json baseline verify_key \<Rightarrow>
          cmd_analyze pf (rt_public_pem rt) (rt_verify rt) path as_json baseline verify_key
      | Baseline path out sign_key \<Rightarrow>
          cmd_baseline pf (rt_private_pem rt) (rt_sign rt) path out sign_key
      | Report path as_json out baseline verify_key \<Rightarrow>
          cmd_report pf (rt_public_pem rt) (rt_verify rt) path as_json out baseline verify_key
      | Redact infile outfile \<Rightarrow> cmd_redact pf infile outfile
      | RedactNoPath infile \<Rightarrow> redact_no_path pf infile
      | UnknownCommand \<Rightarrow> lift (Inr exit_usage))"

text \<open>
  \<open>main\<close> returns an exit code, or argparse ends the program with one: \<open>0\<close> after help, \<open>2\<close> after a
  usage error. \<open>cli_entry\<close> makes it the status of the process; after an exception that nobody caught,
  the interpreter prints a traceback and ends with \<open>1\<close>.
\<close>

datatype outcome = Returns int | Exits int

definition main :: "('pk, 'sk) runtime \<Rightarrow> pystr list \<Rightarrow> outcome act" where
  "main rt argv =
     (case parse_args argv of
        Inl (HelpShown prog) \<Rightarrow> bindW (print_out (rt_help rt prog)) (\<lambda>_. lift (Inr (Exits 0)))
      | Inl (UsageError prog e) \<Rightarrow> bindW (print_err (rt_usage rt prog e)) (\<lambda>_. lift (Inr (Exits 2)))
      | Inr ns \<Rightarrow>
          bindW (lift (command_of ns)) (\<lambda>args.
          bindW (dispatch rt args) (\<lambda>n. lift (Inr (Returns n)))))"

definition cli_entry :: "('pk, 'sk) runtime \<Rightarrow> pystr list \<Rightarrow> world \<Rightarrow> int \<times> world" where
  "cli_entry rt argv w =
     (case main rt argv w of
        (Inr (Returns n), v) \<Rightarrow> (n, v)
      | (Inr (Exits n), v) \<Rightarrow> (n, v)
      | (Inl e, v) \<Rightarrow> (1, snd (print_err (rt_traceback rt e) v)))"

section \<open>Effects and results of an action\<close>

text \<open>Files outside \<open>S\<close> stay as they are, and a value that is returned satisfies \<open>V\<close>.\<close>

definition stays :: "pystr set \<Rightarrow> ('a \<Rightarrow> bool) \<Rightarrow> 'a act \<Rightarrow> bool" where
  "stays S V m \<longleftrightarrow>
     (\<forall>w. (\<forall>p. p \<notin> S \<longrightarrow> wd_files (snd (m w)) p = wd_files w p) \<and>
        (\<forall>x. fst (m w) = Inr x \<longrightarrow> V x))"

lemma staysI:
  assumes "\<And>w p. p \<notin> S \<Longrightarrow> wd_files (snd (m w)) p = wd_files w p"
    and "\<And>w x. fst (m w) = Inr x \<Longrightarrow> V x"
  shows "stays S V m"
  using assms by (simp add: stays_def)

lemma staysD:
  "stays S V m \<Longrightarrow> p \<notin> S \<Longrightarrow> wd_files (snd (m w)) p = wd_files w p"
  "stays S V m \<Longrightarrow> fst (m w) = Inr x \<Longrightarrow> V x"
  by (simp_all add: stays_def)

lemma stays_lift: "(\<And>x. r = Inr x \<Longrightarrow> V x) \<Longrightarrow> stays S V (lift r)"
  unfolding stays_def by (auto simp: lift_def)

lemma stays_print:
  "V () \<Longrightarrow> stays S V (print_out t)" "V () \<Longrightarrow> stays S V (print_err t)"
  "V () \<Longrightarrow> stays S V (print_line t)" "V () \<Longrightarrow> stays S V (print_lines ls)"
  by (rule staysI; simp add: print_line_def print_lines_def)+

lemma stays_reads: "reads_only m \<Longrightarrow> stays S (\<lambda>_. True) m"
proof (rule staysI)
  fix w p
  assume m: "reads_only m"
  obtain r u where "m w = (r, u)" by (cases "m w")
  with reads_onlyD(1) [OF m this] show "wd_files (snd (m w)) p = wd_files w p" by simp
qed simp

lemma stays_bind:
  assumes m: "stays S U m" and f: "\<And>x. U x \<Longrightarrow> stays S V (f x)"
  shows "stays S V (bindW m f)"
proof (rule staysI)
  fix w p
  assume p: "p \<notin> S"
  obtain r v where r: "m w = (r, v)" by (cases "m w")
  with m p have v: "wd_files v p = wd_files w p" by (metis staysD(1) snd_conv)
  show "wd_files (snd (bindW m f w)) p = wd_files w p"
  proof (cases r)
    case (Inr x)
    with m r have "U x" by (metis staysD(2) fst_conv)
    from staysD(1) [OF f [OF this] p, of v] v r Inr show ?thesis by simp
  qed (use r v in simp)
next
  fix w y
  assume y: "fst (bindW m f w) = Inr y"
  obtain r v where r: "m w = (r, v)" by (cases "m w")
  with y obtain x where x: "r = Inr x" by (cases r) auto
  with m r have "U x" by (metis staysD(2) fst_conv)
  from staysD(2) [OF f [OF this]] y r x show "V y" by simp
qed

lemma stays_attempt: "stays S U m \<Longrightarrow> (\<And>r. (\<And>x. r = Inr x \<Longrightarrow> U x) \<Longrightarrow> V r) \<Longrightarrow> stays S V (attempt m)"
proof (rule staysI)
  fix w p
  assume m: "stays S U m" and "p \<notin> S"
  from staysD(1) [OF this, of w] show "wd_files (snd (attempt m w)) p = wd_files w p"
    by (cases "m w") simp
next
  fix w r
  assume m: "stays S U m" and V: "\<And>r. (\<And>x. r = Inr x \<Longrightarrow> U x) \<Longrightarrow> V r"
    and r: "fst (attempt m w) = Inr r"
  from r have "fst (m w) = r" by (cases "m w") simp
  then show "V r" using V staysD(2) [OF m, of w] by auto
qed

lemma stays_if: "(b \<Longrightarrow> stays S V m) \<Longrightarrow> (\<not> b \<Longrightarrow> stays S V m') \<Longrightarrow> stays S V (if b then m else m')"
  by simp

lemma stays_write:
  "p \<in> S \<Longrightarrow> stays S (\<lambda>_. True) (write_bytes pf p bs)"
  "p \<in> S \<Longrightarrow> stays S (\<lambda>_. True) (write_text pf p t)"
proof -
  show b: "p \<in> S \<Longrightarrow> stays S (\<lambda>_. True) (write_bytes pf p bs)" for bs
    by (rule staysI) (auto simp: write_bytes_def store_def split: option.split)
  show "p \<in> S \<Longrightarrow> stays S (\<lambda>_. True) (write_text pf p t)"
    unfolding write_text_def by (intro stays_bind [OF b] stays_bind [OF stays_lift, of _ "\<lambda>_. True"] b) simp_all
qed

lemma stays_mkdir: "stays S (\<lambda>_. True) (mkdir_parents pf p)"
  unfolding mkdir_parents_def by (rule stays_lift) simp

text \<open>The rules that the commands need: every intermediate value is arbitrary.\<close>

lemma stays_seq: "stays S (\<lambda>_. True) m \<Longrightarrow> (\<And>x. stays S V (f x)) \<Longrightarrow> stays S V (bindW m f)"
  by (rule stays_bind)

lemma stays_try: "stays S (\<lambda>_. True) m \<Longrightarrow> stays S (\<lambda>_. True) (attempt m)"
  by (auto intro: stays_attempt)

lemma stays_any: "stays S (\<lambda>_. True) (lift r)"
  by (rule stays_lift) simp

lemma stays_reads_only [intro]:
  "stays S (\<lambda>_. True) (load_snapshot pf p)"
  "stays S (\<lambda>_. True) (load_verified_baseline pf pem verify b k)"
  "stays S (\<lambda>_. True) (parse_file pf p)" "stays S (\<lambda>_. True) (decode_snapshot d)"
  "stays S (\<lambda>_. True) (load_key kind pf pem' p)" "stays S (\<lambda>_. True) (read_text pf p)"
  by (simp_all add: stays_reads)

lemmas stays_rules = stays_seq stays_try stays_if stays_any stays_print stays_write stays_mkdir
  stays_reads_only

lemma stays_value: "V x \<Longrightarrow> stays S V (lift (Inr x))" "stays S V (lift (Inl e))"
  by (rule stays_lift; simp)+

section \<open>Exit codes and files of each command\<close>

lemma stays_print_notes: "stays S (\<lambda>_. True) (print_notes ns)"
proof (induction ns)
  case (Cons n ns)
  show ?case unfolding print_notes.simps by (intro stays_rules Cons.IH) simp_all
qed (simp only: print_notes.simps stays_any)

lemma exit_of_cases: "exit_of fs \<in> {0, 3}"
  by (simp add: exit_of_def)

lemma exit_of_only: "exit_of fs \<noteq> 0 \<Longrightarrow> exit_of fs \<noteq> 3 \<Longrightarrow> P"
  by (simp add: exit_of_def split: if_splits)

lemma stays_present: "stays S (\<lambda>n. n \<in> {0, 3}) (present as_json fs ns)"
  unfolding present_def
  by (intro stays_seq stays_if stays_print stays_print_notes stays_value exit_of_cases) simp_all

lemma analyze_stays: "stays S (\<lambda>n. n \<in> {0, 1, 3}) (cmd_analyze pf pem verify p as_json b k)"
proof -
  have p: "stays S (\<lambda>n. n = 0 \<or> n = 1 \<or> n = 3) (present b fs ns)" for b fs ns
    using stays_present [of S b fs ns] by (auto simp: stays_def)
  show ?thesis
    unfolding cmd_analyze_def
    by (intro stays_seq stays_reads_only) (auto intro!: stays_rules stays_value p split: option.split sum.split)
qed

lemma report_stays:
  "stays (if given out then {path_text (the out)} else {}) (\<lambda>n. n \<in> {0, 1, 3})
     (cmd_report pf pem verify p as_json out b k)"
  unfolding cmd_report_def Let_def
  by (intro stays_seq stays_reads_only) (auto elim!: exit_of_only intro!: stays_rules stays_value split: option.split sum.split)

lemma redact_stays: "stays {path_text outfile} (\<lambda>n. n \<in> {0, 1}) (cmd_redact pf infile outfile)"
  unfolding cmd_redact_def
  by (intro stays_seq stays_reads_only) (auto intro!: stays_rules stays_value split: option.split sum.split)

lemma redact_no_path_stays: "stays S (\<lambda>n. n \<in> {1}) (redact_no_path pf infile)"
  unfolding redact_no_path_def
  by (intro stays_seq stays_reads_only) (auto intro!: stays_rules stays_value split: option.split)

lemma baseline_stays:
  "stays {path_text out, sig_path (path_text out)} (\<lambda>n. n \<in> {0, 1})
     (cmd_baseline pf pem sign p out k)"
  unfolding cmd_baseline_def write_baseline_def load_private_key_def Let_def
  by (auto intro!: stays_rules stays_value split: sum.split)

lemma capture_stays:
  "stays (if out = Some (lit ''-'') then {} else {capture_path out now host | host. True}) (\<lambda>n. n = 0)
     (cmd_capture pf hc euid now uuid ms h out pretty)"
  unfolding cmd_capture_def gather_def
  by (auto intro!: stays_rules stays_value)

section \<open>What each command can return and change\<close>

text \<open>The files a command may change, and the exit codes it may return.\<close>

definition written_files :: "('pk, 'sk) runtime \<Rightarrow> command \<Rightarrow> pystr set" where
  "written_files rt args =
     (case args of
        Capture out _ \<Rightarrow>
          if out = Some (lit ''-'') then {} else {capture_path out (rt_now rt) host | host. True}
      | Baseline _ out _ \<Rightarrow> {path_text out, sig_path (path_text out)}
      | Report _ _ out _ _ \<Rightarrow> if given out then {path_text (the out)} else {}
      | Redact _ outfile \<Rightarrow> {path_text outfile}
      | _ \<Rightarrow> {})"

fun exit_codes :: "command \<Rightarrow> int set" where
  "exit_codes NoCommand = {2}"
| "exit_codes (Capture _ _) = {0}"
| "exit_codes (Analyze _ _ _ _) = {0, 1, 3}"
| "exit_codes (Baseline _ _ _) = {0, 1}"
| "exit_codes (Report _ _ _ _ _) = {0, 1, 3}"
| "exit_codes (Redact _ _) = {0, 1}"
| "exit_codes (RedactNoPath _) = {1}"
| "exit_codes UnknownCommand = {2}"

text \<open>
  A command that returns has one of these exit codes. Whatever happens, also when it raises, only the
  files it was asked to write have changed.
\<close>

theorem exit_codes_and_files:
  "(case fst (dispatch rt args w) of Inl _ \<Rightarrow> True | Inr n \<Rightarrow> n \<in> exit_codes args) \<and>
   (p \<in> written_files rt args \<or> wd_files (snd (dispatch rt args w)) p = wd_files w p)"
proof -
  have "stays (written_files rt args) (\<lambda>n. n \<in> exit_codes args) (dispatch rt args)"
  proof (cases args)
    case NoCommand
    then show ?thesis
      by (auto simp: dispatch_def written_files_def exit_usage_def intro!: stays_rules stays_value)
  next
    case (Capture out pretty)
    then show ?thesis using capture_stays by (simp add: dispatch_def written_files_def)
  next
    case (Analyze path as_json b k)
    then show ?thesis using analyze_stays by (simp add: dispatch_def written_files_def)
  next
    case (Baseline path out k)
    then show ?thesis using baseline_stays by (simp add: dispatch_def written_files_def)
  next
    case (Report path as_json out b k)
    then show ?thesis
      using report_stays [of out "rt_platform rt" "rt_public_pem rt" "rt_verify rt" path as_json b k] by (simp add: dispatch_def written_files_def)
  next
    case (Redact infile outfile)
    then show ?thesis using redact_stays by (simp add: dispatch_def written_files_def)
  next
    case (RedactNoPath infile)
    then show ?thesis using redact_no_path_stays by (simp add: dispatch_def written_files_def)
  next
    case UnknownCommand
    then show ?thesis by (auto simp: dispatch_def written_files_def exit_usage_def intro!: stays_value)
  qed
  then show ?thesis unfolding stays_def by (auto split: sum.split)
qed

section \<open>Exit status and files of the process\<close>

text \<open>
  The possible exit statuses of a command line, and the files it may change. An exception that no
  command caught gives the status \<open>1\<close>.
\<close>

definition statuses :: "pystr list \<Rightarrow> int set" where
  "statuses argv =
     (case parse_args argv of
        Inl (HelpShown _) \<Rightarrow> {0}
      | Inl (UsageError _ _) \<Rightarrow> {2}
      | Inr ns \<Rightarrow>
          (case command_of ns of
             Inl _ \<Rightarrow> {}
           | Inr NoCommand \<Rightarrow> {2}
           | Inr c \<Rightarrow> insert 1 (exit_codes c)))"

definition may_change :: "('pk, 'sk) runtime \<Rightarrow> pystr list \<Rightarrow> pystr set" where
  "may_change rt argv =
     (case parse_args argv of
        Inl _ \<Rightarrow> {}
      | Inr ns \<Rightarrow> (case command_of ns of Inl _ \<Rightarrow> {} | Inr c \<Rightarrow> written_files rt c))"

lemma main_command:
  "parse_args argv = Inr ns \<Longrightarrow> command_of ns = Inr c \<Longrightarrow>
   cli_entry rt argv w =
     (case dispatch rt c w of
        (Inr n, v) \<Rightarrow> (n, v)
      | (Inl e, v) \<Rightarrow> (1, snd (print_err (rt_traceback rt e) v)))"
  by (auto simp: cli_entry_def main_def bindW_def lift_def split: prod.split sum.split)

lemma statuses_command:
  "c \<noteq> NoCommand \<Longrightarrow> parse_args argv = Inr ns \<Longrightarrow> command_of ns = Inr c \<Longrightarrow>
   statuses argv = insert 1 (exit_codes c)"
  by (cases c) (simp_all add: statuses_def)

text \<open>
  C8: The process ends with a status from 0 to 3: 0 after help, 2 exactly after a usage error or
  without a command, 3 only from \<open>analyze\<close> and \<open>report\<close>, 1 after an error or an uncaught exception, and
  a \<open>capture\<close> that raises nothing has status 0. Whatever happens, only the files that the command
  line named for output, or the generated name of a capture, have changed; \<open>analyze\<close>, help and a usage
  error change none.
\<close>

theorem process_status:
  "case cli_entry rt argv w of (n, v) \<Rightarrow>
     n \<in> statuses argv \<and> (p \<in> may_change rt argv \<or> wd_files v p = wd_files w p)"
proof (cases "parse_args argv")
  case (Inl h)
  then show ?thesis
    by (cases h) (simp_all add: cli_entry_def main_def statuses_def print_out_def print_err_def
        bindW_def lift_def)
next
  case (Inr ns)
  then obtain c where c: "command_of ns = Inr c" using command_of_total by blast
  note run = main_command [OF Inr c, of rt w] and ends = exit_codes_and_files [where rt = rt and args = c and w = w and p = p]
  obtain r v where d: "dispatch rt c w = (r, v)" by (cases "dispatch rt c w")
  show ?thesis
  proof (cases "c = NoCommand")
    case True
    with run show ?thesis
      by (auto simp: statuses_def Inr c dispatch_def print_out_def bindW_def lift_def exit_usage_def)
  next
    case False
    from run ends d statuses_command [OF False Inr c] show ?thesis
      by (cases r) (auto simp: may_change_def Inr c print_err_def)
  qed
qed


end
