(* ===== verification/Cli_Line.thy ===== *)
theory Cli_Line
  imports Cli_Main
begin

text \<open>
  Every command can be given on a command line, whatever the names of its files: options with their
  values in the same word, positional arguments after \<open>--\<close>.
\<close>

section \<open>Words that the parsers recognize\<close>

text \<open>\<open>--out=value\<close>\<close>

definition joined :: "string \<Rightarrow> pystr \<Rightarrow> pystr" where
  "joined s v = lit s @ 61 # v"

definition joined_option :: "string \<Rightarrow> pystr option \<Rightarrow> pystr list" where
  "joined_option s v = (case v of None \<Rightarrow> [] | Some v \<Rightarrow> [joined s v])"

definition flag_word :: "string \<Rightarrow> bool \<Rightarrow> pystr list" where
  "flag_word s b = (if b then [lit s] else [])"

lemma split_once_joined: "61 \<notin> set s \<Longrightarrow> split_once 61 (s @ 61 # v) = Some (s, v)"
  by (induction s) auto

lemma parse_optional_joined:
  assumes "61 \<notin> set (lit s)" and "lit s = 45 # t" and "\<forall>x \<in> set opts. 61 \<notin> set (fst x)"
    and "map_of opts (lit s) = Some a"
  shows "parse_optional prog opts (joined s v) = Inr (Some (Some (a, lit s, True, Some v)))"
proof -
  have "map_of opts (joined s v) = None"
    using assms(3) by (force simp: map_of_eq_None_iff joined_def)
  with assms show ?thesis
    by (simp add: parse_optional_def joined_def partition_eq_def split_once_joined)
qed

lemma parse_optional_known_word:
  "map_of opts w = Some a \<Longrightarrow> w = 45 # t \<Longrightarrow>
   parse_optional prog opts w = Inr (Some (Some (a, w, False, None)))"
  by (simp add: parse_optional_def)

section \<open>The top parser\<close>

text \<open>The top parser recognizes its option for help at most; it refuses no word by itself.\<close>

lemma top_options: "options_of top_args = [(lit ''-h'', help_option), (lit ''--help'', help_option)]"
  by (simp add: options_of_def top_args_def help_option_def command_argument_def)

lemma top_tuples:
  assumes "w = 45 # d # r"
  shows "length (option_tuples (options_of top_args) w) \<le> 1"
proof (cases "d = 45")
  case True
  then obtain t where "fst (partition_eq w) = 45 # 45 # t"
    by (cases "split_once 61 r") (auto simp: assms partition_eq_def)
  with True show ?thesis
    by (auto simp: assms option_tuples_def top_options startswith_def lit_def split: prod.split)
next
  case False
  then show ?thesis
    by (auto simp: assms option_tuples_def top_options startswith_def lit_def)
qed

lemma top_parse_optional: "\<exists>t. parse_optional prog (options_of top_args) w = Inr t"
proof (cases "\<exists>d r. w = 45 # d # r")
  case True
  then have "length (option_tuples (options_of top_args) w) \<le> 1" using top_tuples by blast
  then show ?thesis
    by (cases "option_tuples (options_of top_args) w")
      (auto simp: parse_optional_def split: option.split prod.split)
next
  case False
  then have "w = [] \<or> hd w \<noteq> 45 \<or> length w = 1" by (cases w; cases "tl w") auto
  then show ?thesis by (auto simp: parse_optional_def split: option.split)
qed

lemma top_classify: "\<exists>ms. classify prog (options_of top_args) ws = Inr ms"
proof (induction ws)
  case (Cons w ws)
  then obtain ms where "classify prog (options_of top_args) ws = Inr ms" by blast
  moreover obtain t where "parse_optional prog (options_of top_args) w = Inr t"
    using top_parse_optional by blast
  ultimately show ?case by simp
qed simp

text \<open>A command line that starts with a word that is no option hands the rest to that subcommand.\<close>

lemma parse_args_command:
  assumes name: "hd name \<noteq> 45" "name \<noteq> []" and p: "map_of cli_parsers name = Some args"
    and run: "parse_known (prog_name @ 32 # name) args ws = Inr sub" and extras: "ps_extras sub = []"
  shows "parse_args (name # ws) =
    Inr ((defaults_of top_args)(lit ''command'' \<mapsto> Text name) ++ ps_space sub)"
proof -
  let ?st = "start_state prog_name top_args"
  let ?sub = "?st\<lparr>ps_space := (ps_space ?st)(lit ''command'' \<mapsto> Text name) ++ ps_space sub,
      ps_left := [], ps_unrecognized := ps_extras sub\<rparr>"
  obtain ms where ms: "classify prog_name (options_of top_args) ws = Inr ms" using top_classify by blast
  have no: "name \<noteq> dashes" using name by (auto simp: dashes_def lit_def)
  have all: "classify prog_name (options_of top_args) (name # ws) = Inr ((name, IsArg) # ms)"
    using name no ms by (simp add: parse_optional_def)
  have words: "map fst ms = ws" using classify_words [OF ms] .
  have left: "ps_left ?st \<noteq> []"
    by (simp add: start_state_def positionals_of_def top_args_def command_argument_def)
  have prog: "ps_prog ?st = prog_name" by (simp add: start_state_def)
  have cmd: "consume_command ((name, IsArg) # ms) ?st = Inr ([], ?sub)"
    using left by (simp add: consume_command_def words p prog run)
  have final: "consume_command [] ?sub = Inr ([], ?sub)" by (simp add: consume_command_def)
  have same: "?sub\<lparr>ps_extras := ps_extras ?sub @ []\<rparr> = ?sub" by (simp add: start_state_def)
  have "parse_words consume_command top_args ?st (name # ws) = Inr ?sub"
  proof (cases "list_ex is_option ((name, IsArg) # ms)")
    case True
    then have "consume consume_command ((name, IsArg) # ms) ?st = Inr ([], ?sub)"
      by (simp add: consume_other cmd del: consume.simps) simp
    with final same show ?thesis
      by (simp add: parse_words_def all prog del: consume.simps classify.simps)
  next
    case False
    with cmd same show ?thesis
      by (simp add: parse_words_def all prog consume_done del: consume.simps classify.simps)
  qed
  then show ?thesis by (simp add: parse_args_def extras start_state_def)
qed

section \<open>The words of a command\<close>

fun command_words :: "command \<Rightarrow> pystr list" where
  "command_words NoCommand = []"
| "command_words (Capture out pretty) =
     lit ''capture'' # joined_option ''--out'' out @ flag_word ''--pretty'' pretty"
| "command_words (Analyze path as_json baseline key) =
     lit ''analyze'' # flag_word ''--json'' as_json @ joined_option ''--baseline'' baseline @
       joined_option ''--verify-key'' key @ [dashes, path]"
| "command_words (Baseline path out key) =
     [lit ''baseline'', joined ''--out'' out, joined ''--sign-key'' key, dashes, path]"
| "command_words (Report path as_json out baseline key) =
     lit ''report'' # joined ''--format'' (if as_json then lit ''json'' else lit ''md'') #
       joined_option ''--out'' out @ joined_option ''--baseline'' baseline @
       joined_option ''--verify-key'' key @ [dashes, path]"
| "command_words (Redact infile outfile) = [lit ''redact'', dashes, infile, outfile]"
| "command_words (RedactNoPath infile) = [lit ''redact'', dashes, infile, dashes]"
| "command_words UnknownCommand = []"

section \<open>Words that are options\<close>

text \<open>
  An item is a word together with what the parser makes of it: an option with its value in the same
  word, or a flag. Items take effect from left to right.
\<close>

type_synonym item = "pystr \<times> argument \<times> pystr \<times> bool \<times> pystr option"

fun item_ok :: "pystr \<Rightarrow> argument list \<Rightarrow> item \<Rightarrow> bool" where
  "item_ok prog args (w, a, s, e, v) \<longleftrightarrow>
     w \<noteq> dashes \<and> parse_optional prog (options_of args) w = Inr (Some (Some (a, s, e, v))) \<and>
     ar_action a = (if v = None then StoreTrue else Store)"

fun take_items :: "item list \<Rightarrow> parse_state \<Rightarrow> halt + parse_state" where
  "take_items [] st = Inr st"
| "take_items ((w, a, s, e, v) # items) st =
     (case v of
        None \<Rightarrow> take_items items (take_flag a st)
      | Some x \<Rightarrow> bindH (take_value a [x] st) (take_items items))"

lemma bindH_bindH: "bindH (bindH r f) g = bindH r (\<lambda>x. bindH (f x) g)"
  by (cases r) simp_all

lemma bindH_Inr [simp]: "bindH r Inr = r"
  by (cases r) simp_all

lemma take_items_append: "take_items (xs @ ys) st = bindH (take_items xs st) (take_items ys)"
  by (induction xs st rule: take_items.induct)
    (auto simp: bindH_bindH split: option.split intro: bindH_cong)

lemma classify_items:
  "list_all (item_ok prog args) items \<Longrightarrow>
   classify prog (options_of args) (map fst items @ ws) =
     bindH (classify prog (options_of args) ws) (\<lambda>ms.
     Inr (map (\<lambda>(w, t). (w, IsOption (Some t))) items @ ms))"
  by (induction items) (auto simp: bindH_bindH)

lemma consume_items:
  "list_all (item_ok prog args) items \<Longrightarrow>
   consume pos (map (\<lambda>(w, t). (w, IsOption (Some t))) items @ ms) st =
     bindH (take_items items st) (consume pos ms)"
proof (induction items arbitrary: st)
  case (Cons i items)
  obtain w a s e v where i: "i = (w, a, s, e, v)" by (cases i)
  show ?case
  proof (cases v)
    case None
    with Cons i show ?thesis
      by (simp add: consume_option consume_optional_def del: consume.simps)
  next
    case (Some x)
    with Cons i show ?thesis
      by (simp add: consume_option consume_optional_def bindH_bindH del: consume.simps)
  qed
qed simp

text \<open>The words of a command: items, then the positional arguments behind \<open>--\<close>.\<close>

definition behind :: "pystr list \<Rightarrow> pystr list" where
  "behind ps = (if ps = [] then [] else dashes # ps)"

definition behind_marks :: "pystr list \<Rightarrow> marked list" where
  "behind_marks ps = (if ps = [] then [] else (dashes, IsDashes) # map (\<lambda>w. (w, IsArg)) ps)"

lemma parse_items:
  assumes "list_all (item_ok (ps_prog st) args) items"
  shows "parse_words consume_positionals args st (map fst items @ behind ps) =
    bindH (take_items items st) (\<lambda>st'.
    bindH (consume_positionals (behind_marks ps) st') (\<lambda>(rest, su).
    Inr (su\<lparr>ps_extras := ps_extras su @ map fst rest\<rparr>)))"
proof -
  have tail: "classify prog opts (behind ps) = Inr (behind_marks ps)" for prog opts
    by (simp add: behind_def behind_marks_def)
  have none: "consume consume_positionals (behind_marks ps) = (\<lambda>st'. Inr (behind_marks ps, st'))"
    by (rule ext, rule consume_done) (auto simp: behind_marks_def list_ex_iff)
  show ?thesis
    by (simp add: parse_words_def classify_items [OF assms] consume_items [OF assms] tail none
        bindH_bindH del: consume.simps)
qed

section \<open>Options with and without a value\<close>

definition store_given :: "pystr \<Rightarrow> pystr option \<Rightarrow> parse_state \<Rightarrow> parse_state" where
  "store_given d v st =
     (case v of
        None \<Rightarrow> st
      | Some x \<Rightarrow> st\<lparr>ps_seen := ps_seen st @ [d], ps_space := (ps_space st)(d \<mapsto> Text x)\<rparr>)"

definition store_flag :: "pystr \<Rightarrow> bool \<Rightarrow> parse_state \<Rightarrow> parse_state" where
  "store_flag d b st =
     (if b then st\<lparr>ps_seen := ps_seen st @ [d], ps_space := (ps_space st)(d \<mapsto> Truth True)\<rparr> else st)"

lemma store_simps [simp]:
  "ps_space (store_given d v st) k = (if k = d \<and> v \<noteq> None then Some (Text (the v)) else ps_space st k)"
  "ps_space (store_flag d b st) k = (if k = d \<and> b then Some (Truth True) else ps_space st k)"
  "set (ps_seen (store_given d v st)) = (if v = None then {} else {d}) \<union> set (ps_seen st)"
  "set (ps_seen (store_flag d b st)) = (if b then {d} else {}) \<union> set (ps_seen st)"
  "ps_left (store_given d v st) = ps_left st" "ps_left (store_flag d b st) = ps_left st"
  "ps_extras (store_given d v st) = ps_extras st" "ps_extras (store_flag d b st) = ps_extras st"
  "ps_prog (store_given d v st) = ps_prog st" "ps_prog (store_flag d b st) = ps_prog st"
  by (auto simp: store_given_def store_flag_def split: option.split)

definition option_items :: "argument \<Rightarrow> string \<Rightarrow> pystr option \<Rightarrow> item list" where
  "option_items a s v =
     (case v of None \<Rightarrow> [] | Some x \<Rightarrow> [(joined s x, a, lit s, True, Some x)])"

definition flag_items :: "argument \<Rightarrow> string \<Rightarrow> bool \<Rightarrow> item list" where
  "flag_items a s b = (if b then [(lit s, a, lit s, False, None)] else [])"

lemma item_words:
  "map fst (option_items a s v) = joined_option s v" "map fst (flag_items a s b) = flag_word s b"
  by (simp_all add: option_items_def joined_option_def flag_items_def flag_word_def split: option.split)

lemma take_option_items:
  "ar_strings a \<noteq> [] \<Longrightarrow> \<not> ar_int a \<Longrightarrow> (\<And>cs x. ar_choices a = Some cs \<Longrightarrow> v = Some x \<Longrightarrow> x \<in> set cs) \<Longrightarrow>
   take_items (option_items a s v) st = Inr (store_given (ar_dest a) v st)"
  by (auto simp: option_items_def take_value_def store_given_def split: option.splits)

lemma take_free_option:
  "ar_strings a \<noteq> [] \<Longrightarrow> \<not> ar_int a \<Longrightarrow> ar_choices a = None \<Longrightarrow>
   take_items (option_items a s v) st = Inr (store_given (ar_dest a) v st)"
  by (rule take_option_items) simp_all

lemma take_flag_items: "take_items (flag_items a s b) st = Inr (store_flag (ar_dest a) b st)"
  by (simp add: flag_items_def take_flag_def store_flag_def)

lemma joined_not_dashes: "joined s v \<noteq> dashes"
  by (cases s; cases "tl s") (auto simp: joined_def dashes_def lit_def)

text \<open>Rows of the table of a parser, as its options are read.\<close>

definition option_row :: "argument list \<Rightarrow> string \<Rightarrow> argument \<Rightarrow> bool" where
  "option_row args s a \<longleftrightarrow>
     take 1 (lit s) = [45] \<and> 61 \<notin> set (lit s) \<and> list_all (\<lambda>x. 61 \<notin> set (fst x)) (options_of args) \<and>
     map_of (options_of args) (lit s) = Some a \<and> ar_action a = Store"

definition flag_row :: "argument list \<Rightarrow> string \<Rightarrow> argument \<Rightarrow> bool" where
  "flag_row args s a \<longleftrightarrow>
     take 1 (lit s) = [45] \<and> lit s \<noteq> dashes \<and> map_of (options_of args) (lit s) = Some a \<and>
     ar_action a = StoreTrue"

lemma option_items_ok:
  assumes "option_row args s a"
  shows "list_all (item_ok prog args) (option_items a s v)"
proof -
  from assms obtain t where "lit s = 45 # t" by (cases "lit s") (auto simp: option_row_def)
  with assms parse_optional_joined [of s t "options_of args" a] show ?thesis
    by (auto simp: option_row_def option_items_def joined_not_dashes list_all_iff split: option.split)
qed

lemma flag_items_ok:
  assumes "flag_row args s a"
  shows "list_all (item_ok prog args) (flag_items a s b)"
proof -
  from assms obtain t where "lit s = 45 # t" by (cases "lit s") (auto simp: flag_row_def)
  with assms parse_optional_known_word [of "options_of args" "lit s" a t] show ?thesis
    by (auto simp: flag_row_def flag_items_def)
qed

section \<open>Each command reads its own words\<close>

lemmas table_defs = options_of_def args_defs argument_defs

lemma take_behind:
  "consume_positionals (behind_marks []) st = Inr ([], st)" if "ps_left st = []"
  using that by (simp add: consume_positionals_def behind_marks_def)

lemma take_behind_one:
  assumes "ps_left st = [positional k]"
  shows "consume_positionals (behind_marks [w]) st =
    Inr ([], (store_given (lit k) (Some w) st)\<lparr>ps_left := []\<rparr>)"
  using assms
  by (simp add: consume_positionals_def behind_marks_def positional_words_def take_value_def
      store_given_def positional_def)

lemma take_behind_two:
  assumes "ps_left st = [positional j, positional k]"
  shows "consume_positionals (behind_marks [v, w]) st =
    Inr ([], (if w = dashes
        then (store_given (lit j) (Some v) st)\<lparr>ps_seen := ps_seen st @ [lit j, lit k],
          ps_space := (ps_space st)(lit j \<mapsto> Text v, lit k \<mapsto> NoWords)\<rparr>
        else store_given (lit k) (Some w) (store_given (lit j) (Some v) st))\<lparr>ps_left := []\<rparr>)"
  using assms
  by (simp add: consume_positionals_def behind_marks_def positional_words_def take_value_def
      store_given_def positional_def)

text \<open>The words leave the namespace of \<open>su\<close>, and nothing that was not wanted.\<close>

definition reads :: "pystr \<Rightarrow> argument list \<Rightarrow> pystr list \<Rightarrow> parse_state \<Rightarrow> bool" where
  "reads prog args ws su \<longleftrightarrow>
     ps_extras su = [] \<and>
     (\<exists>sub. parse_known prog args ws = Inr sub \<and> ps_extras sub = [] \<and> ps_space sub = ps_space su)"

lemma readsI:
  assumes "ws = map fst items @ behind ps" and "list_all (item_ok prog args) items"
    and "take_items items (start_state prog args) = Inr st"
    and "consume_positionals (behind_marks ps) st = Inr ([], su)"
    and "missing_arguments args su = []" and "ps_extras su = []"
  shows "reads prog args ws su"
proof -
  have "ps_prog (start_state prog args) = prog" by (simp add: start_state_def)
  then have "parse_words consume_positionals args (start_state prog args) ws =
      Inr (su\<lparr>ps_extras := []\<rparr>)"
    using parse_items [of "start_state prog args" args items ps] assms by simp
  with assms(5,6) show ?thesis by (simp add: reads_def parse_known_def missing_arguments_def)
qed

text \<open>The options of the parsers with another record than \<open>value_option\<close>.\<close>

definition required_option :: "string \<Rightarrow> argument" where
  "required_option s = (value_option s)\<lparr>ar_required := True\<rparr>"

definition format_option :: argument where
  "format_option =
     (value_option ''--format'')\<lparr>ar_choices := Some [lit ''md'', lit ''json''],
       ar_default := Text (lit ''md'')\<rparr>"

lemmas item_defs = table_defs required_option_def format_option_def

lemma rows [simp]:
  "option_row capture_args ''--out'' (value_option ''--out'')"
  "flag_row capture_args ''--pretty'' (flag_option ''--pretty'')"
  "flag_row analyze_args ''--json'' (flag_option ''--json'')"
  "option_row analyze_args ''--baseline'' (value_option ''--baseline'')"
  "option_row analyze_args ''--verify-key'' (value_option ''--verify-key'')"
  "option_row baseline_args ''--out'' (required_option ''--out'')"
  "option_row baseline_args ''--sign-key'' (required_option ''--sign-key'')"
  "option_row report_args ''--format'' format_option"
  "option_row report_args ''--out'' (value_option ''--out'')"
  "option_row report_args ''--baseline'' (value_option ''--baseline'')"
  "option_row report_args ''--verify-key'' (value_option ''--verify-key'')"
  by code_simp+

lemma takes [simp]:
  "take_items (option_items (value_option s) s v) st = Inr (store_given (dest_of (lit s)) v st)"
  "take_items (option_items (required_option s) s v) st = Inr (store_given (dest_of (lit s)) v st)"
  "take_items (flag_items (flag_option s) s b) st = Inr (store_flag (dest_of (lit s)) b st)"
  "x \<in> {lit ''md'', lit ''json''} \<Longrightarrow>
   take_items (option_items format_option ''--format'' (Some x)) st =
     Inr (store_given (lit ''format'') (Some x) st)"
  by (simp_all add: item_defs take_free_option take_flag_items)
    (auto intro!: trans [OF take_option_items])

lemma start_simps [simp]:
  "ps_left (start_state prog args) = positionals_of args" "ps_extras (start_state prog args) = []"
  "ps_space (start_state prog args) = defaults_of args" "ps_seen (start_state prog args) = []"
  by (simp_all add: start_state_def)

lemma positionals_tables [simp]:
  "positionals_of capture_args = []" "positionals_of analyze_args = [positional ''snapshot'']"
  "positionals_of baseline_args = [positional ''snapshot'']"
  "positionals_of report_args = [positional ''snapshot'']"
  "positionals_of redact_args = [positional ''infile'', positional ''outfile'']"
  by (simp_all add: positionals_of_def args_defs argument_defs)

lemma missing_tables:
  "missing_arguments capture_args su = []"
  "lit ''snapshot'' \<in> set (ps_seen su) \<Longrightarrow> missing_arguments analyze_args su = []"
  "lit ''snapshot'' \<in> set (ps_seen su) \<Longrightarrow> lit ''out'' \<in> set (ps_seen su) \<Longrightarrow>
   lit ''sign_key'' \<in> set (ps_seen su) \<Longrightarrow> missing_arguments baseline_args su = []"
  "lit ''snapshot'' \<in> set (ps_seen su) \<Longrightarrow> missing_arguments report_args su = []"
  "lit ''infile'' \<in> set (ps_seen su) \<Longrightarrow> lit ''outfile'' \<in> set (ps_seen su) \<Longrightarrow>
   missing_arguments redact_args su = []"
  by (simp_all add: missing_arguments_def args_defs argument_defs)

lemmas take_snapshot = take_behind_one [of _ "''snapshot''"]

lemmas take_files = take_behind_two [of _ "''infile''" "''outfile''"]

lemmas line_simps = take_items_append take_behind take_snapshot take_files item_words behind_def missing_tables
  option_items_ok flag_items_ok

lemma capture_line:
  "reads prog capture_args (tl (command_words (Capture out pretty)))
     (store_flag (lit ''pretty'') pretty (store_given (lit ''out'') out (start_state prog capture_args)))"
  by (rule readsI [of _ "option_items (value_option ''--out'') ''--out'' out @
      flag_items (flag_option ''--pretty'') ''--pretty'' pretty" "[]"])
    (simp_all add: line_simps)+

lemma analyze_line:
  "reads prog analyze_args (tl (command_words (Analyze path as_json b k)))
     ((store_given (lit ''snapshot'') (Some path) (store_given (lit ''verify_key'') k
        (store_given (lit ''baseline'') b (store_flag (lit ''json'') as_json
          (start_state prog analyze_args)))))\<lparr>ps_left := []\<rparr>)"
  by (rule readsI [of _ "flag_items (flag_option ''--json'') ''--json'' as_json @
      option_items (value_option ''--baseline'') ''--baseline'' b @
      option_items (value_option ''--verify-key'') ''--verify-key'' k" "[path]"])
    (simp_all add: line_simps)+

lemma baseline_line:
  "reads prog baseline_args (tl (command_words (Baseline path out k)))
     ((store_given (lit ''snapshot'') (Some path) (store_given (lit ''sign_key'') (Some k)
        (store_given (lit ''out'') (Some out) (start_state prog baseline_args))))\<lparr>ps_left := []\<rparr>)"
  by (rule readsI [of _ "option_items (required_option ''--out'') ''--out'' (Some out) @
      option_items (required_option ''--sign-key'') ''--sign-key'' (Some k)" "[path]"])
    (simp_all add: line_simps joined_option_def)+

lemma report_line:
  "reads prog report_args (tl (command_words (Report path as_json out b k)))
     ((store_given (lit ''snapshot'') (Some path) (store_given (lit ''verify_key'') k
        (store_given (lit ''baseline'') b (store_given (lit ''out'') out
          (store_given (lit ''format'') (Some (if as_json then lit ''json'' else lit ''md''))
            (start_state prog report_args))))))\<lparr>ps_left := []\<rparr>)"
  by (rule readsI [of _ "option_items format_option ''--format''
        (Some (if as_json then lit ''json'' else lit ''md'')) @
      option_items (value_option ''--out'') ''--out'' out @
      option_items (value_option ''--baseline'') ''--baseline'' b @
      option_items (value_option ''--verify-key'') ''--verify-key'' k" "[path]"])
    (simp_all add: line_simps joined_option_def)+

lemma redact_line:
  assumes "outfile \<noteq> dashes"
  shows "reads prog redact_args (tl (command_words (Redact infile outfile)))
     ((store_given (lit ''outfile'') (Some outfile) (store_given (lit ''infile'') (Some infile)
        (start_state prog redact_args)))\<lparr>ps_left := []\<rparr>)"
  by (rule readsI [of _ "[]" "[infile, outfile]"])
    (simp_all add: line_simps assms)+

lemma redact_no_path_line:
  "reads prog redact_args (tl (command_words (RedactNoPath infile)))
     ((store_given (lit ''infile'') (Some infile) (start_state prog redact_args))
        \<lparr>ps_seen := [lit ''infile'', lit ''outfile''],
          ps_space := (defaults_of redact_args)(lit ''infile'' \<mapsto> Text infile,
            lit ''outfile'' \<mapsto> NoWords), ps_left := []\<rparr>)"
  by (rule readsI [of _ "[]" "[infile, dashes]"])
    (simp_all add: line_simps)+

section \<open>From the words back to the command\<close>

lemma reads_command:
  assumes "reads (prog_name @ 32 # lit name) args (tl (command_words c)) su"
    and "map_of cli_parsers (lit name) = Some args" and "hd (lit name) \<noteq> 45" and "name \<noteq> []"
    and "command_words c = lit name # tl (command_words c)"
    and "command_of ([lit ''command'' \<mapsto> Text (lit name)] ++ ps_space su) = Inr c"
  shows "\<exists>ns. parse_args (command_words c) = Inr ns \<and> command_of ns = Inr c"
proof -
  have "(defaults_of top_args)(lit ''command'' \<mapsto> v) = [lit ''command'' \<mapsto> v]" for v
    by (simp add: defaults_of_def top_args_def help_option_def command_argument_def)
  with assms parse_args_command [of "lit name" args "tl (command_words c)"] show ?thesis
    by (auto simp: reads_def)
qed

lemma parsers_tables [simp]:
  "map_of cli_parsers (lit ''capture'') = Some capture_args"
  "map_of cli_parsers (lit ''analyze'') = Some analyze_args"
  "map_of cli_parsers (lit ''baseline'') = Some baseline_args"
  "map_of cli_parsers (lit ''report'') = Some report_args"
  "map_of cli_parsers (lit ''redact'') = Some redact_args"
  by (simp_all add: cli_parsers_def)

lemma defaults_tables:
  "defaults_of top_args = [lit ''command'' \<mapsto> NoValue]"
  "defaults_of capture_args = [lit ''out'' \<mapsto> NoValue, lit ''pretty'' \<mapsto> Truth False]"
  "defaults_of analyze_args = [lit ''snapshot'' \<mapsto> NoValue, lit ''json'' \<mapsto> Truth False,
     lit ''baseline'' \<mapsto> NoValue, lit ''verify_key'' \<mapsto> NoValue]"
  "defaults_of baseline_args = [lit ''snapshot'' \<mapsto> NoValue, lit ''out'' \<mapsto> NoValue,
     lit ''sign_key'' \<mapsto> NoValue]"
  "defaults_of report_args = [lit ''snapshot'' \<mapsto> NoValue, lit ''format'' \<mapsto> Text (lit ''md''),
     lit ''out'' \<mapsto> NoValue, lit ''baseline'' \<mapsto> NoValue, lit ''verify_key'' \<mapsto> NoValue]"
  "defaults_of redact_args = [lit ''infile'' \<mapsto> NoValue, lit ''outfile'' \<mapsto> NoValue]"
  by (auto simp: defaults_of_def top_args_def command_argument_def args_defs argument_defs)

lemmas command_simps = command_of_def text_of_def option_of_def option_or_none_def flag_of_def flag_or_false_def attribute_def
  verify_key_of_def map_add_def defaults_tables

lemma hd_lit: "hd (lit (c # s)) = of_char c"
  by (simp add: lit_Cons)

lemma command_line_exact:
  assumes "c \<noteq> UnknownCommand" and "\<And>infile. c \<noteq> Redact infile dashes"
  shows "\<exists>ns. parse_args (command_words c) = Inr ns \<and> command_of ns = Inr c"
proof (cases c)
  case NoCommand
  then show ?thesis
    by (simp add: parse_args_def parse_words_def consume_command_def) (simp add: start_state_def command_simps)
next
  case (Capture out pretty)
  show ?thesis unfolding Capture
    by (rule reads_command [where name = "''capture''", OF capture_line]; cases out; simp add: command_simps hd_lit)
next
  case (Analyze path as_json b k)
  show ?thesis unfolding Analyze
    by (rule reads_command [where name = "''analyze''", OF analyze_line]; cases b; cases k; simp add: command_simps hd_lit)
next
  case (Baseline path out k)
  show ?thesis unfolding Baseline
    by (rule reads_command [where name = "''baseline''", OF baseline_line]; simp add: command_simps hd_lit)
next
  case (Report path as_json out b k)
  show ?thesis unfolding Report
    by (rule reads_command [where name = "''report''", OF report_line]; cases out; cases b; cases k; simp add: command_simps hd_lit)
next
  case (Redact infile outfile)
  with assms(2) have "outfile \<noteq> dashes" by simp
  show ?thesis unfolding Redact
    by (rule reads_command [where name = "''redact''", OF redact_line [OF \<open>outfile \<noteq> dashes\<close>]]; simp add: command_simps hd_lit)
next
  case (RedactNoPath infile)
  show ?thesis unfolding RedactNoPath
    by (rule reads_command [where name = "''redact''", OF redact_no_path_line]; simp add: command_simps hd_lit)
next
  case UnknownCommand
  with assms(1) show ?thesis by simp
qed

text \<open>
  C26: Every command can be given on the command line, with any file names, also such that look like
  options or are empty: \<open>main\<close> runs exactly the command whose words it was given. The one exception
  is a \<open>redact\<close> into a file named \<open>--\<close>, which argparse takes for no name at all.
\<close>

theorem command_line_roundtrip:
  assumes "c \<noteq> UnknownCommand" and "\<And>infile. c \<noteq> Redact infile dashes"
  shows "(\<exists>ns. parse_args (command_words c) = Inr ns \<and> command_of ns = Inr c) \<and>
    main rt (command_words c) = bindW (dispatch rt c) (\<lambda>n. lift (Inr (Returns n)))"
proof -
  from command_line_exact [OF assms] obtain ns where
    ns: "parse_args (command_words c) = Inr ns" and c: "command_of ns = Inr c" by blast
  then have "main rt (command_words c) = bindW (dispatch rt c) (\<lambda>n. lift (Inr (Returns n)))"
    by (simp add: main_def bindW_def lift_def fun_eq_iff)
  with ns c show ?thesis by blast
qed

text \<open>A report into a file named like an option, of a snapshot named like another.\<close>

lemma command_line_roundtrip_witness:
  "\<exists>ns. parse_args [lit ''report'', lit ''--format=json'', lit ''--out=--help'', lit ''--'', lit ''-h''] = Inr ns \<and>
     command_of ns = Inr (Report (lit ''-h'') True (Some (lit ''--help'')) None None)"
  using conjunct1 [OF command_line_roundtrip [of "Report (lit ''-h'') True (Some (lit ''--help'')) None None"]]
  by (simp add: joined_option_def joined_def lit_append [symmetric] dashes_def lit_Cons)

end
