(* ===== verification/File_Props.thy ===== *)
theory File_Props
  imports Cli_Props
begin

text \<open>
  Commands that follow each other: what one writes, the next loads. A stored snapshot loads in file
  order; redacting the file and analysing the copy concludes what analysing the original concludes;
  a capture written to a file loads again.
\<close>

section \<open>Well-formed documents\<close>

lemma str_ok_lit [simp]: "str_ok (lit k)"
proof (induction k)
  case (Cons c cs)
  have "0 \<le> (of_char c :: int)" "(of_char c :: int) < 256"
    using pos_mod_sign [of 256 "of_char c :: int"] pos_mod_bound [of 256 "of_char c :: int"]
    by simp_all
  moreover have "\<not> clash (of_char c) r" for r
    using \<open>(of_char c :: int) < 256\<close> by (simp add: clash_def high_surrogate_def)
  ultimately show ?case using Cons by (simp add: lit_def)
qed simp

lemma json_ok_jobj [simp]:
  "json_ok (jobj kvs) \<longleftrightarrow>
     distinct (map (\<lambda>kv. lit (fst kv)) kvs) \<and> list_all (\<lambda>kv. json_ok (snd kv)) kvs"
  by (auto simp: jobj_def ldict_def list_all_iff case_prod_unfold comp_def)

lemma json_ok_sorted [simp]: "json_ok (json_sorted v) \<longleftrightarrow> json_ok v"
proof (induction v)
  case (JDict d)
  have "map fst (sort_key fst d) = sort (map fst d)"
    using map_key_sort [of "\<lambda>k. k" fst fst d] by simp
  then have "distinct (map fst (sort_key fst d)) \<longleftrightarrow> distinct (map fst d)"
    using distinct_sort [of "\<lambda>k. k" "map fst d"] by simp
  moreover have v: "json_ok (json_sorted v) \<longleftrightarrow> json_ok v" if "(k, v) \<in> set d" for k v
    using that JDict by force
  have "list_all (\<lambda>(k, v). str_ok k \<and> json_ok v) (map_values json_sorted (sort_key fst d)) \<longleftrightarrow>
      list_all (\<lambda>(k, v). str_ok k \<and> json_ok v) d"
    unfolding list_all_iff using v by auto
  ultimately show ?case
    unfolding json_sorted_dict json_ok.simps by (simp add: case_prod_unfold comp_def)
qed (auto simp: list_all_iff)

lemma json_ok_strs [simp]: "json_ok (strs_json ss) \<longleftrightarrow> list_all str_ok ss"
  by (simp add: strs_json_def list_all_iff)

section \<open>Redacted snapshots\<close>

lemma entity_redacted_ok: "json_ok (entity_to_dict e) \<Longrightarrow> json_ok (entity_to_dict (redact_process e))"
  by (cases e) (simp_all add: process_to_dict_def redacted_argv_def)

lemma key_ok_redacted [simp]:
  "entities_ok c (map_values redact_process es) \<longleftrightarrow> entities_ok c es"
proof -
  have "entity_class_of (redact_process e) = entity_class_of e" for e by (cases e) simp_all
  then show ?thesis
    by (simp add: entities_ok_def list_all_iff case_prod_unfold comp_def)
qed

lemma entities_redacted_ok:
  assumes "entities_ok c es" and "json_ok (entities_json es)"
  shows "json_ok (entities_json (map_values redact_process es))"
proof -
  have "entities_json (map_values redact_process es) =
      JDict (map (\<lambda>(k, e). (eid_str k, entity_to_dict e)) (map_values redact_process es))"
    using assms(1) by (intro entities_json_ok) simp
  then show ?thesis
    using assms(2) entity_redacted_ok
    by (auto simp: entities_json_ok [OF assms(1)] list_all_iff case_prod_unfold comp_def)
qed

lemma observation_redacted_ok:
  assumes "observation_ok o'" and "observation_to_dict o' = Inr d" and "json_ok d"
  shows "observation_ok (redact_loaded o') \<and>
     (\<exists>d'. observation_to_dict (redact_loaded o') = Inr d' \<and> json_ok d')"
proof
  show "observation_ok (redact_loaded o')"
    using assms(1) by (simp add: observation_ok_def)
  have ids: "sort_ids (ob_entity_ids o') = Inr (sort (ob_entity_ids o'))"
    using assms(1) by (simp add: observation_ok_def sort_ids_def)
  have "json_ok (entities_json (ob_entities o')) \<Longrightarrow>
      json_ok (entities_json (map_values redact_process (ob_entities o')))"
    using assms(1) entities_redacted_ok by (auto simp: observation_ok_def)
  then show "\<exists>d'. observation_to_dict (redact_loaded o') = Inr d' \<and> json_ok d'"
    using assms(2,3) by (auto simp: observation_to_dict_def ids redact_loaded_def split: option.splits)
qed

lemma mapE_mem: "mapE f xs = Inr ys \<Longrightarrow> x \<in> set xs \<Longrightarrow> \<exists>y \<in> set ys. f x = Inr y"
  by (induction xs arbitrary: ys) auto

lemma snapshot_redacted_ok:
  assumes "snapshot_ok s" and "snapshot_to_dict s = Inr d" and "json_ok d"
  shows "snapshot_ok (redacted s)" and "\<exists>d'. snapshot_to_dict (redacted s) = Inr d' \<and> json_ok d'"
proof -
  from assms(2) obtain os where os: "mapE observation_to_dict (sn_observations s) = Inr os"
    by (auto simp: snapshot_to_dict_def)
  have ok: "list_all json_ok os"
    using assms(2,3) by (auto simp: snapshot_to_dict_def os)
  have each: "observation_ok (redact_loaded o') \<and>
      (\<exists>d'. observation_to_dict (redact_loaded o') = Inr d' \<and> json_ok d')"
    if o': "o' \<in> set (sn_observations s)" for o'
  proof -
    obtain d' where "observation_to_dict o' = Inr d'" "d' \<in> set os"
      using mapE_mem [OF os o'] by blast
    then show ?thesis
      using assms(1) o' ok observation_redacted_ok [of o' d']
      by (auto simp: snapshot_ok_def list_all_iff)
  qed
  then show "snapshot_ok (redacted s)"
    using assms(1) by (simp add: snapshot_ok_def redacted_def list_all_iff)
  have "\<not> isl (observation_to_dict (redact_loaded o'))" if "o' \<in> set (sn_observations s)" for o'
    using each [OF that] by auto
  then obtain os' where os': "mapE observation_to_dict (map redact_loaded (sn_observations s)) = Inr os'"
    using mapE_not_isl [of "map redact_loaded (sn_observations s)" observation_to_dict] by auto
  have "list_all json_ok os'"
    using mapE_set [OF os'] each by (fastforce simp: list_all_iff)
  then show "\<exists>d'. snapshot_to_dict (redacted s) = Inr d' \<and> json_ok d'"
    using assms(2,3) os' by (auto simp: snapshot_to_dict_def redacted_def os simp del: mapE_map)
qed

section \<open>Snapshots in file order\<close>

lemma items_filed_idem [simp]: "items_filed (items_filed d) = items_filed d"
proof -
  have "json_sorted (JDict x) = JDict (items_filed x)" for x
    by (simp only: json_sorted_dict items_filed_def)
  then show ?thesis using json_sorted_idem [of "JDict d"] by simp
qed

lemma entity_norm_redact [simp]:
  "entity_norm (redact_process (entity_norm e)) = redact_process (entity_norm e)"
  "entity_norm (entity_norm e) = entity_norm e"
  by (cases e; simp)+

lemma entities_filed_redact [simp]:
  "entities_filed (map_values redact_process (entities_filed es)) =
     map_values redact_process (entities_filed es)"
proof -
  have "sort_key (\<lambda>e. eid_str (fst e)) (map_values redact_process (entities_filed es)) =
      map_values redact_process (entities_filed es)"
    by (rule sort_key_sorted)
      (simp add: entities_filed_def entities_norm_def case_prod_unfold comp_def)
  then show ?thesis
    by (simp add: entities_filed_def entities_norm_def case_prod_unfold comp_def)
qed

lemma filed_redacted_filed:
  "snapshot_filed (redacted (snapshot_filed s)) = redacted (snapshot_filed s)"
proof -
  have "observation_filed (redact_loaded (observation_filed o')) = redact_loaded (observation_filed o')"
    for o'
    by (cases "ob_extra o'") (simp_all add: observation_filed_def redact_loaded_def json_sorted_idem)
  then show ?thesis by (simp add: snapshot_filed_def redacted_def capture_filed_def json_sorted_idem)
qed

lemma snapshot_filed_ok:
  assumes "snapshot_ok s" and "snapshot_to_dict s = Inr d" and "json_ok d"
  shows "snapshot_ok (snapshot_filed s)"
    and "\<exists>d'. snapshot_to_dict (snapshot_filed s) = Inr d' \<and> json_ok d'"
proof -
  have "observation_ok (observation_filed o')" if "observation_ok o'" for o'
    using that by (auto simp: observation_ok_def observation_filed_def entities_filed_def
        entities_ok_sorted list_all_iff)
  then show "snapshot_ok (snapshot_filed s)"
    using assms(1) by (simp add: snapshot_ok_def snapshot_filed_def list_all_iff)
  show "\<exists>d'. snapshot_to_dict (snapshot_filed s) = Inr d' \<and> json_ok d'"
    using snapshot_text(2) [OF assms(1,2)] assms(3) json_ok_sorted by metis
qed

text \<open>Redaction runs through on every document that was written as a snapshot.\<close>

lemma redact_observation_runs:
  assumes "observation_to_dict o' = Inr d"
  shows "\<not> isl (redact_observation (json_sorted d))"
proof -
  obtain kvs where kvs: "d = jobj kvs" "distinct (map (\<lambda>kv. lit (fst kv)) kvs)"
    and es: "item (jobj kvs) (lit ''entities'') = Inr (entities_json (ob_entities o'))"
    using assms by (cases "ob_pass o'"; cases "ob_extra o'")
      (auto simp: observation_to_dict_def)
  obtain es' where es': "json_sorted (entities_json (ob_entities o')) = JDict es'"
    by (simp add: entities_json_def json_sorted_dict)
  have "item (json_sorted d) (lit ''entities'') = Inr (JDict es')"
    using item_jobj_sorted [OF kvs(2)] es es' by (simp add: kvs(1))
  moreover obtain e where "json_sorted d = JDict e" by (simp add: kvs jobj_def json_sorted_dict)
  ultimately show ?thesis by (auto split: option.splits)
qed

lemma redact_snapshot_runs:
  assumes "snapshot_to_dict s = Inr d"
  shows "\<exists>d'. redact_snapshot (json_sorted d) = Inr d'"
proof -
  from assms obtain os where os: "mapE observation_to_dict (sn_observations s) = Inr os"
    and dd: "d = jobj
       [(''schema_version'', JStr (sn_schema_version s)),
        (''snapshot_id'', JStr (sn_snapshot_id s)),
        (''captured_at'', JStr (sn_captured_at s)),
        (''host'', host_to_dict (sn_host s)),
        (''capture'', capture_to_dict (sn_capture s)),
        (''observations'', JList os)]"
    by (auto simp: snapshot_to_dict_def)
  have "item (json_sorted d) (lit ''observations'') = Inr (JList (map json_sorted os))"
    unfolding dd by (subst item_jobj_sorted) simp_all
  moreover obtain e where "json_sorted d = JDict e" by (simp add: dd jobj_def json_sorted_dict)
  moreover have "\<not> isl (redact_observation x)" if "x \<in> set (map json_sorted os)" for x
    using that mapE_set [OF os] redact_observation_runs by fastforce
  then obtain os' where "mapE redact_observation (map json_sorted os) = Inr os'"
    using mapE_not_isl by blast
  ultimately show ?thesis by (auto split: option.splits simp del: mapE_map)
qed

section \<open>Properties of commands in sequence\<close>

text \<open>
  C11: Redacting a stored snapshot file succeeds and leaves a file that loads again. The copy has no
  command line of any process left, its analysis against every baseline gives the same findings and notes,
  and \<open>analyze\<close> and \<open>report\<close> end on it with the exit code they end with on the original.
\<close>

theorem redact_command:
  assumes "snapshot_ok s" and "snapshot_to_dict s = Inr d" and "json_ok d"
    and "snapshot_to_json pretty s = Inr t"
    and "wd_files w (path_text p) = Some (t @ replicate m 10)"
    and "reachable_files pf [path_text p, path_text q]"
  shows "\<exists>w' s1 raw1 w1 s2 raw2 w2. cmd_redact pf p q w = (Inr 0, w') \<and>
     load_snapshot pf p w = (Inr (Some (s1, raw1)), w1) \<and>
     load_snapshot pf q w' = (Inr (Some (s2, raw2)), w2) \<and>
     argv_hidden s2 \<and> (\<forall>b. analyze s2 b = analyze s1 b) \<and> channel_notes s2 = channel_notes s1 \<and>
     run_outcome pf pem verify q None k w' = run_outcome pf pem verify p None k w"
proof -
  have r: "pf_read pf (path_text p) = None" "pf_read pf (path_text q) = None"
    "pf_write pf (path_text q) = None"
    using assms(6) by (simp_all add: reachable_files_def)
  let ?s = "redacted (snapshot_filed s)"
  obtain w1 where w1: "load_snapshot pf p w = (Inr (Some (snapshot_filed s, json_sorted d)), w1)"
    using load_stored [OF assms(1-5) r(1)] by blast
  obtain d1 where d1: "snapshot_to_dict (snapshot_filed s) = Inr d1" "json_ok d1"
    using snapshot_filed_ok(2) [OF assms(1-3)] by blast
  obtain d2 where d2: "snapshot_to_dict ?s = Inr d2" "json_ok d2"
    using snapshot_redacted_ok(2) [OF snapshot_filed_ok(1) [OF assms(1-3)] d1] by blast
  have ok2: "snapshot_ok ?s"
    by (rule snapshot_redacted_ok(1) [OF snapshot_filed_ok(1) [OF assms(1-3)] d1])
  obtain raw where raw: "redact_snapshot (json_sorted d) = Inr raw"
    using redact_snapshot_runs [OF assms(2)] by blast
  have "snapshot_from_dict raw = Inr ?s"
    by (rule snapshot_redact [OF snapshot_text(1) [OF assms(1,2)] raw])
  then obtain w3 where w3: "decode_snapshot raw w1 = (Inr ?s, w3)" using decode_snapshot_runs by blast
  let ?t = "json_text (Some 0) d2"
  have "plain_text (?t @ [10])" by (simp add: plain_json_text)
  note a = plain_ascii(1) [OF this]
  let ?w = "(store (path_text q) (?t @ [10]) w3)\<lparr>wd_out := wd_out (store (path_text q) (?t @ [10]) w3) @ q @ [10]\<rparr>"
  have c: "cmd_redact pf p q w = (Inr 0, ?w)"
    using w1 raw w3 d2(1) write_plain [OF a r(3), of w3]
    by (simp add: cmd_redact_def snapshot_to_json_def print_line_def)
  have "wd_files ?w (path_text q) = Some (?t @ replicate 1 10)" by (simp add: store_def)
  then obtain w2 where w2: "load_snapshot pf q ?w = (Inr (Some (?s, json_sorted d2)), w2)"
    using load_stored [OF ok2 d2, of True ?t ?w q 1] r(2) d2(1)
    by (auto simp: snapshot_to_json_def filed_redacted_filed)
  have same: "analyze ?s b = analyze (snapshot_filed s) b" for b by (simp add: analyze_def)
  then have "run_outcome pf pem verify q None k ?w = run_outcome pf pem verify p None k w"
    by (simp add: run_outcome_def w1 w2 load_verified_baseline_def given_def outcome_def Let_def)
  with c w1 w2 same argv_hidden_redacted [of "snapshot_filed s"] show ?thesis
    by (intro exI conjI) (assumption | simp)+
qed

text \<open>The sample file is stored as \<open>capture\<close> would write it, with a line end.\<close>

theorem redact_command_witness:
  "\<exists>pf w w' s2 raw2 w2. cmd_redact pf (lit ''/a.json'') (lit ''/b.json'') w = (Inr 0, w') \<and>
     load_snapshot pf (lit ''/b.json'') w' = (Inr (Some (s2, raw2)), w2) \<and> argv_hidden s2 \<and>
     analyze s2 None = analyze (snapshot_filed infected) None"
proof -
  define pf where "pf = \<lparr>pf_read = (\<lambda>p. None), pf_write = (\<lambda>p. None),
    pf_mkdir = (\<lambda>p. None), pf_message = (\<lambda>e. [])\<rparr>"
  let ?a = "lit ''/a.json''"
  let ?b = "lit ''/b.json''"
  obtain d where d: "snapshot_to_dict infected = Inr d" "json_ok d" using infected_text by blast
  obtain t where t: "snapshot_to_json True infected = Inr t"
    using snapshot_file_text [OF infected_ok d] by blast
  define w where "w = \<lparr>wd_files = (\<lambda>p. if p = path_text ?a then Some (t @ replicate 1 10) else None),
    wd_out = [], wd_err = []\<rparr>"
  have w: "wd_files w (path_text ?a) = Some (t @ replicate 1 10)" by (simp add: w_def)
  have r: "reachable_files pf [path_text ?a, path_text ?b]" by (simp add: reachable_files_def pf_def)
  have p: "pf_read pf (path_text ?a) = None" by (simp add: pf_def)
  obtain w0 where orig: "load_snapshot pf ?a w = (Inr (Some (snapshot_filed infected, json_sorted d)), w0)"
    using load_stored [OF infected_ok d t w p] by blast
  obtain w' s1 raw1 w1 s2 raw2 w2 where "cmd_redact pf ?a ?b w = (Inr 0, w')"
    "load_snapshot pf ?a w = (Inr (Some (s1, raw1)), w1)"
    "load_snapshot pf ?b w' = (Inr (Some (s2, raw2)), w2)" "argv_hidden s2"
    "\<forall>b. analyze s2 b = analyze s1 b"
    using redact_command [OF infected_ok d t w r, of "\<lambda>b. Inr (Some ())" "\<lambda>k sig m. True" None]
    by (elim exE conjE)
  with orig show ?thesis
    by (intro exI [of _ pf] exI [of _ w] exI [of _ w'] exI [of _ s2] exI [of _ raw2] exI [of _ w2]) simp
qed

end
