(* ===== verification/Capture_Files.thy ===== *)
theory Capture_Files
  imports File_Props
begin

text \<open>
  A capture is a snapshot that can be stored: every observation a collector makes is well formed.
  With that, the \<open>capture\<close> command and a later \<open>analyze\<close> of its file are put together: a process
  that hides from both walks but answers the sweep makes the analysis of the stored file exit with 3.
\<close>

section \<open>Numbers that were read can be written\<close>

lemma decimal_value_range: "decimal_value c = Some d \<Longrightarrow> 0 \<le> d \<and> d < 10"
  by (auto simp: decimal_value_def find_Some_iff simp del: find.simps)

lemma py_int_printable:
  assumes "py_int s = Inr i"
  shows "printable_int i"
proof -
  obtain neg u where u: "split_sign (int_strip s) = (neg, u)" by fastforce
  obtain ds where ds: "us_digits decimal_value u = Some ds" "length ds \<le> max_str_digits"
    and i: "i = (if neg then - digits_value 10 ds else digits_value 10 ds)"
    using assms by (auto simp: py_int_def u split: option.splits if_splits)
  have "list_all (\<lambda>d. 0 \<le> d \<and> d < 10) ds"
    using us_digits_bound [OF ds(1), of 10] decimal_value_range by blast
  then have d: "0 \<le> digits_value 10 ds" "digits_value 10 ds < 10 ^ length ds"
    using digits_value_bound [of 10 ds] by simp_all
  have "(10::int) ^ length ds \<le> 10 ^ max_str_digits"
    using ds(2) by (intro power_increasing) simp_all
  with d have "digits_value 10 ds < 10 ^ max_str_digits" by linarith
  with d i have "\<bar>i\<bar> < 10 ^ max_str_digits" by auto
  then show ?thesis by (simp add: printable_int_def nat_less_iff)
qed

lemma read_number_printable: "read_number os path = Inr i \<Longrightarrow> printable_int i"
  by (auto simp: read_number_def bindE_eq_Inr_iff split: if_splits intro: py_int_printable)

lemma printable_below: "printable_int m \<Longrightarrow> 0 \<le> i \<Longrightarrow> i \<le> m \<Longrightarrow> printable_int i"
  unfolding printable_int_def by linarith

lemma mapE_preserved: "mapE f xs = Inr ys \<Longrightarrow> (\<And>x y. f x = Inr y \<Longrightarrow> P y) \<Longrightarrow> list_all P ys"
  by (induction xs arbitrary: ys) auto

lemma live_pids_printable:
  assumes "ps_list_pids (live_proc_source os) = Inr pids"
  shows "list_all printable_int pids"
proof -
  obtain names where "numeric_names names = Inr pids"
    using assms by (auto simp: live_proc_source_def Let_def bindE_eq_Inr_iff)
  then show ?thesis
    using mapE_preserved [of py_int _ _ printable_int] py_int_printable
    by (auto simp: numeric_names_def bindE_eq_Inr_iff list_all_iff)
qed

section \<open>Every collector makes a well-formed observation\<close>

lemma foldE_invariant:
  assumes "P s" and "\<And>x s s'. x \<in> set xs \<Longrightarrow> P s \<Longrightarrow> f x s = Inr s' \<Longrightarrow> P s'"
    and "foldE f xs s = Inr t"
  shows "P t"
  using assms
proof (induction xs arbitrary: s)
  case (Cons x xs)
  then obtain s' where "f x s = Inr s'" "foldE f xs s' = Inr t" by (auto simp: bindE_eq_Inr_iff)
  with Cons show ?case by (metis list.set_intros)
qed simp

definition walk_ok :: "int list \<Rightarrow> walk \<Rightarrow> bool" where
  "walk_ok pids w \<longleftrightarrow> distinct (map fst (wk_entities w)) \<and> fst ` set (wk_entities w) \<subseteq> set pids"

lemma described_entities:
  "described src pid st w = Inr w' \<Longrightarrow> \<exists>e. wk_entities w' = AList.update pid e (wk_entities w)"
  by (auto simp: described_def bindE_eq_Inr_iff)

lemma walk_pid_ok:
  assumes "pid \<in> set pids" and "walk_ok pids w" and "walk_pid src pid w = Inr w'"
  shows "walk_ok pids w'"
proof -
  have "wk_entities w' = wk_entities w \<or> (\<exists>e. wk_entities w' = AList.update pid e (wk_entities w))"
    using assms(3) described_entities
    by (fastforce simp: walk_pid_def split: sum.splits py_error.splits if_splits)
  moreover have "fst ` set (AList.update pid e d) = insert pid (fst ` set d)" for e and d :: "(int \<times> process_entity) list"
    by (simp add: dom_update)
  ultimately show ?thesis
    using assms(1,2) distinct_update by (fastforce simp: walk_ok_def)
qed


lemma entities_ok_map:
  "entities_ok c (map (\<lambda>(k, e). (f k, g e)) d) \<longleftrightarrow>
     distinct (map (f \<circ> fst) d) \<and>
     list_all (\<lambda>(k, e). key_ok c (f k) \<and> entity_types c = Some (entity_class_of (g e))) d"
  by (simp add: entities_ok_def list_all_iff case_prod_unfold comp_def)

lemma string_keys_ok:
  assumes "distinct (map fst d)" and "c \<in> set string_id_collectors"
    and "\<And>e. entity_types c = Some (entity_class_of (g e))"
  shows "entities_ok c (map (\<lambda>(k, e). (IdStr k, g e)) d)"
  unfolding entities_ok_map using assms
  by (auto simp: list_all_iff distinct_map inj_on_def)

lemma int_keys_ok:
  assumes "distinct (map fst d)" and "list_all printable_int (map fst d)" and "c \<notin> set string_id_collectors"
    and "\<And>e. entity_types c = Some (entity_class_of (g e))"
  shows "entities_ok c (map (\<lambda>(k, e). (IdInt k, g e)) d)"
  unfolding entities_ok_map using assms
  by (auto simp: list_all_iff distinct_map inj_on_def)

lemma id_lists [simp]:
  "list_all is_int_id (map IdInt xs)" "list_all (\<lambda>i. \<not> is_int_id i) (map IdStr ys)"
  by (simp_all add: list_all_iff)

lemma procfs_ok:
  assumes "collect_procfs label ms src = Inr o'"
    and "\<And>pids. ps_list_pids src = Inr pids \<Longrightarrow> list_all printable_int pids"
  shows "observation_ok o'"
proof (cases "ps_list_pids src")
  case (Inl e)
  then show ?thesis using assms(1)
    by (auto simp: collect_procfs_def procfs_observation_def observation_ok_def entities_ok_def
        split: if_splits)
next
  case (Inr pids)
  then obtain w where w: "foldE (walk_pid src) pids start_walk = Inr w"
    using assms(1) by (auto simp: collect_procfs_def bindE_eq_Inr_iff)
  have "walk_ok pids start_walk" by (simp add: walk_ok_def start_walk_def)
  then have "walk_ok pids w" using walk_pid_ok by (rule foldE_invariant [OF _ _ w])
  then have "distinct (map fst (wk_entities w))" "list_all printable_int (map fst (wk_entities w))"
    using assms(2) [OF Inr] by (auto simp: walk_ok_def list_all_iff)
  then have "entities_ok (lit ''procfs.processes'')
      (map (\<lambda>(pid, e). (IdInt pid, EProcess e)) (wk_entities w))"
    by (rule int_keys_ok) (simp_all add: entity_types_def string_id_collectors_def)
  then show ?thesis
    using assms(1) by (auto simp: collect_procfs_def Inr w procfs_observation_def observation_ok_def)
qed

lemma sweep_ok:
  assumes "collect_sweep sms ms src = Inr o'"
    and "\<And>m. ss_pid_max src = Inr m \<Longrightarrow> list_all printable_int (ss_sweep src m)"
  shows "observation_ok o'"
proof -
  obtain m where m: "ss_pid_max src = Inr m" using assms(1) by (auto simp: collect_sweep_def bindE_eq_Inr_iff)
  let ?d = "dict_of (\<lambda>i. i) (sweep_entity_of src) (ss_sweep src m)"
  have "set (map fst ?d) = set (ss_sweep src m)"
    using fst_dict_of_set [of "\<lambda>i. i" "sweep_entity_of src" "ss_sweep src m"] by simp
  then have "list_all printable_int (map fst ?d)" using assms(2) [OF m] by (simp only: list_all_iff)
  with distinct_fst_dict_of have "entities_ok (lit ''syscall_sweep.processes'')
      (map (\<lambda>(i, e). (IdInt i, ESweep e)) ?d)"
    by (rule int_keys_ok) (simp_all add: entity_types_def string_id_collectors_def)
  then show ?thesis
    using assms(1) by (auto simp: collect_sweep_def m Let_def observation_of_def observation_ok_def)
qed

lemma own_keys: "distinct (map fst d) \<Longrightarrow> distinct (map fst (own ko d))"
  by (cases ko) (auto simp: own_def distinct_update split: option.split)

lemma fold_own_keys: "distinct (map fst d) \<Longrightarrow> distinct (map fst (fold own owners d))"
  by (induction owners arbitrary: d) (simp_all add: own_keys)

lemma named_collectors_ok:
  "collect_modules ms md = Inr o' \<Longrightarrow> observation_ok o'"
  "collect_module_evidence ms md = Inr o' \<Longrightarrow> observation_ok o'"
  "collect_hooks ms hk = Inr o' \<Longrightarrow> observation_ok o'"
  "collect_sockets pids ms sk = Inr o' \<Longrightarrow> observation_ok o'"
proof -
  assume "collect_modules ms md = Inr o'"
  moreover have "entities_ok (lit ''procfs.modules'') (map (\<lambda>(n, m). (IdStr n, EModule m))
      (dict_of mr_name module_of_row rows))" for rows
    using distinct_fst_dict_of
    by (rule string_keys_ok) (simp_all add: entity_types_def string_id_collectors_def)
  ultimately show "observation_ok o'"
    by (auto simp: collect_modules_def bindE_eq_Inr_iff Let_def observation_of_def observation_ok_def)
next
  assume "collect_module_evidence ms md = Inr o'"
  then show "observation_ok o'"
    by (auto simp: collect_module_evidence_def bindE_eq_Inr_iff Let_def observation_of_def
        observation_ok_def entities_ok_def)
next
  assume "collect_hooks ms hk = Inr o'"
  moreover have "entities_ok (lit ''kernel.hooks'') (map (\<lambda>(n, m). (IdStr n, EHook m))
      (dict_of hook_key (hook_of_row sm) rows))" for sm rows
    using distinct_fst_dict_of
    by (rule string_keys_ok) (simp_all add: entity_types_def string_id_collectors_def)
  ultimately show "observation_ok o'"
    by (auto simp: collect_hooks_def bindE_eq_Inr_iff Let_def observation_of_def observation_ok_def)
next
  assume "collect_sockets pids ms sk = Inr o'"
  moreover have "entities_ok (lit ''procfs.sockets'') (map (\<lambda>(n, m). (IdStr n, ESocket m))
      (fold own owners (dict_of socket_key socket_of_row rows)))" for owners rows
    using fold_own_keys [OF distinct_fst_dict_of]
    by (rule string_keys_ok) (simp_all add: entity_types_def string_id_collectors_def)
  ultimately show "observation_ok o'"
    by (auto simp: collect_sockets_def bindE_eq_Inr_iff Let_def observation_of_def observation_ok_def)
qed

lemma live_sweep_printable:
  assumes "ss_pid_max (live_signal_source os) = Inr m"
  shows "list_all printable_int (ss_sweep (live_signal_source os) m)"
proof -
  have "printable_int m" using assms read_number_printable by (simp add: live_signal_source_def)
  then show ?thesis by (auto simp: live_signal_source_def list_all_iff intro: printable_below)
qed

lemma capture_ok:
  assumes "capture sid at host euid tv ms h = Inr s"
    and "hx_procs_a h = live_proc_source a" and "hx_procs_b h = live_proc_source b"
    and "hx_signals h = live_signal_source c"
  shows "snapshot_ok s"
proof -
  obtain os where s: "s = \<lparr>sn_schema_version = schema_version_const, sn_snapshot_id = sid,
      sn_captured_at = at, sn_host = host,
      sn_capture = \<lparr>cm_tool_version = tv, cm_euid = JInt euid\<rparr>, sn_observations = os\<rparr>"
    and os: "capture_observations ms h = Inr os"
    using assms(1) by (auto simp: capture_def bindE_eq_Inr_iff)
  have procs: "observation_ok o'" if "collect_procfs label ms (live_proc_source x) = Inr o'" for label x o'
    using that live_pids_printable by (rule procfs_ok)
  have sweep: "observation_ok o'" if "collect_sweep ms ms (live_signal_source c) = Inr o'" for o'
    using that live_sweep_printable by (rule sweep_ok)
  have "list_all observation_ok os"
    using os by (auto simp: capture_observations_def assms(2-4) bindE_eq_Inr_iff
        intro: procs sweep named_collectors_ok)
  then show ?thesis by (simp add: snapshot_ok_def s version_readable_def)
qed

end
