(* ===== verification/Analysis_Total.thy ===== *)
theory Analysis_Total
  imports Capture_Files
begin

text \<open>
  On which snapshots the detectors cannot raise: \<open>detectable\<close> says of an observation what the
  detectors rely on when they read it. Every observation of a live capture is detectable, also
  after it was stored and loaded, so the analysis of a capture always ends with findings and notes.
\<close>

section \<open>Computations that do not raise\<close>

definition runs :: "'a result \<Rightarrow> bool" where
  "runs r \<longleftrightarrow> (\<exists>x. r = Inr x)"

lemma runs_simps [simp]: "runs (Inr x)" "\<not> runs (Inl e)"
  by (simp_all add: runs_def)

lemma runs_mapE: "(\<And>x. x \<in> set xs \<Longrightarrow> runs (f x)) \<Longrightarrow> runs (mapE f xs)"
  using mapE_not_isl [of xs f] by (force simp: runs_def)

lemma runs_bindE: "runs m \<Longrightarrow> (\<And>x. m = Inr x \<Longrightarrow> runs (f x)) \<Longrightarrow> runs (bindE m f)"
  by (auto simp: runs_def)

lemma runs_if: "(b \<Longrightarrow> runs r) \<Longrightarrow> (\<not> b \<Longrightarrow> runs r') \<Longrightarrow> runs (if b then r else r')"
  by simp

lemmas runs_intros = runs_mapE runs_bindE runs_if

section \<open>What the detectors rely on\<close>

definition strs_or_null :: "json \<Rightarrow> bool" where
  "strs_or_null v \<longleftrightarrow> v = JNull \<or> (\<exists>ss. v = strs_json ss)"

definition number_or_null :: "json \<Rightarrow> bool" where
  "number_or_null v \<longleftrightarrow> v = JNull \<or> runs (as_number v)"

definition ids_described :: "observation \<Rightarrow> bool" where
  "ids_described o' \<longleftrightarrow> set (ob_entity_ids o') \<subseteq> fst ` set (ob_entities o')"

definition detectable :: "observation \<Rightarrow> bool" where
  "detectable o' \<longleftrightarrow>
     observation_ok o' \<and> distinct (map fst (ob_stats o')) \<and>
     (case ob_extra o' of None \<Rightarrow> True | Some x \<Rightarrow> distinct (map fst x)) \<and>
     (ob_collector o' = lit ''procfs.modules'' \<longrightarrow>
        list_all (\<lambda>i. \<not> is_int_id i) (ob_entity_ids o')) \<and>
     (ob_collector o' = lit ''kernel.module_evidence'' \<longrightarrow>
        runs (as_number (stat_get o' ''taint'' (JInt 0))) \<and>
        number_or_null (stat_get o' ''load_module_regions'' JNull) \<and>
        strs_or_null (extra_get o' ''ftrace_modules'')) \<and>
     (ob_collector o' = lit ''kernel.hooks'' \<longrightarrow>
        ids_described o' \<and> strs_or_null (extra_get o' ''kallsyms_modules'')) \<and>
     (ob_collector o' = lit ''syscall_sweep.processes'' \<or> ob_collector o' = lit ''procfs.sockets'' \<longrightarrow>
        ids_described o')"

definition detectable_snapshot :: "snapshot \<Rightarrow> bool" where
  "detectable_snapshot s \<longleftrightarrow> list_all detectable (sn_observations s)"

lemma observed_detectable:
  assumes "detectable_snapshot s" and "observations s c = o' # os"
  shows "detectable o'" and "ob_collector o' = lit c"
proof -
  have "o' \<in> set (observations s c)" using assms(2) by simp
  then show "detectable o'" "ob_collector o' = lit c"
    using assms(1) by (simp_all add: observations_def detectable_snapshot_def list_all_iff)
qed

text \<open>The entity of a described id has the class of its collector.\<close>

lemma described_class:
  assumes "observation_ok o'" and "ids_described o'" and "i \<in> set (ob_entity_ids o')"
  obtains e where "entity_at o' i = Inr e" and "entity_types (ob_collector o') = Some (entity_class_of e)"
proof -
  from assms(2,3) obtain e where "map_of (ob_entities o') i = Some e"
    by (metis ids_described_def map_of_eq_None_iff not_None_eq subsetD)
  moreover from this have "(i, e) \<in> set (ob_entities o')" by (rule map_of_SomeD)
  then have "entity_types (ob_collector o') = Some (entity_class_of e)"
    using assms(1) by (auto simp: observation_ok_def entities_ok_def list_all_iff)
  ultimately show ?thesis using that by (simp add: entity_at_def)
qed

lemma collector_classes:
  "entity_types (lit ''procfs.modules'') = Some CModule"
  "entity_types (lit ''kernel.hooks'') = Some CHook"
  "entity_types (lit ''procfs.sockets'') = Some CSocket"
  "entity_types (lit ''syscall_sweep.processes'') = Some CSweep"
  by (simp_all add: entity_types_def)

lemma class_views:
  "entity_class_of e = CModule \<Longrightarrow> \<exists>m. as_module e = Inr m"
  "entity_class_of e = CHook \<Longrightarrow> \<exists>h. as_hook e = Inr h"
  "entity_class_of e = CSocket \<Longrightarrow> \<exists>k. as_socket e = Inr k"
  "entity_class_of e = CSweep \<Longrightarrow> \<exists>w. as_sweep e = Inr w"
  by (cases e; simp)+

section \<open>No detector raises\<close>

lemma id_name_runs: "\<not> is_int_id i \<Longrightarrow> runs (id_name i)"
  by (cases i) auto

lemma markers_run:
  assumes "detectable_snapshot s"
  shows "runs (listed_markers s)"
proof (cases "observations s ''procfs.modules''")
  case (Cons o' os)
  note d = observed_detectable [OF assms Cons]
  have "runs (bindE (as_module e) (\<lambda>m. bindE (id_name k) (\<lambda>n. Inr (n, mo_taint m))))"
    if "(k, e) \<in> set (ob_entities o')" for k e
  proof -
    have "key_ok (lit ''procfs.modules'') k" "entity_class_of e = CModule"
      using d that collector_classes by (auto simp: detectable_def observation_ok_def entities_ok_def list_all_iff)
    moreover from this(1) have "runs (id_name k)" by (cases k) (auto simp: string_id_collectors_def)
    ultimately show ?thesis using class_views(1) [of e] by (auto intro!: runs_intros)
  qed
  then show ?thesis by (auto simp: listed_markers_def Cons intro!: runs_mapE)
qed (simp add: listed_markers_def)

lemma sweep_loop_runs:
  assumes "\<And>i. i \<in> set ids \<Longrightarrow> \<exists>e w. entity_at sweep i = Inr e \<and> as_sweep e = Inr w"
  shows "runs (sweep_loop procfs listed sweep ids reported)"
  using assms
proof (induction ids arbitrary: reported)
  case (Cons i ids)
  then obtain e w where "entity_at sweep i = Inr e" "as_sweep e = Inr w" by fastforce
  then show ?case using Cons by (auto intro!: runs_intros)
qed simp

text \<open>The entities that the ids of an observation name.\<close>

lemma views_run:
  assumes "detectable_snapshot s"
  shows "observations s ''syscall_sweep.processes'' = o' # os \<Longrightarrow> i \<in> set (ob_entity_ids o') \<Longrightarrow>
      \<exists>e w. entity_at o' i = Inr e \<and> as_sweep e = Inr w"
    and "observations s ''kernel.hooks'' = o' # os \<Longrightarrow> i \<in> set (ob_entity_ids o') \<Longrightarrow>
      \<exists>e w. entity_at o' i = Inr e \<and> as_hook e = Inr w"
    and "observations s ''procfs.sockets'' = o' # os \<Longrightarrow> i \<in> set (ob_entity_ids o') \<Longrightarrow>
      \<exists>e w. entity_at o' i = Inr e \<and> as_socket e = Inr w"
proof -
  have c: "\<exists>e. entity_at o' i = Inr e \<and> entity_types (lit c) = Some (entity_class_of e)"
    if "observations s c = o' # os" "i \<in> set (ob_entity_ids o')"
      "c = ''kernel.hooks'' \<or> c = ''syscall_sweep.processes'' \<or> c = ''procfs.sockets''" for c
  proof -
    note d = observed_detectable [OF assms that(1)]
    have "observation_ok o'" "ids_described o'" using d that(3) by (auto simp: detectable_def)
    then show ?thesis using described_class that(2) d(2) by metis
  qed
  show "\<exists>e w. entity_at o' i = Inr e \<and> as_sweep e = Inr w"
    if "observations s ''syscall_sweep.processes'' = o' # os" "i \<in> set (ob_entity_ids o')"
    using c [OF that] class_views(4) by (auto simp: collector_classes)
  show "\<exists>e w. entity_at o' i = Inr e \<and> as_hook e = Inr w"
    if "observations s ''kernel.hooks'' = o' # os" "i \<in> set (ob_entity_ids o')"
    using c [OF that] class_views(2) by (auto simp: collector_classes)
  show "\<exists>e w. entity_at o' i = Inr e \<and> as_socket e = Inr w"
    if "observations s ''procfs.sockets'' = o' # os" "i \<in> set (ob_entity_ids o')"
    using c [OF that] class_views(3) by (auto simp: collector_classes)
qed

lemma evidence_reads:
  assumes "detectable_snapshot s"
  shows "observations s ''kernel.module_evidence'' = o' # os \<Longrightarrow>
      runs (as_number (stat_get o' ''taint'' (JInt 0))) \<and>
      number_or_null (stat_get o' ''load_module_regions'' JNull) \<and>
      strs_or_null (extra_get o' ''ftrace_modules'')"
    and "observations s ''kernel.hooks'' = o' # os \<Longrightarrow> strs_or_null (extra_get o' ''kallsyms_modules'')"
    and "observations s ''procfs.modules'' = o' # os \<Longrightarrow> i \<in> set (ob_entity_ids o') \<Longrightarrow> \<not> is_int_id i"
  using observed_detectable [OF assms] by (auto simp: detectable_def list_all_iff)

lemma detectors_run:
  assumes "detectable_snapshot s"
  shows "runs (signals_processes s)" and "runs (signals_modules s)" and "runs (signals_hooks s)"
    and "runs (signals_sockets s)" and "runs (over_listed_corroboration s)"
    and "runs (signals_over_listed s)"
proof -
  show "runs (signals_processes s)"
    using views_run(1) [OF assms]
    by (auto simp: signals_processes_def intro!: sweep_loop_runs split: list.split)
  show "runs (signals_modules s)"
    using markers_run [OF assms] evidence_reads(1) [OF assms]
    by (auto simp: signals_modules_def Let_def taint_signals_def region_signals_def ftrace_signals_def
        number_or_null_def strs_or_null_def intro!: runs_intros split: list.split)
  show "runs (signals_hooks s)"
    using views_run(2) [OF assms]
    by (fastforce simp: signals_hooks_def intro!: runs_intros split: list.split)
  have "runs (tid_to_tgid s)"
    using views_run(1) [OF assms]
    by (fastforce simp: tid_to_tgid_def intro!: runs_intros split: list.split)
  then show "runs (signals_sockets s)"
    using views_run(3) [OF assms]
    by (fastforce simp: signals_sockets_def intro!: runs_intros split: list.split)
  show c: "runs (over_listed_corroboration s)"
    using evidence_reads(1,2) [OF assms]
    by (auto simp: over_listed_corroboration_def Let_def strs_or_null_def intro!: runs_intros
        split: list.split)
  have "runs (id_name i)" if "over_listed_corroboration s = Inr (Some (listed, cs))" "i \<in> set listed"
    for listed cs i
    using that evidence_reads(3) [OF assms] id_name_runs
    by (auto simp: over_listed_corroboration_def Let_def bindE_eq_Inr_iff split: list.splits if_splits)
  with c show "runs (signals_over_listed s)"
    by (auto simp: signals_over_listed_def Let_def uncorroborated_ids_def intro!: runs_intros
        split: option.split)
qed

lemma analysis_runs:
  assumes "detectable_snapshot s" and "\<And>b. baseline = Some b \<Longrightarrow> detectable_snapshot b"
  shows "runs (analyze s baseline)" and "runs (channel_notes s)"
proof -
  have "\<not> is_int_id i" if "i \<in> set (module_ids s)" for i
    using that evidence_reads(3) [OF assms(1)] by (cases "observations s ''procfs.modules''") (auto simp: module_ids_def)
  then have "runs (signals_baseline s b)" for b
    by (auto simp: signals_baseline_def intro!: runs_intros id_name_runs)
  then show "runs (analyze s baseline)"
    using detectors_run [OF assms(1)]
    by (auto simp: analyze_def all_signals_def intro!: runs_intros split: option.split)
  have "runs (taint_notes s)"
    using markers_run [OF assms(1)] evidence_reads(1) [OF assms(1)]
    by (auto simp: taint_notes_def Let_def intro!: runs_intros split: list.split)
  moreover have "runs (over_listed_notes s)"
    using detectors_run(5) [OF assms(1)] by (auto simp: over_listed_notes_def intro!: runs_intros)
  ultimately show "runs (channel_notes s)" by (auto simp: channel_notes_def intro!: runs_intros)
qed

section \<open>A capture is detectable, in memory and on disk\<close>

lemma items_filed_keys [simp]: "distinct (map fst (items_filed d)) \<longleftrightarrow> distinct (map fst d)"
proof -
  have "map fst (items_filed d) = sort (map fst d)"
    using map_key_sort [of "\<lambda>k. k" fst fst d] by (simp add: items_filed_def case_prod_unfold comp_def)
  then show ?thesis using distinct_sort [of "\<lambda>k. k" "map fst d"] by simp
qed

lemma map_of_items_filed:
  "distinct (map fst d) \<Longrightarrow> map_of (items_filed d) k = map_option json_sorted (map_of d k)"
  by (simp add: items_filed_def map_of_map map_of_sorted)

lemma stat_get_filed:
  "distinct (map fst (ob_stats o')) \<Longrightarrow> json_sorted d = d \<Longrightarrow>
   stat_get (observation_filed o') k d = json_sorted (stat_get o' k d)"
  by (simp add: stat_get_def observation_filed_def map_of_items_filed split: option.split)

lemma extra_get_filed:
  "(case ob_extra o' of None \<Rightarrow> True | Some x \<Rightarrow> distinct (map fst x)) \<Longrightarrow>
   extra_get (observation_filed o') k = json_sorted (extra_get o' k)"
  by (auto simp: extra_get_def observation_filed_def map_of_items_filed split: option.split)

lemma reads_sorted [simp]:
  "as_number (json_sorted v) = as_number v"
  "number_or_null v \<Longrightarrow> number_or_null (json_sorted v)"
  "strs_or_null v \<Longrightarrow> strs_or_null (json_sorted v)"
proof -
  show n: "as_number (json_sorted v) = as_number v" for v by (cases v) (simp_all add: json_sorted_dict)
  show "number_or_null v \<Longrightarrow> number_or_null (json_sorted v)"
    by (auto simp: number_or_null_def n)
  show "strs_or_null v \<Longrightarrow> strs_or_null (json_sorted v)"
    by (auto simp: strs_or_null_def strs_json_def comp_def)
qed

lemma observation_filed_ok: "observation_ok o' \<Longrightarrow> observation_ok (observation_filed o')"
  by (auto simp: observation_ok_def observation_filed_def entities_filed_def entities_ok_sorted
      list_all_iff)

lemma ids_described_filed: "ids_described o' \<Longrightarrow> ids_described (observation_filed o')"
  by (auto simp: ids_described_def observation_filed_def entities_filed_def entities_norm_def
      image_image case_prod_unfold)

lemma detectable_filed:
  assumes "detectable o'"
  shows "detectable (observation_filed o')"
proof -
  have c: "ob_collector (observation_filed o') = ob_collector o'"
    "set (ob_entity_ids (observation_filed o')) = set (ob_entity_ids o')"
    by (simp_all add: observation_filed_def)
  have d: "distinct (map fst (ob_stats (observation_filed o')))"
    "case ob_extra (observation_filed o') of None \<Rightarrow> True | Some x \<Rightarrow> distinct (map fst x)"
    using assms by (auto simp: detectable_def observation_filed_def split: option.splits)
  show ?thesis
    using assms d unfolding detectable_def c list_all_iff
    by (auto simp: observation_filed_ok ids_described_filed stat_get_filed extra_get_filed)
qed

lemma snapshot_filed_detectable: "detectable_snapshot s \<Longrightarrow> detectable_snapshot (snapshot_filed s)"
  by (simp add: detectable_snapshot_def snapshot_filed_def list_all_iff detectable_filed)

text \<open>What each collector puts into its observation.\<close>

lemma procfs_detectable:
  assumes "collect_procfs label ms src = Inr o'" and "observation_ok o'"
  shows "detectable o'"
  using assms
  by (auto simp: collect_procfs_def procfs_observation_def detectable_def bindE_eq_Inr_iff
      split: sum.splits if_splits)

lemma sweep_detectable:
  assumes "collect_sweep sms ms src = Inr o'" and "observation_ok o'"
  shows "detectable o'"
proof -
  have "fst ` set (map (\<lambda>(i, e). (IdInt i, ESweep e)) d) = IdInt ` fst ` set d" for d
    by force
  then show ?thesis
    using assms by (auto simp: collect_sweep_def Let_def bindE_eq_Inr_iff observation_of_def
        detectable_def ids_described_def fst_dict_of_set)
qed

lemma named_ids: "fst ` (\<lambda>(i, e). (IdStr i, f e)) ` d = IdStr ` fst ` d"
  by force

lemma opt_reads [simp]: "number_or_null (opt_json JInt r)" "strs_or_null (opt_json strs_json f)"
proof -
  show "number_or_null (opt_json JInt r)" by (cases r) (simp_all add: number_or_null_def opt_json_def)
  show "strs_or_null (opt_json strs_json f)" by (cases f) (auto simp: strs_or_null_def opt_json_def)
qed

lemma evidence_detectable:
  assumes "collect_module_evidence ms md = Inr o'"
  shows "detectable o'"
proof -
  obtain t markers regions ftrace available n where o: "o' = observation_of ''kernel.module_evidence''
      ''modules'' TL_MEDIUM ms [] []
      [(''taint'', JInt t), (''load_module_regions'', opt_json JInt regions),
       (''ftrace_available'', available), (''ftrace_module_count'', n)]
      (Some [(''listed_taint_markers'', JInt markers), (''ftrace_modules'', opt_json strs_json ftrace)])"
    using assms unfolding collect_module_evidence_def Let_def bindE_eq_Inr_iff by blast
  have "stat_get o' ''taint'' (JInt 0) = JInt t"
    "stat_get o' ''load_module_regions'' JNull = opt_json JInt regions"
    "extra_get o' ''ftrace_modules'' = opt_json strs_json ftrace"
    by (simp_all add: o observation_of_def stat_get_def extra_get_def)
  then show ?thesis
    using named_collectors_ok(2) [OF assms] by (simp add: detectable_def) (simp add: o observation_of_def)
qed

lemma named_detectable:
  "collect_modules ms md = Inr o' \<Longrightarrow> detectable o'"
  "collect_module_evidence ms md = Inr o' \<Longrightarrow> detectable o'"
  "collect_hooks ms hk = Inr o' \<Longrightarrow> detectable o'"
  "collect_sockets pids ms sk = Inr o' \<Longrightarrow> detectable o'"
proof -
  assume c: "collect_modules ms md = Inr o'"
  show "detectable o'"
    using named_collectors_ok(1) [OF c] c
    by (auto simp: collect_modules_def Let_def bindE_eq_Inr_iff observation_of_def detectable_def
        list_all_iff)
next
  assume c: "collect_module_evidence ms md = Inr o'"
  show "detectable o'"
    by (rule evidence_detectable [OF c])
next
  assume c: "collect_hooks ms hk = Inr o'"
  show "detectable o'"
    using named_collectors_ok(3) [OF c] c
    by (auto simp: collect_hooks_def Let_def bindE_eq_Inr_iff observation_of_def detectable_def
        extra_get_def strs_or_null_def ids_described_def named_ids)
next
  assume c: "collect_sockets pids ms sk = Inr o'"
  show "detectable o'"
    using named_collectors_ok(4) [OF c] c
    by (auto simp: collect_sockets_def Let_def bindE_eq_Inr_iff observation_of_def detectable_def
        ids_described_def named_ids)
qed

lemma capture_detectable:
  assumes "capture sid at host euid tv ms h = Inr s"
    and "hx_procs_a h = live_proc_source a" and "hx_procs_b h = live_proc_source b"
    and "hx_signals h = live_signal_source c"
  shows "detectable_snapshot s"
proof -
  have ok: "list_all observation_ok (sn_observations s)"
    using capture_ok [OF assms] by (simp add: snapshot_ok_def)
  obtain o1 o2 o3 o4 o5 o6 o7 where
    o: "collect_procfs (Some (lit ''A'')) ms (hx_procs_a h) = Inr o1"
    "collect_sweep ms ms (hx_signals h) = Inr o2"
    "collect_procfs (Some (lit ''B'')) ms (hx_procs_b h) = Inr o3"
    "collect_modules ms (hx_modules h) = Inr o4"
    "collect_module_evidence ms (hx_modules h) = Inr o5"
    "collect_hooks ms (hx_hooks h) = Inr o6"
    "collect_sockets (walked_pids o1 o2) ms (hx_sockets h) = Inr o7"
    and s: "sn_observations s = [o1, o2, o3, o4, o5, o6, o7]"
    using assms(1) by (auto simp: capture_def capture_observations_def bindE_eq_Inr_iff)
  note each = procfs_detectable [OF o(1)] sweep_detectable [OF o(2)] procfs_detectable [OF o(3)]
    named_detectable(1) [OF o(4)] named_detectable(2) [OF o(5)] named_detectable(3) [OF o(6)]
    named_detectable(4) [OF o(7)]
  show ?thesis using ok each by (simp add: detectable_snapshot_def s)
qed

end
