(* ===== verification/End_To_End.thy ===== *)
theory End_To_End
  imports Analysis_Total
begin

text \<open>
  The commands put together: \<open>capture\<close> writes a file, \<open>analyze\<close> loads it. The analysis always
  ends, and it reports exactly the processes that answered the sweep and were in neither listing.
\<close>

section \<open>Filing keeps what the sweep shows\<close>

lemma observations_filed: "observations (snapshot_filed s) c = map observation_filed (observations s c)"
  by (simp add: observations_def snapshot_filed_def filter_map comp_def observation_filed_def)

lemma entity_at_filed:
  assumes "distinct (map fst (ob_entities o'))"
  shows "entity_at (observation_filed o') k = bindE (entity_at o' k) (\<lambda>e. Inr (entity_norm e))"
proof -
  let ?d = "sort_key (\<lambda>e. eid_str (fst e)) (ob_entities o')"
  have "distinct (map fst ?d)"
    using assms by (metis mset_map mset_sort mset_eq_imp_distinct_iff)
  then have "map_of ?d = map_of (ob_entities o')" using assms by (simp add: map_of_inject_set)
  then show ?thesis
    by (simp add: entity_at_def observation_filed_def entities_filed_def entities_norm_def map_of_map
        split: option.split)
qed

lemma swept_filed:
  assumes "distinct (map fst (ob_entities o'))"
  shows "swept (observation_filed o') (ob_entity_ids (observation_filed o')) n \<longleftrightarrow>
     swept o' (ob_entity_ids o') n"
proof -
  have "(case entity_at (observation_filed o') k of Inr (ESweep w) \<Rightarrow> sw_status_readable w \<and> sw_tgid w = n
       | _ \<Rightarrow> False) \<longleftrightarrow>
     (case entity_at o' k of Inr (ESweep w) \<Rightarrow> sw_status_readable w \<and> sw_tgid w = n | _ \<Rightarrow> False)" for k
    unfolding entity_at_filed [OF assms]
    by (cases "entity_at o' k"; cases "projr (entity_at o' k)") simp_all
  then show ?thesis by (simp add: swept_def list_ex_iff) (simp add: observation_filed_def)
qed

lemma swept_hidden_filed:
  assumes "detectable_snapshot s"
  shows "swept_hidden (snapshot_filed s) n \<longleftrightarrow> swept_hidden s n"
proof -
  have listed: "set (procfs_listed (snapshot_filed s)) = set (procfs_listed s)"
    by (simp add: procfs_listed_def observations_filed) (simp add: observation_filed_def)
  have sweep: "swept (observation_filed o') (ob_entity_ids (observation_filed o')) n \<longleftrightarrow>
      swept o' (ob_entity_ids o') n" if "observations s ''syscall_sweep.processes'' = o' # os" for o' os
    using observed_detectable(1) [OF assms that]
    by (intro swept_filed) (simp add: detectable_def observation_ok_def entities_ok_def)
  show ?thesis
    unfolding swept_hidden_def listed observations_filed
    using sweep by (auto split: list.split)
qed

section \<open>Capture writes what analyze loads\<close>

lemma snapshot_to_json_runs:
  assumes "snapshot_to_dict s = Inr d"
  shows "snapshot_to_json pretty s = Inr (json_text (if pretty then Some 0 else None) d)"
  using assms by (simp add: snapshot_to_json_def)

lemma capture_writes:
  assumes "gather pf hc w = (Inr host, w0)"
    and "capture uuid (iso_millis now) host euid tool_version ms h = Inr s"
    and "snapshot_to_dict s = Inr d"
    and "out \<noteq> Some (lit ''-'')"
    and "pf_mkdir pf (path_parent (capture_path out now host)) = None"
    and "pf_write pf (capture_path out now host) = None"
  shows "\<exists>w'. cmd_capture pf hc euid now uuid ms h out pretty w = (Inr 0, w') \<and>
     wd_files w' (capture_path out now host) =
       Some (json_text (if pretty then Some 0 else None) d @ replicate 1 10)"
proof -
  let ?t = "json_text (if pretty then Some 0 else None) d"
  have "plain_text (?t @ [10])" by (simp add: plain_json_text)
  note a = plain_ascii(1) [OF this]
  show ?thesis
    using assms write_plain [OF a assms(6)]
    by (auto simp: cmd_capture_def snapshot_to_json_runs mkdir_parents_def print_line_def print_err_def
        store_def)
qed

section \<open>Properties of whole runs\<close>

definition live_host :: "host_sources \<Rightarrow> bool" where
  "live_host h \<longleftrightarrow>
     (\<exists>a. hx_procs_a h = live_proc_source a) \<and> (\<exists>b. hx_procs_b h = live_proc_source b) \<and>
     (\<exists>c. hx_signals h = live_signal_source c)"

text \<open>The listing of a process source names each pid once.\<close>

definition listed_once :: "proc_source \<Rightarrow> bool" where
  "listed_once src \<longleftrightarrow> (case ps_list_pids src of Inl _ \<Rightarrow> True | Inr pids \<Rightarrow> distinct pids)"

lemma live_capture:
  assumes "capture sid at host euid tv ms h = Inr s" and "live_host h"
  shows "snapshot_ok s" and "detectable_snapshot s"
  using assms capture_ok [OF assms(1)] capture_detectable [OF assms(1)] by (auto simp: live_host_def)

lemma analysis_outcome:
  assumes "detectable_snapshot s" and "\<And>b. baseline = Some b \<Longrightarrow> detectable_snapshot b"
  shows "\<exists>fs. analyze s baseline = Inr fs \<and> outcome s baseline = Inr (exit_of fs)"
proof -
  obtain fs ns where "analyze s baseline = Inr fs" "channel_notes s = Inr ns"
    using analysis_runs [of s baseline] assms unfolding runs_def by blast
  then show ?thesis by (simp add: outcome_def)
qed

text \<open>
  C5: The analysis of a capture of a live host never raises, whatever the host answered: it returns
  findings and notes, both for the snapshot in memory and for the snapshot that was stored and
  loaded, without a baseline or against any other capture; both reports of the result can be
  rendered.
\<close>

theorem capture_analysis_total:
  assumes "capture sid at host euid tv ms h = Inr s" and "live_host h"
    and "capture sid' at' host' euid' tv' ms' h' = Inr b" and "live_host h'"
    and "cur \<in> {s, snapshot_filed s}" and "base \<in> {None, Some b, Some (snapshot_filed b)}"
  shows "\<exists>fs ns iocs t. analyze cur base = Inr fs \<and> channel_notes cur = Inr ns \<and>
     extract_iocs fs = Inr iocs \<and> render_markdown cur fs iocs name ns = Inr t"
proof -
  have "detectable_snapshot cur"
    using assms(5) live_capture(2) [OF assms(1,2)] snapshot_filed_detectable by auto
  moreover have "detectable_snapshot x" if "base = Some x" for x
    using assms(6) that live_capture(2) [OF assms(3,4)] snapshot_filed_detectable by auto
  ultimately obtain fs ns where "analyze cur base = Inr fs" "channel_notes cur = Inr ns"
    using analysis_runs [of cur base] unfolding runs_def by blast
  with report_renders [OF this] show ?thesis by blast
qed

theorem capture_analysis_total_witness:
  "\<exists>s fs ns. capture [] [] sample_host 0 [] 0 rootkit_host = Inr s \<and>
     analyze (snapshot_filed s) (Some s) = Inr fs \<and> channel_notes (snapshot_filed s) = Inr ns"
proof -
  obtain s where s: "capture [] [] sample_host 0 [] 0 rootkit_host = Inr s"
    using rootkit_captured by blast
  have "live_host rootkit_host" by (auto simp: live_host_def rootkit_host_def)
  from capture_analysis_total [OF s this s this, of "snapshot_filed s" "Some s" None] s show ?thesis
    by auto
qed

text \<open>
  C2: A run of \<open>capture\<close> on a live host, followed by \<open>analyze\<close> of the file it wrote: the capture exits
  with 0; the file loads; the analysis ends with 3 if it found something and with 0 if not, in every
  output format. Among the findings a process n is reported by the sweep exactly when a task of n
  answered the sweep and told its thread group while neither walk of the process listing showed n.
\<close>

theorem capture_then_analyze:
  assumes "live_host h" and "gather pf hc w = (Inr host, w0)"
    and "capture uuid (iso_millis now) host euid tool_version ms h = Inr s"
    and "snapshot_to_dict s = Inr d" and "json_ok d"
    and "out \<noteq> lit ''-''" and "out \<noteq> []" and "reachable_files pf [path_text out]"
    and "pf_mkdir pf (path_parent (path_text out)) = None"
    and "listed_once (hx_procs_a h)" and "listed_once (hx_procs_b h)"
  shows "\<exists>w' fs. cmd_capture pf hc euid now uuid ms h (Some out) pretty w = (Inr 0, w') \<and>
     fst (load_snapshot pf out w') = Inr (Some (snapshot_filed s, json_sorted d)) \<and>
     analyze (snapshot_filed s) None = Inr fs \<and>
     fst (cmd_analyze pf pem verify out as_json None key w') = Inr (exit_of fs) \<and>
     (\<forall>n. (\<exists>f \<in> set fs. fi_kind f = HIDDEN_PROCESS \<and> fi_subject f = lit ''pid '' @ str_int n \<and>
          lit ''syscall_kill'' \<in> set (fi_channels_agree f) \<and> C_MEDIUM \<le> fi_confidence f) \<longleftrightarrow>
        sweep_sees (hx_signals h) n \<and> \<not> walk_lists (hx_procs_a h) n \<and> \<not> walk_lists (hx_procs_b h) n)"
proof -
  have path: "capture_path (Some out) now host = path_text out"
    using assms(7) by (simp add: capture_path_def given_def)
  have pf: "pf_read pf (path_text out) = None" "pf_write pf (path_text out) = None"
    using assms(8) by (simp_all add: reachable_files_def)
  obtain w' where w': "cmd_capture pf hc euid now uuid ms h (Some out) pretty w = (Inr 0, w')"
    "wd_files w' (path_text out) = Some (json_text (if pretty then Some 0 else None) d @ replicate 1 10)"
    using capture_writes [OF assms(2,3,4), of "Some out" pretty] assms(6,9) pf(2) by (auto simp: path)
  note live = live_capture [OF assms(3,1)]
  obtain w1 where l: "load_snapshot pf out w' = (Inr (Some (snapshot_filed s, json_sorted d)), w1)"
    using load_stored [OF live(1) assms(4,5) snapshot_to_json_runs [OF assms(4)] w'(2) pf(1)] by blast
  obtain fs where fs: "analyze (snapshot_filed s) None = Inr fs"
    "outcome (snapshot_filed s) None = Inr (exit_of fs)"
    using analysis_outcome [OF snapshot_filed_detectable [OF live(2)], of None] by auto
  then obtain sigs where sigs: "all_signals (snapshot_filed s) None = Inr sigs" "fs = score sigs"
    by (auto elim: analyzeE)
  obtain a b where src: "hx_procs_a h = live_proc_source a" "hx_procs_b h = live_proc_source b"
    using assms(1) by (auto simp: live_host_def)
  have "swept_hidden (snapshot_filed s) n \<longleftrightarrow> sweep_sees (hx_signals h) n \<and>
      \<not> walk_lists (hx_procs_a h) n \<and> \<not> walk_lists (hx_procs_b h) n" for n
    unfolding swept_hidden_filed [OF live(2)]
    by (rule capture_swept_hidden [OF assms(3) src]) (use assms(10,11) src in \<open>auto simp: listed_once_def\<close>)
  moreover have "fst (cmd_analyze pf pem verify out as_json None key w') = Inr (exit_of fs)"
    using fs(2) by (simp add: analyze_outcome run_outcome_def l load_verified_baseline_def given_def Let_def)
  ultimately show ?thesis
    using w'(1) l fs(1) sweep_finding_iff [OF sigs(1)] sigs(2) by auto
qed

text \<open>A host with pid 5 hidden from the listing, and the files a capture reads itself.\<close>

definition rootkit_files :: world where
  "rootkit_files = \<lparr>wd_files = [boot_id_path \<mapsto> lit ''b'' @ [10], stat_path \<mapsto> lit ''btime 9'' @ [10]],
     wd_out = [], wd_err = []\<rparr>"

definition open_files :: platform where
  "open_files = \<lparr>pf_read = (\<lambda>p. None), pf_write = (\<lambda>p. None), pf_mkdir = (\<lambda>p. None), pf_message = (\<lambda>e. [])\<rparr>"

definition sample_calls :: host_calls where
  "sample_calls = \<lparr>hc_release = lit ''6.1'', hc_machine = lit ''x86_64'', hc_hostname = lit ''h'', hc_clk_tck = 100\<rparr>"

definition sample_time :: datetime where
  "sample_time = \<lparr>dt_year = 2026, dt_month = 1, dt_day = 2, dt_hour = 3, dt_minute = 4, dt_second = 5,
     dt_microsecond = 6789\<rparr>"

lemma rootkit_gathered:
  "\<exists>host w0 s d. gather open_files sample_calls rootkit_files = (Inr host, w0) \<and>
     capture [] (iso_millis sample_time) host 0 tool_version 0 rootkit_host = Inr s \<and>
     snapshot_to_dict s = Inr d \<and> json_ok d"
proof -
  let ?host = "\<lparr>hf_hostname = lit ''h'', hf_kernel_release = lit ''6.1'', hf_arch = lit ''x86_64'',
    hf_boot_id = lit ''b'', hf_btime = 9, hf_clock_ticks_per_sec = 100\<rparr>"
  have "fst (gather open_files sample_calls rootkit_files) = Inr ?host" by code_simp
  then obtain w0 where "gather open_files sample_calls rootkit_files = (Inr ?host, w0)"
    by (cases "gather open_files sample_calls rootkit_files") simp
  moreover have "case bindE (capture [] (iso_millis sample_time) ?host 0 tool_version 0 rootkit_host)
      snapshot_to_dict of Inl _ \<Rightarrow> False | Inr d \<Rightarrow> json_small d" by code_simp
  then obtain s d where "capture [] (iso_millis sample_time) ?host 0 tool_version 0 rootkit_host = Inr s"
    "snapshot_to_dict s = Inr d" "json_small d"
    by (auto split: sum.splits simp: bindE_eq_Inr_iff)
  ultimately show ?thesis using json_small_ok by blast
qed

lemma rootkit_listing:
  "live_host rootkit_host"
  "ps_list_pids (hx_procs_a rootkit_host) = Inr [1, 7]" "ps_list_pids (hx_procs_b rootkit_host) = Inr [1, 7]"
  by (auto simp: live_host_def rootkit_host_def) (code_simp, code_simp)

theorem capture_then_analyze_witness:
  "\<exists>w' fs. cmd_capture open_files sample_calls 0 sample_time [] 0 rootkit_host (Some (lit ''c.json''))
       True rootkit_files = (Inr 0, w') \<and>
     fst (cmd_analyze open_files (\<lambda>b. Inr (Some ())) (\<lambda>k sig m. True) (lit ''c.json'') False None None w') =
       Inr (exit_of fs) \<and>
     (\<exists>f \<in> set fs. fi_kind f = HIDDEN_PROCESS \<and> fi_subject f = lit ''pid '' @ str_int 5)"
proof -
  obtain host w0 s d where g: "gather open_files sample_calls rootkit_files = (Inr host, w0)"
    "capture [] (iso_millis sample_time) host 0 tool_version 0 rootkit_host = Inr s"
    "snapshot_to_dict s = Inr d" "json_ok d"
    using rootkit_gathered by blast
  have pf: "reachable_files open_files [path_text (lit ''c.json'')]"
    "pf_mkdir open_files (path_parent (path_text (lit ''c.json''))) = None"
    by (simp_all add: reachable_files_def open_files_def)
  have out: "lit ''c.json'' \<noteq> lit ''-''" "lit ''c.json'' \<noteq> []" by code_simp+
  have "ss_pid_max (hx_signals rootkit_host) = Inr 8"
    "5 \<in> set (ss_sweep (hx_signals rootkit_host) 8)"
    "ss_read_status (hx_signals rootkit_host) 5 = Some (5, Some (lit ''x''))"
    by code_simp+
  then have seen: "sweep_sees (hx_signals rootkit_host) 5" unfolding sweep_sees_def by blast
  have hidden: "\<not> walk_lists (hx_procs_a rootkit_host) 5" "\<not> walk_lists (hx_procs_b rootkit_host) 5"
    by (simp_all add: walk_lists_def rootkit_listing)
  have distinct: "listed_once (hx_procs_a rootkit_host)" "listed_once (hx_procs_b rootkit_host)"
    by (simp_all add: listed_once_def rootkit_listing)
  obtain w' fs where "cmd_capture open_files sample_calls 0 sample_time [] 0 rootkit_host
      (Some (lit ''c.json'')) True rootkit_files = (Inr 0, w')"
    "fst (cmd_analyze open_files (\<lambda>b. Inr (Some ())) (\<lambda>k sig m. True) (lit ''c.json'') False None None w') =
      Inr (exit_of fs)"
    "\<forall>n. (\<exists>f \<in> set fs. fi_kind f = HIDDEN_PROCESS \<and> fi_subject f = lit ''pid '' @ str_int n \<and>
          lit ''syscall_kill'' \<in> set (fi_channels_agree f) \<and> C_MEDIUM \<le> fi_confidence f) \<longleftrightarrow>
        sweep_sees (hx_signals rootkit_host) n \<and> \<not> walk_lists (hx_procs_a rootkit_host) n \<and>
        \<not> walk_lists (hx_procs_b rootkit_host) n"
    using capture_then_analyze [OF rootkit_listing(1) g out pf distinct, of True
        "\<lambda>b. Inr (Some ())" "\<lambda>k sig m. True" False None]
    by (elim exE conjE)
  with seen hidden show ?thesis by (intro exI [of _ w'] exI [of _ fs]) blast
qed

end
