(* ===== verification/Fixture_Capture.thy ===== *)
theory Fixture_Capture
  imports Sources Host_Files
begin

text \<open>
  \<open>tools/capture_fixture.py\<close>: the tool that copies processes of a live \<open>/proc\<close> into the fixture tree
  \<open>FixtureProcSource\<close> replays, and makes up a denied and a vanished process. Reads of the live system
  go to the record \<open>os\<close>, files are written on the machine. The lemmas follow one process into the tree
  and out of it again.
\<close>

section \<open>The tool\<close>

definition proc_files :: "pystr list" where
  "proc_files = [lit ''stat'', lit ''cmdline'', lit ''status'']"

definition read_proc :: "os \<Rightarrow> int \<Rightarrow> pystr \<Rightarrow> pystr option" where
  "read_proc os pid name =
     (case os_read os (proc_path (lit ''/proc'') pid name) of Inl _ \<Rightarrow> None | Inr t \<Rightarrow> Some t)"

text \<open>The \<open>OSError\<close> of the listing and the \<open>ValueError\<close> of \<open>int\<close> are not caught.\<close>

definition first_kworker :: "os \<Rightarrow> int option result" where
  "first_kworker os =
     bindE (case os_listdir os (lit ''/proc'') of
              Inl exc \<Rightarrow> Inl (OSError (fst exc) (snd exc)) | Inr names \<Rightarrow> numeric_names names) (\<lambda>pids.
     Inr (find (\<lambda>pid. case read_proc os pid (lit ''comm'') of
                  None \<Rightarrow> False | Some comm \<Rightarrow> startswith comm (lit ''kworker/'')) pids))"

text \<open>The path of a file of the tree, as \<open>FixtureProcSource\<close> makes it, and the key of its failure.\<close>

definition tree_path :: "pystr \<Rightarrow> int \<Rightarrow> pystr \<Rightarrow> pystr" where
  "tree_path dest pid name = proc_path (dest @ lit ''/proc'') pid name"

definition tree_dir :: "pystr \<Rightarrow> int \<Rightarrow> pystr" where
  "tree_dir dest pid = dest @ lit ''/proc/'' @ str_int pid"

definition failure_key :: "int \<Rightarrow> pystr \<Rightarrow> pystr" where
  "failure_key pid name = str_int pid @ lit ''/'' @ name"

type_synonym failures = "(pystr \<times> pystr) list"

fun copy_files ::
  "platform \<Rightarrow> os \<Rightarrow> pystr \<Rightarrow> int \<Rightarrow> pystr list \<Rightarrow> failures \<Rightarrow> failures act" where
  "copy_files pf os dest pid [] errors = lift (Inr errors)"
| "copy_files pf os dest pid (name # names) errors =
     (case read_proc os pid name of
        None \<Rightarrow>
          copy_files pf os dest pid names (AList.update (failure_key pid name) (lit ''ENOENT'') errors)
      | Some t \<Rightarrow>
          bindW (write_text pf (tree_path dest pid name) t) (\<lambda>_.
          copy_files pf os dest pid names errors))"

text \<open>The \<open>try\<close> covers the read of the link and the write of its copy.\<close>

definition copy_link :: "platform \<Rightarrow> os \<Rightarrow> pystr \<Rightarrow> int \<Rightarrow> failures \<Rightarrow> failures act" where
  "copy_link pf os dest pid errors =
     bindW (attempt
       (bindW (lift (case os_readlink os (proc_path (lit ''/proc'') pid (lit ''exe'')) of
                       Inl exc \<Rightarrow> Inl (OSError (fst exc) (snd exc)) | Inr target \<Rightarrow> Inr target)) (\<lambda>target.
        write_text pf (tree_path dest pid (lit ''exe.readlink'')) (target @ [10])))) (\<lambda>r.
     case r of
       Inr _ \<Rightarrow> lift (Inr errors)
     | Inl (OSError n m) \<Rightarrow>
         lift (Inr (AList.update (failure_key pid (lit ''exe''))
                      (if n = 2 then lit ''ENOENT'' else lit ''EACCES'') errors))
     | Inl e \<Rightarrow> lift (Inl e))"

definition capture_process :: "platform \<Rightarrow> os \<Rightarrow> pystr \<Rightarrow> int \<Rightarrow> failures \<Rightarrow> failures act" where
  "capture_process pf os dest pid errors =
     bindW (mkdir_parents pf (tree_dir dest pid)) (\<lambda>_.
     bindW (copy_files pf os dest pid proc_files errors) (\<lambda>errors.
     copy_link pf os dest pid errors))"

text \<open>\<open>stat[stat.rfind(")") + 1:]\<close>; without a parenthesis that is the whole text.\<close>

definition after_comm :: "pystr \<Rightarrow> pystr" where
  "after_comm s = (case rfind_char 41 s of None \<Rightarrow> s | Some i \<Rightarrow> drop (i + 1) s)"

definition or_empty :: "pystr option \<Rightarrow> pystr" where
  "or_empty t = (case t of None \<Rightarrow> [] | Some s \<Rightarrow> s)"

definition synthesise_denied :: "platform \<Rightarrow> os \<Rightarrow> pystr \<Rightarrow> failures \<Rightarrow> failures act" where
  "synthesise_denied pf os dest errors =
     bindW (mkdir_parents pf (tree_dir dest 812)) (\<lambda>_.
     let tail = after_comm (or_empty (read_proc os 1 (lit ''stat''))) in
     bindW (write_text pf (tree_path dest 812 (lit ''stat'')) (lit ''812 (sshd)'' @ tail)) (\<lambda>_.
     bindW (write_text pf (tree_path dest 812 (lit ''cmdline''))
              (lit ''/usr/sbin/sshd'' @ [0] @ lit ''-D'' @ [0])) (\<lambda>_.
     bindW (write_text pf (tree_path dest 812 (lit ''status''))
              (or_empty (read_proc os 1 (lit ''status'')))) (\<lambda>_.
     lift (Inr (AList.update (lit ''812/exe'') (lit ''EACCES'') errors))))))"

definition synthesise_vanished :: "platform \<Rightarrow> pystr \<Rightarrow> failures \<Rightarrow> failures act" where
  "synthesise_vanished pf dest errors =
     bindW (mkdir_parents pf (tree_dir dest 4171)) (\<lambda>_.
     bindW (write_text pf (tree_path dest 4171 (lit ''.gitkeep'')) []) (\<lambda>_.
     lift (Inr (AList.update (lit ''4171/stat'') (lit ''ENOENT'') errors))))"

section \<open>The synthetic stat line\<close>

lemma rstrip_around: "\<not> isspace x \<Longrightarrow> rstrip (a @ x # b) = a @ x # rstrip b"
  by (simp add: rstrip_def dropWhile_append)

lemma parse_stat_renumbered:
  assumes "parse_stat t = Inr f"
  shows "parse_stat (lit ''812 (sshd)'' @ after_comm t) = Inr (f\<lparr>sf_pid := 812, sf_comm := lit ''sshd''\<rparr>)"
proof -
  have sp: "\<not> isspace 41" by code_simp
  obtain i c where oc: "find_char 40 (rstrip t) = Some i" "rfind_char 41 (rstrip t) = Some c" "i \<le> c"
    using assms by (auto simp: parse_stat_def Let_def split: option.splits if_splits)
  then have "41 \<in> set (rstrip t)" by (metis option.distinct(1) rfind_char_None)
  then have "41 \<in> set t" by (auto simp: rstrip_def dest: set_dropWhileD)
  then obtain a b where t: "t = a @ 41 # b" "41 \<notin> set b" using split_list_last by metis
  have st: "rstrip t = a @ 41 # rstrip b" by (simp add: t rstrip_around [OF sp])
  have b: "41 \<notin> set (rstrip b)" using t(2) by (auto simp: rstrip_def dest: set_dropWhileD)
  have c: "c = length a" using oc(2) rfind_char_append [OF b, of a] by (simp add: st)
  have rest: "drop (c + 1) (rstrip t) = rstrip b" by (simp add: st c)
  obtain pid comm where v: "20 \<le> length (split_ws (rstrip b))"
    "stat_values pid comm (split_ws (rstrip b)) = Inr f"
    using assms oc rest
    by (auto simp: parse_stat_def Let_def on_value_error_Inr_iff simp del: One_nat_def split: if_splits)
  define x where "x = lit ''812 (sshd'' @ 41 # rstrip b"
  have "after_comm t = b" using rfind_char_append [OF t(2), of a] by (simp add: after_comm_def t(1))
  moreover have "lit ''812 (sshd)'' @ b = lit ''812 (sshd'' @ 41 # b" by (simp add: lit_def)
  ultimately have strip: "rstrip (lit ''812 (sshd)'' @ after_comm t) = x"
    using rstrip_around [OF sp] by (simp add: x_def)
  have rfind: "rfind_char 41 x = Some 9"
    using rfind_char_append [OF b, of "lit ''812 (sshd''"] by (simp add: x_def)
  have find: "find_char 40 x = Some 4" by (simp add: x_def lit_def)
  have parts: "take 4 x = lit ''812 ''" "take (9 - (4 + 1)) (drop (4 + 1) x) = lit ''sshd''"
    "drop (9 + 1) x = rstrip b"
    by (simp_all add: x_def lit_def)
  have "py_int (strip (lit ''812 '')) = Inr 812" by code_simp
  then have "stat_values (lit ''812 '') (lit ''sshd'') (split_ws (rstrip b)) =
      Inr (f\<lparr>sf_pid := 812, sf_comm := lit ''sshd''\<rparr>)"
    using v(2) by (auto simp: stat_values_def bindE_eq_Inr_iff)
  moreover have "\<not> (9::nat) < 4" by simp
  ultimately show ?thesis
    unfolding parse_stat_def Let_def strip find rfind option.case prod.case
    using v(1) by (simp only: parts if_False on_value_error_simps not_less [symmetric])
qed

section \<open>What a copied process replays\<close>

lemma write_text_Inr:
  "write_text pf p t w = (Inr (), w') \<longleftrightarrow>
     pf_write pf p = None \<and> (\<exists>bs. utf8_encode t = Inr bs \<and> w' = store p bs w)"
  by (auto simp: write_text_def write_bytes_def store_def split: option.split sum.split)

lemma bindW_Inr:
  "bindW m f w = (Inr y, w') \<longleftrightarrow> (\<exists>x v. m w = (Inr x, v) \<and> f x v = (Inr y, w'))"
  by (auto simp: bindW_def split: prod.split sum.split)

lemma mkdir_Inr: "mkdir_parents pf p w = (Inr u, v) \<longleftrightarrow> pf_mkdir pf p = None \<and> v = w"
  by (auto simp: mkdir_parents_def split: option.splits)

lemma paths_inj [simp]:
  "tree_path dest pid n = tree_path dest pid n' \<longleftrightarrow> n = n'"
  "failure_key pid n = failure_key pid n' \<longleftrightarrow> n = n'"
  by (simp_all add: tree_path_def proc_path_def failure_key_def)

text \<open>The file of a name that could be read holds its text, and a name that could not is recorded.\<close>

definition copied :: "os \<Rightarrow> pystr \<Rightarrow> int \<Rightarrow> failures \<Rightarrow> failures \<Rightarrow> world \<Rightarrow> pystr \<Rightarrow> bool" where
  "copied os dest pid errors errors' w name \<longleftrightarrow>
     (case read_proc os pid name of
        None \<Rightarrow> map_of errors' (failure_key pid name) = Some (lit ''ENOENT'')
      | Some t \<Rightarrow> map_of errors' (failure_key pid name) = map_of errors (failure_key pid name) \<and>
          (\<exists>bs. utf8_encode t = Inr bs \<and> wd_files w (tree_path dest pid name) = Some bs))"

lemma copy_files_copied:
  assumes "copy_files pf os dest pid names errors w = (Inr errors', w')" and "distinct names"
  shows "(\<forall>name \<in> set names. copied os dest pid errors errors' w' name) \<and>
     (\<forall>k. k \<notin> failure_key pid ` set names \<longrightarrow> map_of errors' k = map_of errors k) \<and>
     (\<forall>p. p \<notin> tree_path dest pid ` set names \<longrightarrow> wd_files w' p = wd_files w p)"
  using assms
proof (induction names arbitrary: errors w)
  case (Cons name names)
  have new: "name \<notin> set names" and d: "distinct names" using Cons.prems(2) by simp_all
  have nk: "failure_key pid name \<notin> failure_key pid ` set names" using new by auto
  show ?case
  proof (cases "read_proc os pid name")
    case None
    let ?e = "AList.update (failure_key pid name) (lit ''ENOENT'') errors"
    have "copy_files pf os dest pid names ?e w = (Inr errors', w')" using Cons.prems(1) None by simp
    note IH = Cons.IH [OF this d]
    have "copied os dest pid errors errors' w' n" if "n \<in> set names" for n
      using IH that new by (auto simp: copied_def update_conv' split: option.splits)
    moreover have "map_of errors' (failure_key pid name) = Some (lit ''ENOENT'')"
      using IH nk by (simp add: update_conv')
    then have "copied os dest pid errors errors' w' name" by (simp add: copied_def None)
    ultimately show ?thesis using IH by (auto simp: update_conv')
  next
    case (Some t)
    then obtain v where "write_text pf (tree_path dest pid name) t w = (Inr (), v)"
      and r: "copy_files pf os dest pid names errors v = (Inr errors', w')"
      using Cons.prems(1) by (auto simp: bindW_Inr simp del: act_simps)
    then obtain bs where bs: "utf8_encode t = Inr bs" "v = store (tree_path dest pid name) bs w"
      by (auto simp: write_text_Inr)
    note IH = Cons.IH [OF r d]
    have "tree_path dest pid name \<notin> tree_path dest pid ` set names" using new by auto
    then have "wd_files w' (tree_path dest pid name) = Some bs" using IH bs by (simp add: store_def)
    moreover have "map_of errors' (failure_key pid name) = map_of errors (failure_key pid name)"
      using IH nk by simp
    ultimately show ?thesis
      using IH bs by (auto simp: copied_def Some store_def)
  qed
qed simp

text \<open>The executable link: its target is stored with a line end, or the failure is recorded.\<close>

lemma copy_link_copied:
  assumes "copy_link pf os dest pid errors w = (Inr errors', w')"
    and "pf_write pf (tree_path dest pid (lit ''exe.readlink'')) = None"
  shows "case os_readlink os (proc_path (lit ''/proc'') pid (lit ''exe'')) of
       Inl exc \<Rightarrow> w' = w \<and> errors' = AList.update (failure_key pid (lit ''exe''))
         (if fst exc = 2 then lit ''ENOENT'' else lit ''EACCES'') errors
     | Inr target \<Rightarrow> errors' = errors \<and> (\<exists>bs. utf8_encode (target @ [10]) = Inr bs \<and>
         w' = store (tree_path dest pid (lit ''exe.readlink'')) bs w)"
proof (cases "os_readlink os (proc_path (lit ''/proc'') pid (lit ''exe''))")
  case (Inl exc)
  then show ?thesis using assms(1) by (auto simp: copy_link_def)
next
  case (Inr target)
  then show ?thesis
    using assms by (auto simp: copy_link_def write_text_def write_bytes_def store_def utf8_encode_def
        split: if_splits)
qed

text \<open>A fixture over the finished tree: a file that decodes is read as its text.\<close>

definition serves :: "fixture \<Rightarrow> world \<Rightarrow> bool" where
  "serves fx w \<longleftrightarrow>
     (\<forall>p bs t. wd_files w p = Some bs \<longrightarrow> utf8_decode False bs = Some t \<longrightarrow>
        fx_read fx p = Inr (universal_newlines t))"

text \<open>Text as a read in text mode returns it: code points, no carriage return, no surrogate.\<close>

definition text_read :: "pystr \<Rightarrow> bool" where
  "text_read t \<longleftrightarrow> list_all (\<lambda>c. 0 \<le> c \<and> c < 1114112 \<and> \<not> is_surrogate c) t \<and> 13 \<notin> set t"

lemma text_read_encodes: "text_read t \<Longrightarrow> \<exists>bs. utf8_encode t = Inr bs"
  by (auto simp: text_read_def utf8_encode_def list_all_iff list_ex_iff)

lemma serves_written:
  assumes "serves fx w" and "wd_files w p = Some bs" and "utf8_encode t = Inr bs" and "text_read t"
  shows "fx_read fx p = Inr t"
proof -
  have "utf8_decode False bs = Some t"
    using assms(3,4) by (intro utf8_decode_encode) (auto simp: text_read_def list_all_iff)
  then show ?thesis using assms(1,2,4) by (auto simp: serves_def text_read_def universal_newlines_id)
qed

text \<open>Everything a process answered is in the tree: its texts and its link, or their failures.\<close>

definition in_tree :: "os \<Rightarrow> pystr \<Rightarrow> failures \<Rightarrow> world \<Rightarrow> int \<Rightarrow> bool" where
  "in_tree os dest errors w pid \<longleftrightarrow>
     (\<forall>name \<in> set proc_files. copied os dest pid [] errors w name) \<and>
     (case os_readlink os (proc_path (lit ''/proc'') pid (lit ''exe'')) of
       Inl exc \<Rightarrow> map_of errors (failure_key pid (lit ''exe'')) =
         Some (if fst exc = 2 then lit ''ENOENT'' else lit ''EACCES'')
     | Inr target \<Rightarrow> map_of errors (failure_key pid (lit ''exe'')) = None \<and>
         (\<exists>bs. utf8_encode (target @ [10]) = Inr bs \<and>
           wd_files w (tree_path dest pid (lit ''exe.readlink'')) = Some bs))"

text \<open>An action on the tree that only concerns some processes.\<close>

definition only_for :: "pystr \<Rightarrow> int set \<Rightarrow> failures \<Rightarrow> failures \<Rightarrow> world \<Rightarrow> world \<Rightarrow> bool" where
  "only_for dest Q errors errors' w w' \<longleftrightarrow>
     (\<forall>p. p \<notin> (\<Union>q \<in> Q. range (tree_path dest q)) \<longrightarrow> wd_files w' p = wd_files w p) \<and>
     (\<forall>k. k \<notin> (\<Union>q \<in> Q. range (failure_key q)) \<longrightarrow> map_of errors' k = map_of errors k)"

lemma only_for_refl: "wd_files w' = wd_files w \<Longrightarrow> only_for dest Q errors errors w w'"
  by (simp add: only_for_def)

lemma only_for_trans:
  "only_for dest Q errors errors1 w w1 \<Longrightarrow> only_for dest R errors1 errors2 w1 w2 \<Longrightarrow>
   only_for dest (Q \<union> R) errors errors2 w w2"
  by (simp add: only_for_def)

lemma slash_once: "(a :: pystr) @ 47 # b = c @ 47 # d \<Longrightarrow> 47 \<notin> set a \<Longrightarrow> 47 \<notin> set c \<Longrightarrow> a = c"
  using split_once_append [of 47 a b] split_once_append [of 47 c d] by (metis Pair_inject option.inject)

lemma str_int_slash: "47 \<notin> set (str_int i)"
  using str_int_chars [of 47 i] by auto

lemma failure_key_other: "pid \<noteq> q \<Longrightarrow> failure_key pid n \<noteq> failure_key q m"
  using slash_once [of "str_int pid" n "str_int q" m] str_int_slash by (auto simp: failure_key_def lit_def)

lemma tree_path_key: "tree_path dest pid n = dest @ lit ''/proc/'' @ failure_key pid n"
  by (simp add: tree_path_def proc_path_def failure_key_def lit_def)

lemma only_for_same:
  assumes "only_for dest Q errors errors' w w'" and "pid \<notin> Q"
  shows "map_of errors' (failure_key pid n) = map_of errors (failure_key pid n)"
    and "wd_files w' (tree_path dest pid n) = wd_files w (tree_path dest pid n)"
proof -
  have "failure_key pid n \<noteq> failure_key q m" "tree_path dest pid n \<noteq> tree_path dest q m" if "q \<in> Q" for q m
    using failure_key_other [of pid q n m] that assms(2) by (auto simp: tree_path_key)
  then have "failure_key pid n \<notin> (\<Union>q \<in> Q. range (failure_key q))"
    "tree_path dest pid n \<notin> (\<Union>q \<in> Q. range (tree_path dest q))" by blast+
  with assms(1) show "map_of errors' (failure_key pid n) = map_of errors (failure_key pid n)"
    "wd_files w' (tree_path dest pid n) = wd_files w (tree_path dest pid n)"
    by (simp_all add: only_for_def)
qed

lemma in_tree_same:
  assumes "in_tree os dest errors w pid"
    and "\<And>n. map_of errors' (failure_key pid n) = map_of errors (failure_key pid n)"
    and "\<And>n. wd_files w' (tree_path dest pid n) = wd_files w (tree_path dest pid n)"
  shows "in_tree os dest errors' w' pid"
proof -
  have "copied os dest pid [] errors' w' n = copied os dest pid [] errors w n" for n
    using assms(2,3) by (simp add: copied_def split: option.split)
  with assms show ?thesis by (auto simp: in_tree_def split: sum.splits)
qed

lemma in_tree_only_for:
  "in_tree os dest errors w pid \<Longrightarrow> only_for dest Q errors errors' w w' \<Longrightarrow> pid \<notin> Q \<Longrightarrow>
   in_tree os dest errors' w' pid"
  by (rule in_tree_same) (simp_all add: only_for_same)

lemma capture_process_in_tree:
  assumes "capture_process pf os dest pid errors w = (Inr errors', w')"
    and "pf_write pf (tree_path dest pid (lit ''exe.readlink'')) = None"
  shows "only_for dest {pid} errors errors' w w'"
    and "list_all (\<lambda>name. map_of errors (failure_key pid name) = None) (lit ''exe'' # proc_files) \<Longrightarrow>
      in_tree os dest errors' w' pid"
proof -
  obtain e v u where c: "copy_files pf os dest pid proc_files errors u = (Inr e, v)"
    and l: "copy_link pf os dest pid e v = (Inr errors', w')" and u: "wd_files u = wd_files w"
    using assms(1) by (auto simp: capture_process_def bindW_Inr mkdir_Inr simp del: act_simps)
  have "distinct proc_files" by (simp add: proc_files_def)
  note copied = copy_files_copied [OF c this]
  note link = copy_link_copied [OF l assms(2)]
  have "map_of e k = map_of errors k" if "k \<notin> range (failure_key pid)" for k
    using copied that by blast
  moreover have "wd_files v p = wd_files w p" if "p \<notin> range (tree_path dest pid)" for p
    using copied that unfolding u by blast
  ultimately show "only_for dest {pid} errors errors' w w'"
    using link by (auto simp: only_for_def update_conv' store_def split: sum.splits)
  assume fresh: "list_all (\<lambda>name. map_of errors (failure_key pid name) = None) (lit ''exe'' # proc_files)"
  have names: "lit ''exe'' \<notin> set proc_files" "lit ''exe.readlink'' \<notin> set proc_files"
    by (simp_all add: proc_files_def)
  have "copied os dest pid [] errors' w' name" if "name \<in> set proc_files" for name
    using copied link names that fresh
    by (auto simp: copied_def update_conv' store_def list_all_iff split: sum.splits option.splits)
  moreover have "failure_key pid (lit ''exe'') \<notin> failure_key pid ` set proc_files" using names by auto
  ultimately show "in_tree os dest errors' w' pid"
    using copied link fresh by (auto simp: in_tree_def update_conv' store_def split: sum.splits)
qed

section \<open>The tree replays\<close>

text \<open>The texts of a process, as a read in text mode returns them, and its link.\<close>

definition answers_text :: "os \<Rightarrow> int \<Rightarrow> bool" where
  "answers_text os pid \<longleftrightarrow>
     list_all (\<lambda>name. case read_proc os pid name of None \<Rightarrow> True | Some t \<Rightarrow> text_read t) proc_files \<and>
     (case os_readlink os (proc_path (lit ''/proc'') pid (lit ''exe'')) of
        Inl _ \<Rightarrow> True | Inr t \<Rightarrow> text_read t \<and> rstrip_newlines t = t)"

text \<open>
  A source replays a process: every text and the link that the live process gave. A stat, cmdline or
  status that could not be read, for whatever reason, is vanished; a link that could not be read is
  vanished if its error was ENOENT and denied otherwise.
\<close>

definition replays :: "os \<Rightarrow> proc_source \<Rightarrow> int \<Rightarrow> bool" where
  "replays os src pid \<longleftrightarrow>
     list_all (\<lambda>name.
       case read_proc os pid name of
         None \<Rightarrow> (case ps_read_text src pid name of Inl (Vanished _) \<Rightarrow> True | _ \<Rightarrow> False)
       | Some t \<Rightarrow> ps_read_text src pid name = Inr t) proc_files \<and>
     (case os_readlink os (proc_path (lit ''/proc'') pid (lit ''exe'')) of
        Inl exc \<Rightarrow> (case ps_read_link src pid (lit ''exe'') of
            Inl (Vanished _) \<Rightarrow> fst exc = 2 | Inl (Denied _) \<Rightarrow> fst exc \<noteq> 2 | _ \<Rightarrow> False)
      | Inr t \<Rightarrow> ps_read_link src pid (lit ''exe'') = Inr t)"

lemma in_tree_replays:
  assumes "in_tree os dest errors w pid" and "answers_text os pid"
    and "fx_root fx = dest" and "map_of (fx_errors fx) = map_of errors" and "serves fx w"
  shows "replays os (fixture_proc_source fx) pid"
proof -
  have src: "proc_path (fx_root fx @ lit ''/proc'') pid n = tree_path dest pid n"
    "str_int pid @ lit ''/'' @ n = failure_key pid n" for n
    by (simp_all add: tree_path_def failure_key_def assms(3))
  note defs = fixture_proc_source_def fixture_read_def recorded_failure_def Let_def src assms(4) translated_def
  have "case read_proc os pid name of
         None \<Rightarrow> (case ps_read_text (fixture_proc_source fx) pid name of Inl (Vanished _) \<Rightarrow> True | _ \<Rightarrow> False)
       | Some t \<Rightarrow> ps_read_text (fixture_proc_source fx) pid name = Inr t" if n: "name \<in> set proc_files" for name
  proof (cases "read_proc os pid name")
    case None
    then show ?thesis using assms(1) n by (auto simp: in_tree_def copied_def defs)
  next
    case (Some t)
    have "text_read t" using assms(2) n Some by (auto simp: answers_text_def list_all_iff split: option.splits)
    moreover have "copied os dest pid [] errors w name" using assms(1) n by (simp add: in_tree_def)
    then obtain bs where "utf8_encode t = Inr bs" "wd_files w (tree_path dest pid name) = Some bs"
      "map_of errors (failure_key pid name) = None"
      by (auto simp: copied_def Some)
    ultimately show ?thesis using serves_written [OF assms(5)] by (simp add: Some defs)
  qed
  moreover have "case os_readlink os (proc_path (lit ''/proc'') pid (lit ''exe'')) of
        Inl exc \<Rightarrow> (case ps_read_link (fixture_proc_source fx) pid (lit ''exe'') of
            Inl (Vanished _) \<Rightarrow> fst exc = 2 | Inl (Denied _) \<Rightarrow> fst exc \<noteq> 2 | _ \<Rightarrow> False)
      | Inr t \<Rightarrow> ps_read_link (fixture_proc_source fx) pid (lit ''exe'') = Inr t"
  proof (cases "os_readlink os (proc_path (lit ''/proc'') pid (lit ''exe''))")
    case (Inl exc)
    then show ?thesis using assms(1) by (auto simp: in_tree_def defs)
  next
    case (Inr t)
    have t: "text_read (t @ [10])" "rstrip_newlines (t @ [10]) = t"
      using assms(2) Inr by (simp_all add: answers_text_def text_read_def rstrip_newlines_def is_surrogate_def)
    have "map_of errors (failure_key pid (lit ''exe'')) = None \<and> (\<exists>bs. utf8_encode (t @ [10]) = Inr bs \<and>
        wd_files w (tree_path dest pid (lit ''exe.readlink'')) = Some bs)"
      using assms(1) by (simp add: in_tree_def Inr)
    then obtain bs where "utf8_encode (t @ [10]) = Inr bs"
      "wd_files w (tree_path dest pid (lit ''exe.readlink'')) = Some bs"
      "map_of errors (failure_key pid (lit ''exe'')) = None" by blast
    with serves_written [OF assms(5) _ _ t(1)] t(2) show ?thesis
      by (simp add: Inr defs lit_append [symmetric])
  qed
  ultimately show ?thesis by (simp add: replays_def list_all_iff)
qed

end
