(* ===== verification/Fixture_Tool.thy ===== *)
theory Fixture_Tool
  imports Fixture_Capture Json_Text
begin

text \<open>
  The main function of \<open>tools/capture_fixture.py\<close>, and the constructors of \<open>collectors/sources.py\<close> that
  open what it wrote. The sample processes the tool starts are given by their pids, the listing it
  prints at the end by the files it finds. A whole run is followed to the replay: what the tool wrote
  can be opened, and every process replays as it answered.
\<close>

section \<open>The constructors of the fixture sources\<close>

text \<open>The sidecar of recorded failures: a document of another shape leaves the annotated type.\<close>

definition errors_path :: "pystr \<Rightarrow> pystr" where
  "errors_path root = root @ lit ''/_errors.json''"

definition str_items :: "json \<Rightarrow> (pystr \<times> pystr) list result" where
  "str_items v =
     (case v of
        JDict d \<Rightarrow> mapE (\<lambda>(k, x). bindE (as_str x) (\<lambda>s. Inr (k, s))) d
      | _ \<Rightarrow> Inl OutOfContract)"

definition load_errors :: "platform \<Rightarrow> pystr \<Rightarrow> failures act" where
  "load_errors pf root w =
     (if wd_files w (errors_path root) = None then (Inr [], w)
      else bindW (read_text pf (errors_path root)) (\<lambda>t. lift (bindE (loads t) str_items)) w)"

text \<open>
  The source over a tree on the machine: what \<open>errors="replace"\<close> makes of bytes that are no UTF-8,
  and the names under \<open>proc\<close>, are parameters.
\<close>

definition tree_fixture ::
  "(int list \<Rightarrow> pystr) \<Rightarrow> pystr list option \<Rightarrow> pystr \<Rightarrow> failures \<Rightarrow> world \<Rightarrow> fixture" where
  "tree_fixture lossy names root errors w =
     \<lparr>fx_root = root, fx_errors = errors, fx_names = names,
      fx_read = (\<lambda>p. case wd_files w p of
          None \<Rightarrow> Inl (2, lit ''No such file or directory'')
        | Some bs \<Rightarrow> Inr (universal_newlines
            (case utf8_decode False bs of None \<Rightarrow> lossy bs | Some t \<Rightarrow> t)))\<rparr>"

definition open_proc_tree ::
  "platform \<Rightarrow> (int list \<Rightarrow> pystr) \<Rightarrow> pystr list option \<Rightarrow> pystr \<Rightarrow> fixture act" where
  "open_proc_tree pf lossy names root =
     (let root' = path_text root in
      bindW (load_errors pf root') (\<lambda>errors w. (Inr (tree_fixture lossy names root' errors w), w)))"

text \<open>A dictionary keyed by the integers its keys spell: a later key for the same integer wins.\<close>

definition int_keys :: "(json \<Rightarrow> 'a result) \<Rightarrow> json \<Rightarrow> (int \<times> 'a) list result" where
  "int_keys conv v =
     bindE (dict_items v) (\<lambda>d.
     bindE (mapE (\<lambda>(k, x). bindE (py_int k) (\<lambda>i. bindE (conv x) (\<lambda>y. Inr (i, y)))) d) (\<lambda>kvs.
     Inr (dict_of fst snd kvs)))"

definition get_or :: "json \<Rightarrow> string \<Rightarrow> json \<Rightarrow> json result" where
  "get_or v k dflt =
     (case v of
        JDict d \<Rightarrow> Inr (case map_of d (lit k) of None \<Rightarrow> dflt | Some x \<Rightarrow> x)
      | _ \<Rightarrow> Inl AttributeError)"

definition signals_of_json :: "json \<Rightarrow> signal_fixture result" where
  "signals_of_json v =
     bindE (fld v ''pid_max'' as_int) (\<lambda>pid_max.
     bindE (fld v ''alive'' (list_of as_int)) (\<lambda>alive.
     bindE (fld v ''tgid'' (int_keys as_int)) (\<lambda>tgid.
     bindE (bindE (get_or v ''comm'' (JDict [])) (int_keys as_str)) (\<lambda>comm.
     bindE (bindE (get_or v ''unreadable_status'' (JList [])) (list_of as_int)) (\<lambda>unreadable.
     Inr \<lparr>sx_pid_max = pid_max, sx_alive = sort alive, sx_tgid = tgid, sx_comm = comm,
          sx_unreadable = unreadable\<rparr>)))))"

definition open_signal_set :: "platform \<Rightarrow> pystr \<Rightarrow> signal_fixture act" where
  "open_signal_set pf path =
     bindW (read_text pf (path_text path)) (\<lambda>t. lift (bindE (loads t) signals_of_json))"

definition load_fds :: "platform \<Rightarrow> pystr \<Rightarrow> (int \<times> int list) list act" where
  "load_fds pf root w =
     (let path = path_text root @ lit ''/fds.json'' in
      if wd_files w path = None then (Inr [], w)
      else bindW (read_text pf path) (\<lambda>t. lift (bindE (loads t) (int_keys (list_of as_int)))) w)"

section \<open>The main function of the tool\<close>

text \<open>\<open>shutil.rmtree\<close> of what exists: a directory goes with everything in it, a file is refused.\<close>

definition clear_tree :: "pystr \<Rightarrow> unit act" where
  "clear_tree dest w =
     (if wd_files w dest \<noteq> None
      then (Inl (OSError 20 (lit ''[Errno 20] Not a directory: '' @ py_repr dest)), w)
      else (Inr (), w\<lparr>wd_files := \<lambda>p. if startswith p (dest @ [47]) then None else wd_files w p\<rparr>))"

fun capture_roster :: "platform \<Rightarrow> os \<Rightarrow> pystr \<Rightarrow> int option list \<Rightarrow> failures \<Rightarrow> failures act" where
  "capture_roster pf os dest [] errors = lift (Inr errors)"
| "capture_roster pf os dest (None # roster) errors =
     bindW (print_err (lit ''warning: no kworker found, skipping'')) (\<lambda>_.
     capture_roster pf os dest roster errors)"
| "capture_roster pf os dest (Some pid # roster) errors =
     bindW (capture_process pf os dest pid errors) (\<lambda>errors.
     capture_roster pf os dest roster errors)"

definition errors_text :: "failures \<Rightarrow> pystr" where
  "errors_text errors = json_text (Some 0) (JDict (map (\<lambda>(k, v). (k, JStr v)) errors)) @ [10]"

definition fixture_main ::
  "platform \<Rightarrow> os \<Rightarrow> pystr \<Rightarrow> (world \<Rightarrow> (pystr \<times> int) list) \<Rightarrow> int \<Rightarrow> int \<Rightarrow> pystr list \<Rightarrow> int act" where
  "fixture_main pf os usage rglob sleeper parened argv =
     (case argv of
        [_, target] \<Rightarrow>
          let dest = path_text target in
          bindW (clear_tree dest) (\<lambda>_.
          bindW (mkdir_parents pf (dest @ lit ''/proc'')) (\<lambda>_.
          bindW (lift (first_kworker os)) (\<lambda>kworker.
          bindW (capture_roster pf os dest [Some 1, Some 2, kworker, Some sleeper, Some parened] []) (\<lambda>errors.
          bindW (synthesise_denied pf os dest errors) (\<lambda>errors.
          bindW (synthesise_vanished pf dest errors) (\<lambda>errors.
          bindW (write_text pf (errors_path dest) (errors_text errors)) (\<lambda>_.
          bindW (print_line (lit ''wrote '' @ dest)) (\<lambda>_.
          bindW (\<lambda>w. print_lines (map (\<lambda>(p, size). lit ''  '' @ p @ lit ''  ('' @ str_int size @ lit '' bytes)'')
                   (rglob w)) w) (\<lambda>_.
          bindW (print_line (10 # lit ''_errors.json:'')) (\<lambda>_.
          bindW (read_text pf (errors_path dest)) (\<lambda>t.
          bindW (print_line t) (\<lambda>_. lift (Inr 0)))))))))))))
      | _ \<Rightarrow> bindW (print_line usage) (\<lambda>_. lift (Inr 2)))"

section \<open>The sidecar reads back\<close>

lemma str_ok_ascii: "list_all (\<lambda>c. 0 \<le> c \<and> c < 128) s \<Longrightarrow> str_ok s"
  by (induction s) (auto simp: clash_def high_surrogate_def)

definition keys_ok :: "failures \<Rightarrow> bool" where
  "keys_ok errors \<longleftrightarrow> distinct (map fst errors) \<and> list_all (\<lambda>(k, v). str_ok k \<and> str_ok v) errors"

lemma keys_ok_update: "keys_ok errors \<Longrightarrow> str_ok k \<Longrightarrow> str_ok v \<Longrightarrow> keys_ok (AList.update k v errors)"
proof -
  assume k: "str_ok k" "str_ok v" and e: "keys_ok errors"
  have "list_all (\<lambda>(k, v). str_ok k \<and> str_ok v) d \<Longrightarrow>
      list_all (\<lambda>(k, v). str_ok k \<and> str_ok v) (AList.update k v d)" for d
    by (induction d) (auto simp: k)
  with e show ?thesis by (simp add: keys_ok_def distinct_update)
qed

lemma str_items_sorted:
  "str_items (json_sorted (JDict (map (\<lambda>(k, v). (k, JStr v)) errors))) = Inr (sort_key fst errors)"
proof -
  have "json_sorted (JDict (map (\<lambda>(k, v). (k, JStr v)) errors)) =
      JDict (map (\<lambda>(k, v). (k, JStr v)) (sort_key fst errors))"
  proof -
    have "map (\<lambda>(k, v). (k, JStr v)) (sort_key fst errors) = sort_key fst (map (\<lambda>(k, v). (k, JStr v)) errors)"
      by (rule map_key_sort [symmetric]) auto
    then show ?thesis by (simp add: json_sorted.simps comp_def case_prod_unfold)
  qed
  moreover have "mapE (\<lambda>(k, x). bindE (as_str x) (\<lambda>s. Inr (k, s))) (map (\<lambda>(k, v). (k, JStr v)) es) = Inr es" for es
    by (induction es) auto
  ultimately show ?thesis by (simp add: str_items_def)
qed

lemma errors_text_encodes:
  "utf8_encode (errors_text errors) = Inr (errors_text errors)"
  "utf8_decode False (errors_text errors) = Some (errors_text errors)" "13 \<notin> set (errors_text errors)"
proof -
  have "plain_text (errors_text errors)" by (simp add: errors_text_def plain_json_text del: json_text.simps)
  then have a: "list_all (\<lambda>c. 0 \<le> c \<and> c < 128) (errors_text errors)" and "13 \<notin> set (errors_text errors)"
    by (auto simp: plain_text_def list_all_iff)
  with utf8_plain [OF a] show "utf8_encode (errors_text errors) = Inr (errors_text errors)"
    "utf8_decode False (errors_text errors) = Some (errors_text errors)" "13 \<notin> set (errors_text errors)"
    by simp_all
qed

lemma errors_text_read:
  assumes "wd_files w (errors_path root) = Some (errors_text errors)" and "pf_read pf (errors_path root) = None"
  shows "read_text pf (errors_path root) w = (Inr (errors_text errors), w)"
  using assms by (simp add: read_text_def read_bytes_def universal_newlines_id errors_text_encodes)

text \<open>The written sidecar opens with the recorded failures.\<close>

lemma load_written:
  assumes "keys_ok errors" and "pf_read pf (errors_path root) = None"
    and "wd_files w (errors_path root) = Some (errors_text errors)"
  shows "load_errors pf root w = (Inr (sort_key fst errors), w)"
    and "map_of (sort_key fst errors) = map_of errors"
proof -
  let ?v = "JDict (map (\<lambda>(k, v). (k, JStr v)) errors)"
  have "json_ok ?v"
    using assms(1) by (auto simp: keys_ok_def list_all_iff comp_def case_prod_unfold)
  then have "loads (errors_text errors) = Inr (json_sorted ?v)"
    using loads_json_text [of ?v "Some 0" 1] by (simp add: errors_text_def)
  then show "load_errors pf root w = (Inr (sort_key fst errors), w)"
    by (simp add: load_errors_def assms(3) errors_text_read [OF assms(3,2)] str_items_sorted
        del: json_sorted.simps)
  have "distinct (map fst errors)" using assms(1) by (simp add: keys_ok_def)
  moreover have "distinct (map fst (sort_key fst errors))"
    using calculation by (metis mset_map mset_sort mset_eq_imp_distinct_iff)
  ultimately show "map_of (sort_key fst errors) = map_of errors" by (simp add: map_of_inject_set)
qed

section \<open>What a run leaves in the tree\<close>

lemma failure_key_ok: "list_all (\<lambda>c. 0 \<le> c \<and> c < 128) name \<Longrightarrow> str_ok (failure_key pid name)"
  using str_int_chars [of _ pid]
  by (intro str_ok_ascii) (fastforce simp: failure_key_def list_all_iff lit_def)

lemma str_ok_codes: "str_ok (lit ''ENOENT'')" "str_ok (lit ''EACCES'')"
  by code_simp+

lemma proc_files_ascii: "name \<in> set proc_files \<Longrightarrow> list_all (\<lambda>c. 0 \<le> c \<and> c < 128) name"
  by (auto simp: proc_files_def lit_def)

lemma copy_files_keys:
  "copy_files pf os dest pid names errors w = (Inr errors', w') \<Longrightarrow> keys_ok errors \<Longrightarrow>
   list_all (list_all (\<lambda>c. 0 \<le> c \<and> c < 128)) names \<Longrightarrow> keys_ok errors'"
proof (induction names arbitrary: errors w)
  case (Cons name names)
  then show ?case
    by (auto simp: bindW_Inr keys_ok_update failure_key_ok str_ok_codes simp del: act_simps split: option.splits)
qed simp

lemma capture_process_keys:
  assumes "capture_process pf os dest pid errors w = (Inr errors', w')" and "keys_ok errors"
    and "pf_write pf (tree_path dest pid (lit ''exe.readlink'')) = None"
  shows "keys_ok errors'"
proof -
  obtain e v u where c: "copy_files pf os dest pid proc_files errors u = (Inr e, v)"
    and l: "copy_link pf os dest pid e v = (Inr errors', w')"
    using assms(1) by (auto simp: capture_process_def bindW_Inr simp del: act_simps)
  have "keys_ok e" using copy_files_keys [OF c assms(2)] proc_files_ascii by (simp add: list_all_iff)
  moreover have "list_all (\<lambda>c. 0 \<le> c \<and> c < 128) (lit ''exe'')" by code_simp
  ultimately show ?thesis
    using copy_link_copied [OF l assms(3)]
    by (auto simp: keys_ok_update failure_key_ok str_ok_codes split: sum.splits if_splits)
qed

text \<open>The files of the tree that belong to no process read from the host.\<close>

lemma synthetic_keys:
  "lit ''812/exe'' = failure_key 812 (lit ''exe'')" "lit ''4171/stat'' = failure_key 4171 (lit ''stat'')"
  by code_simp+

lemma lift_Inr: "lift r w = (Inr x, w') \<longleftrightarrow> r = Inr x \<and> w' = w"
  by auto

lemma only_for_store: "q \<in> Q \<Longrightarrow> only_for dest Q errors errors w (store (tree_path dest q n) bs w)"
  by (auto simp: only_for_def store_def)

lemma only_for_update: "q \<in> Q \<Longrightarrow> only_for dest Q errors (AList.update (failure_key q n) v errors) w w"
  by (auto simp: only_for_def update_conv')

lemma only_for_step:
  "only_for dest Q errors errors1 w w1 \<Longrightarrow> only_for dest Q errors1 errors2 w1 w2 \<Longrightarrow>
   only_for dest Q errors errors2 w w2"
  using only_for_trans [of dest Q errors errors1 w w1 Q errors2 w2] by simp

lemma synthesise_facts:
  assumes "synthesise_denied pf os dest errors w = (Inr errors1, w1)"
    and "synthesise_vanished pf dest errors1 w1 = (Inr errors2, w2)" and "keys_ok errors"
  shows "only_for dest {812, 4171} errors errors2 w w2" and "keys_ok errors2"
proof -
  have denied: "only_for dest {812, 4171} errors errors1 w w1 \<and> errors1 = AList.update (failure_key 812 (lit ''exe'')) (lit ''EACCES'') errors"
    using assms(1)
    by (auto simp: synthesise_denied_def bindW_Inr mkdir_Inr write_text_Inr lift_Inr Let_def synthetic_keys simp del: act_simps
        intro!: only_for_step [OF only_for_store only_for_step [OF only_for_store only_for_step [OF only_for_store only_for_update]]])
  have vanished: "only_for dest {812, 4171} errors1 errors2 w1 w2 \<and>
      errors2 = AList.update (failure_key 4171 (lit ''stat'')) (lit ''ENOENT'') errors1"
    using assms(2)
    by (auto simp: synthesise_vanished_def bindW_Inr mkdir_Inr write_text_Inr lift_Inr synthetic_keys simp del: act_simps
        intro!: only_for_step [OF only_for_store only_for_update])
  show "only_for dest {812, 4171} errors errors2 w w2"
    using only_for_step denied vanished by blast
  have "list_all (\<lambda>c. 0 \<le> c \<and> c < 128) (lit ''exe'')" "list_all (\<lambda>c. 0 \<le> c \<and> c < 128) (lit ''stat'')"
    by code_simp+
  then show "keys_ok errors2"
    using denied vanished assms(3) by (simp add: keys_ok_update failure_key_ok str_ok_codes)
qed

definition fresh :: "failures \<Rightarrow> int \<Rightarrow> bool" where
  "fresh errors pid \<longleftrightarrow> (\<forall>n. map_of errors (failure_key pid n) = None)"

definition roster_pids :: "int option list \<Rightarrow> int list" where
  "roster_pids roster = concat (map (\<lambda>p. case p of None \<Rightarrow> [] | Some pid \<Rightarrow> [pid]) roster)"

lemma roster_pids_simps [simp]:
  "roster_pids [] = []"
  "roster_pids (None # r) = roster_pids r"
  "roster_pids (Some pid # r) = pid # roster_pids r"
  by (simp_all add: roster_pids_def)

lemma capture_roster_in_tree:
  assumes "capture_roster pf os dest roster errors w = (Inr errors', w')" and "\<And>p. pf_write pf p = None"
    and "distinct (roster_pids roster)" and "\<forall>pid \<in> set (roster_pids roster). fresh errors pid" and "keys_ok errors"
  shows "(\<forall>pid \<in> set (roster_pids roster). in_tree os dest errors' w' pid) \<and> keys_ok errors' \<and>
     only_for dest (set (roster_pids roster)) errors errors' w w'"
  using assms
proof (induction roster arbitrary: errors w)
  case Nil
  then show ?case by (simp add: only_for_refl)
next
  case (Cons p roster)
  show ?case
  proof (cases p)
    case None
    with Cons.prems obtain v where "capture_roster pf os dest roster errors v = (Inr errors', w')"
      and v: "wd_files v = wd_files w" by auto
    from Cons.IH [OF this(1)] Cons.prems show ?thesis by (simp add: None only_for_def v)
  next
    case (Some pid)
    obtain e v where c: "capture_process pf os dest pid errors w = (Inr e, v)"
      and r: "capture_roster pf os dest roster e v = (Inr errors', w')"
      using Cons.prems(1) by (auto simp: Some bindW_Inr simp del: act_simps)
    note tree = capture_process_in_tree [OF c Cons.prems(2)]
    have new: "pid \<notin> set (roster_pids roster)" and d: "distinct (roster_pids roster)"
      and f: "fresh errors pid" "\<forall>q \<in> set (roster_pids roster). fresh errors q"
      using Cons.prems(3,4) by (simp_all add: Some)
    have "in_tree os dest e v pid" using tree(2) f(1) by (simp add: fresh_def list_all_iff)
    moreover have "fresh e q" if "q \<in> set (roster_pids roster)" for q
      using only_for_same(1) [OF tree(1), of q] that new f(2) by (auto simp: fresh_def)
    moreover have "keys_ok e" by (rule capture_process_keys [OF c Cons.prems(5) Cons.prems(2)])
    ultimately have IH: "\<forall>q \<in> set (roster_pids roster). in_tree os dest errors' w' q" "keys_ok errors'"
      "only_for dest (set (roster_pids roster)) e errors' v w'" and t: "in_tree os dest e v pid"
      using Cons.IH [OF r Cons.prems(2) d] by blast+
    have "in_tree os dest errors' w' pid" by (rule in_tree_only_for [OF t IH(3) new])
    with IH only_for_trans [OF tree(1) IH(3)] show ?thesis by (simp add: Some insert_is_Un [symmetric])
  qed
qed

lemma errors_path_apart: "errors_path dest \<noteq> tree_path dest q n"
  by (simp add: errors_path_def tree_path_key lit_def)

lemma serves_tree: "serves (tree_fixture lossy names root errors w) w"
  by (auto simp: serves_def tree_fixture_def)

lemma read_text_Inr: "read_text pf p w = (Inr t, w') \<Longrightarrow> w' = w"
  by (auto simp: read_text_def read_bytes_def split: option.splits)

lemma print_files:
  "print_line t w = (r, w') \<Longrightarrow> wd_files w' = wd_files w"
  "print_lines ls w = (r, w') \<Longrightarrow> wd_files w' = wd_files w"
  by (auto simp: print_line_def print_lines_def)

text \<open>The steps of a run that ended with 0.\<close>

lemma fixture_main_run:
  assumes "fixture_main pf os usage rglob sleeper parened [prog, target] w = (Inr 0, w')"
    and "first_kworker os = Inr kworker"
  shows "\<exists>errors1 errors2 errors3 w0 w1 w2 w3.
     capture_roster pf os (path_text target) [Some 1, Some 2, kworker, Some sleeper, Some parened] [] w0 =
       (Inr errors1, w1) \<and>
     synthesise_denied pf os (path_text target) errors1 w1 = (Inr errors2, w2) \<and>
     synthesise_vanished pf (path_text target) errors2 w2 = (Inr errors3, w3) \<and>
     wd_files w' = (wd_files w3)(errors_path (path_text target) \<mapsto> errors_text errors3)"
proof -
  show ?thesis
    using assms(1) unfolding fixture_main_def list.case Let_def bindW_Inr lift_Inr assms(2)
  proof (elim exE conjE, goal_cases)
    case (1 x0 v0 x1 v1 k v2 e1 w1 e2 w2 e3 w3 u w4 x5 w5 x6 w6 x7 w7 t w8 x9 w9)
    have "wd_files w' = wd_files w4"
      using 1 print_files read_text_Inr by metis
    moreover have "w4 = store (errors_path (path_text target)) (errors_text e3) w3"
      using 1(8) by (auto simp: write_text_Inr errors_text_encodes)
    ultimately have "wd_files w' = (wd_files w3)(errors_path (path_text target) \<mapsto> errors_text e3)"
      by (simp add: store_def)
    moreover have "k = kworker" using 1(3) by (simp only: sum.inject)
    ultimately show ?thesis using 1(5-7) by blast
  qed
qed

section \<open>A run ends\<close>

text \<open>Actions that return on every machine.\<close>

definition succeeds :: "'a act \<Rightarrow> bool" where
  "succeeds m \<longleftrightarrow> (\<forall>w. \<exists>x w'. m w = (Inr x, w'))"

lemma succeeds_lift: "succeeds (lift (Inr x))"
  by (simp add: succeeds_def)

lemma succeeds_bind: "succeeds m \<Longrightarrow> (\<And>x. succeeds (f x)) \<Longrightarrow> succeeds (bindW m f)"
  unfolding succeeds_def bindW_Inr by meson

lemma succeeds_write:
  "pf_write pf p = None \<Longrightarrow> utf8_encode t = Inr bs \<Longrightarrow> succeeds (write_text pf p t)"
  by (auto simp: succeeds_def write_text_Inr)

lemma succeeds_mkdir: "pf_mkdir pf p = None \<Longrightarrow> succeeds (mkdir_parents pf p)"
  by (simp add: succeeds_def mkdir_Inr)

lemma succeeds_copy:
  assumes "\<And>p. pf_write pf p = None"
    and "list_all (\<lambda>name. case read_proc os pid name of None \<Rightarrow> True | Some t \<Rightarrow> text_read t) names"
  shows "succeeds (copy_files pf os dest pid names errors)"
  using assms(2)
proof (induction names arbitrary: errors)
  case (Cons name names)
  then have IH: "succeeds (copy_files pf os dest pid names e)" for e by simp
  show ?case
  proof (cases "read_proc os pid name")
    case None
    then show ?thesis using IH by simp
  next
    case (Some t)
    then obtain bs where "utf8_encode t = Inr bs" using Cons.prems text_read_encodes by auto
    from succeeds_write [OF assms(1) this] show ?thesis
      unfolding copy_files.simps Some option.case by (intro succeeds_bind IH)
  qed
qed (simp add: succeeds_def)

lemma succeeds_link:
  assumes "\<And>p. pf_write pf p = None"
    and "case os_readlink os (proc_path (lit ''/proc'') pid (lit ''exe'')) of
        Inl _ \<Rightarrow> True | Inr t \<Rightarrow> text_read t \<and> rstrip_newlines t = t"
  shows "succeeds (copy_link pf os dest pid errors)"
proof (cases "os_readlink os (proc_path (lit ''/proc'') pid (lit ''exe''))")
  case (Inl exc)
  then show ?thesis by (simp add: succeeds_def copy_link_def)
next
  case (Inr t)
  then have "text_read (t @ [10])" using assms(2) by (simp add: text_read_def is_surrogate_def)
  then obtain bs where "utf8_encode (t @ [10]) = Inr bs" using text_read_encodes by blast
  then show ?thesis
    by (simp add: succeeds_def copy_link_def Inr write_text_def write_bytes_def assms(1))
qed

lemma succeeds_roster:
  assumes "\<And>p. pf_write pf p = None" and "\<And>p. pf_mkdir pf p = None"
    and "list_all (answers_text os) (roster_pids roster)"
  shows "succeeds (capture_roster pf os dest roster errors)"
  using assms(3)
proof (induction roster arbitrary: errors)
  case (Cons p roster)
  show ?case
  proof (cases p)
    case None
    with Cons show ?thesis by (auto simp: succeeds_def)
  next
    case (Some pid)
    then have t: "answers_text os pid" and r: "list_all (answers_text os) (roster_pids roster)"
      using Cons.prems by simp_all
    have "succeeds (capture_process pf os dest pid errors)"
      unfolding capture_process_def
      using t assms(1,2)
      by (intro succeeds_bind succeeds_mkdir succeeds_copy succeeds_link) (simp_all add: answers_text_def)
    with Cons.IH [OF r] show ?thesis
      unfolding Some capture_roster.simps by (intro succeeds_bind)
  qed
qed (simp add: succeeds_def)

lemma succeeds_synthetic:
  assumes "\<And>p. pf_write pf p = None" and "\<And>p. pf_mkdir pf p = None" and "answers_text os 1"
  shows "succeeds (synthesise_denied pf os dest errors)" and "succeeds (synthesise_vanished pf dest errors)"
proof -
  have texts: "text_read (or_empty (read_proc os 1 (lit ''stat'')))"
    "text_read (or_empty (read_proc os 1 (lit ''status'')))"
    using assms(3)
    by (auto simp: answers_text_def proc_files_def or_empty_def text_read_def split: option.splits)
  then have "text_read (after_comm (or_empty (read_proc os 1 (lit ''stat''))))"
    by (auto simp: after_comm_def text_read_def list_all_iff dest: in_set_dropD split: option.split)
  moreover have "text_read (lit ''812 (sshd)'')" by code_simp
  ultimately have "text_read (lit ''812 (sshd)'' @ after_comm (or_empty (read_proc os 1 (lit ''stat''))))"
    by (simp add: text_read_def)
  moreover have "text_read (lit ''/usr/sbin/sshd'' @ [0] @ lit ''-D'' @ [0])" "text_read []" by code_simp+
  ultimately obtain b1 b2 b3 b4 where
    "utf8_encode (lit ''812 (sshd)'' @ after_comm (or_empty (read_proc os 1 (lit ''stat'')))) = Inr b1"
    "utf8_encode (or_empty (read_proc os 1 (lit ''status''))) = Inr b2"
    "utf8_encode (lit ''/usr/sbin/sshd'' @ [0] @ lit ''-D'' @ [0]) = Inr b3" "utf8_encode [] = Inr b4"
    using text_read_encodes texts(2) by metis
  then show "succeeds (synthesise_denied pf os dest errors)" "succeeds (synthesise_vanished pf dest errors)"
    unfolding synthesise_denied_def synthesise_vanished_def Let_def
    by (intro succeeds_bind succeeds_mkdir succeeds_lift; auto intro: succeeds_write assms(1,2))+
qed

lemma fixture_main_ends:
  assumes "first_kworker os = Inr kworker"
    and "list_all (answers_text os) (roster_pids [Some 1, Some 2, kworker, Some sleeper, Some parened])"
    and "\<And>p. pf_write pf p = None" and "\<And>p. pf_read pf p = None" and "\<And>p. pf_mkdir pf p = None"
    and "wd_files w (path_text target) = None"
  shows "\<exists>w'. fixture_main pf os usage rglob sleeper parened [prog, target] w = (Inr 0, w')"
proof -
  let ?d = "path_text target"
  let ?roster = "[Some 1, Some 2, kworker, Some sleeper, Some parened]"
  have one: "answers_text os 1" using assms(2) by simp
  obtain w0 where w0: "clear_tree ?d w = (Inr (), w0)" by (simp add: clear_tree_def assms(6))
  obtain e1 w1 where r: "capture_roster pf os ?d ?roster [] w0 = (Inr e1, w1)"
    using succeeds_roster [OF assms(3,5,2)] unfolding succeeds_def by meson
  obtain e2 w2 where d: "synthesise_denied pf os ?d e1 w1 = (Inr e2, w2)"
    using succeeds_synthetic(1) [OF assms(3,5) one] unfolding succeeds_def by meson
  obtain e3 w3 where v: "synthesise_vanished pf ?d e2 w2 = (Inr e3, w3)"
    using succeeds_synthetic(2) [OF assms(3,5) one] unfolding succeeds_def by meson
  have t: "write_text pf (errors_path ?d) (errors_text e3) w3 =
      (Inr (), store (errors_path ?d) (errors_text e3) w3)"
    using assms(3) by (simp add: write_text_Inr errors_text_encodes)
  have read: "read_text pf (errors_path ?d) w4 = (Inr (errors_text e3), w4)"
    if "wd_files w4 = wd_files (store (errors_path ?d) (errors_text e3) w3)" for w4
    using that by (intro errors_text_read [OF _ assms(4)]) (simp add: store_def)
  have "bindW (mkdir_parents pf p) f = f ()" for p and f :: "unit \<Rightarrow> int act"
    by (rule ext) (simp add: mkdir_parents_def assms(5))
  with w0 r d v t read show ?thesis
    by (simp add: fixture_main_def Let_def assms(1) print_line_def print_lines_def
        del: capture_roster.simps)
qed

section \<open>Property of the tool\<close>

text \<open>
  C20: A whole run of the tool, and the replay of what it wrote: the run ends with 0, the tree can be
  opened, and every process of the roster replays as it answered. All texts and links the live process gave come back;
  a stat, cmdline or status that could not be read, for whatever reason, is vanished, an executable
  link that could not be read is vanished if its error was ENOENT and denied otherwise. The pids of
  the roster are distinct, and none is that of a synthetic process.
\<close>

theorem fixture_tool_replays:
  assumes "wd_files w (path_text target) = None"
    and "first_kworker os = Inr kworker"
    and "roster = roster_pids [Some 1, Some 2, kworker, Some sleeper, Some parened]"
    and "distinct roster" and "812 \<notin> set roster" and "4171 \<notin> set roster"
    and "pf_write pf = (\<lambda>p. None)" and "pf_read pf = (\<lambda>p. None)" and "pf_mkdir pf = (\<lambda>p. None)"
    and "list_all (answers_text os) roster"
  shows "\<exists>w' fx. fixture_main pf os usage rglob sleeper parened [prog, target] w = (Inr 0, w') \<and>
     open_proc_tree pf lossy names target w' = (Inr fx, w') \<and>
     list_all (replays os (fixture_proc_source fx)) roster"
proof -
  let ?d = "path_text target"
  obtain w' where run: "fixture_main pf os usage rglob sleeper parened [prog, target] w = (Inr 0, w')"
    using fixture_main_ends [OF assms(2), of sleeper parened pf w target usage rglob prog] assms(1,3,7-10)
    by auto
  obtain errors1 errors2 errors w0 w1 w2 w3 where
    r: "capture_roster pf os ?d [Some 1, Some 2, kworker, Some sleeper, Some parened] [] w0 = (Inr errors1, w1)"
    and s: "synthesise_denied pf os ?d errors1 w1 = (Inr errors2, w2)"
      "synthesise_vanished pf ?d errors2 w2 = (Inr errors, w3)"
    and bs: "wd_files w' = (wd_files w3)(errors_path ?d \<mapsto> errors_text errors)"
    using fixture_main_run [OF run assms(2)] by blast
  have tree: "\<forall>pid \<in> set roster. in_tree os ?d errors1 w1 pid" and k1: "keys_ok errors1"
    using capture_roster_in_tree [OF r] assms(3,4,7) by (auto simp: fresh_def keys_ok_def)
  note synth = synthesise_facts [OF s k1]
  have tree': "in_tree os ?d errors w' pid" if "pid \<in> set roster" for pid
  proof (rule in_tree_same)
    show "in_tree os ?d errors w3 pid"
      using in_tree_only_for [OF _ synth(1), of os pid] tree that assms(5,6) by auto
    show "wd_files w' (tree_path ?d pid n) = wd_files w3 (tree_path ?d pid n)" for n
      using errors_path_apart [of ?d pid n] by (auto simp: bs)
  qed simp
  have "pf_read pf (errors_path ?d) = None" "wd_files w' (errors_path ?d) = Some (errors_text errors)"
    by (simp_all add: assms(8) bs)
  note load = load_written [OF synth(2) this]
  let ?fx = "tree_fixture lossy names ?d (sort_key fst errors) w'"
  have "open_proc_tree pf lossy names target w' = (Inr ?fx, w')"
    by (simp add: open_proc_tree_def load(1) Let_def)
  moreover have "replays os (fixture_proc_source ?fx) pid" if "pid \<in> set roster" for pid
    using that assms(10)
    by (intro in_tree_replays [OF tree' [OF that]] serves_tree) (auto simp: list_all_iff tree_fixture_def load(2))
  ultimately show ?thesis using run by (auto simp: list_all_iff)
qed

text \<open>Four processes; 7 has a stat line, an empty cmdline and a status that may not be read.\<close>

definition tool_os :: os where
  "tool_os = \<lparr>os_listdir = (\<lambda>_. Inr [lit ''1'', lit ''2'', lit ''7'', lit ''9'']),
     os_read = (\<lambda>path. if path = lit ''/proc/1/stat'' then Inr (lit ''1 (init) S'' @ [10])
        else if path = lit ''/proc/7/stat'' then Inr (lit ''7 (a) S'' @ [10])
        else if path = lit ''/proc/7/cmdline'' then Inr [] else Inl (13, lit ''Permission denied'')),
     os_readlink = (\<lambda>path. if path = lit ''/proc/7/exe'' then Inr (lit ''/bin/a (deleted)'')
        else Inl (2, lit ''No such file'')), os_kill = (\<lambda>_. None)\<rparr>"

definition tool_platform :: platform where
  "tool_platform = \<lparr>pf_read = (\<lambda>p. None), pf_write = (\<lambda>p. None), pf_mkdir = (\<lambda>p. None), pf_message = (\<lambda>e. [])\<rparr>"

definition empty_world :: world where
  "empty_world = \<lparr>wd_files = (\<lambda>p. None), wd_out = [], wd_err = []\<rparr>"

theorem fixture_tool_replays_witness:
  "\<exists>w' fx. fixture_main tool_platform tool_os [] (\<lambda>w. []) 7 9 [lit ''t'', lit ''/t''] empty_world = (Inr 0, w') \<and>
     open_proc_tree tool_platform (\<lambda>bs. []) None (lit ''/t'') w' = (Inr fx, w') \<and>
     replays tool_os (fixture_proc_source fx) 7"
proof -
  have w: "wd_files empty_world (path_text (lit ''/t'')) = None" by (simp add: empty_world_def)
  have k: "first_kworker tool_os = Inr None" by code_simp
  have roster: "[1, 2, 7, 9] = roster_pids [Some 1, Some 2, None, Some 7, Some 9]" by simp
  have pf: "pf_write tool_platform = (\<lambda>p. None)" "pf_read tool_platform = (\<lambda>p. None)"
    "pf_mkdir tool_platform = (\<lambda>p. None)"
    by (simp_all add: tool_platform_def)
  have "list_all (answers_text tool_os) [1, 2, 7, 9]" by code_simp
  from fixture_tool_replays [OF w k roster _ _ _ pf this, of "[]" "\<lambda>w. []" "lit ''t''" "\<lambda>bs. []" None]
  show ?thesis by auto
qed

end
