(* ===== verification/Step0.thy ===== *)
theory Step0
  imports Sources Host_Files
begin

text \<open>
  \<open>tools/step0_phase2.py\<close>, the laboratory script whose evidence the design of the sweep and module
  channels rests on: its helpers, the evidence file, and the first two files it writes.

  The script takes minutes, and the point of several of its files is that the machine changes
  meanwhile. So the host is a function of a clock: every question to the system is answered by the
  host at its instant and moves the clock on. Nothing is assumed of how the host changes.
\<close>

unbundle bit_operations_syntax

section \<open>Questions to a changing host\<close>

text \<open>
  Besides the calls of \<open>os\<close>: running a command (the text of the \<open>OSError\<close> or \<open>SubprocessError\<close>, or
  both streams; what \<open>run\<close> does not catch escapes), \<open>Path.is_dir\<close> and \<open>Path.exists\<close>, the ids of the
  script, the time as it is formatted, the release of the kernel, the text \<open>f"{seconds:.2f}"\<close> of the time since the last start of a sweep, and the calls that
  start and stop the helper that makes noise.
\<close>

record host =
  ho_os :: os
  ho_run :: "pystr list \<Rightarrow> (pystr + pystr \<times> pystr) result"
  ho_isdir :: "pystr \<Rightarrow> bool result"
  ho_exists :: "pystr \<Rightarrow> bool result"
  ho_euid :: int
  ho_pid :: int
  ho_stamp :: pystr
  ho_release :: pystr
  ho_seconds :: pystr
  ho_popen :: "pystr list \<Rightarrow> int result"
  ho_getpgid :: "int \<Rightarrow> os_error + int"
  ho_killpg :: "int \<Rightarrow> int \<Rightarrow> os_error option"
  ho_wait :: "int \<Rightarrow> bool"
  ho_kill :: "int \<Rightarrow> unit"

type_synonym 'a probe = "(nat \<Rightarrow> host) \<Rightarrow> nat \<Rightarrow> 'a result \<times> nat"

definition liftP :: "'a result \<Rightarrow> 'a probe" where
  "liftP r h t = (r, t)"

definition retP :: "'a \<Rightarrow> 'a probe" where
  "retP x = liftP (Inr x)"

definition askE :: "(host \<Rightarrow> 'a result) \<Rightarrow> 'a probe" where
  "askE q h t = (q (h t), Suc t)"

definition ask :: "(host \<Rightarrow> 'a) \<Rightarrow> 'a probe" where
  "ask q = askE (\<lambda>x. Inr (q x))"

definition bindP :: "'a probe \<Rightarrow> ('a \<Rightarrow> 'b probe) \<Rightarrow> 'b probe" where
  "bindP m f h t = (case m h t of (Inl e, t') \<Rightarrow> (Inl e, t') | (Inr x, t') \<Rightarrow> f x h t')"

fun mapP :: "('a \<Rightarrow> 'b probe) \<Rightarrow> 'a list \<Rightarrow> 'b list probe" where
  "mapP f [] = retP []"
| "mapP f (x # xs) = bindP (f x) (\<lambda>y. bindP (mapP f xs) (\<lambda>ys. retP (y # ys)))"

lemma probe_simps [simp]:
  "liftP r h t = (r, t)"
  "retP x h t = (Inr x, t)"
  "askE q' h t = (q' (h t), Suc t)"
  "ask q h t = (Inr (q (h t)), Suc t)"
  "bindP m f h t = (case m h t of (Inl e, t') \<Rightarrow> (Inl e, t') | (Inr x, t') \<Rightarrow> f x h t')"
  by (simp_all add: liftP_def retP_def ask_def askE_def bindP_def)

section \<open>Small helpers\<close>

definition read_file :: "pystr \<Rightarrow> pystr probe" where
  "read_file path =
     bindP (ask (\<lambda>h. os_read (ho_os h) path)) (\<lambda>r.
     retP (case r of
             Inr text \<Rightarrow> text
           | Inl exc \<Rightarrow> lit ''<<UNREADABLE: '' @ snd exc @ lit '' (errno '' @ str_int (fst exc) @ lit '')>>''))"

definition run :: "pystr list \<Rightarrow> pystr probe" where
  "run cmd =
     bindP (askE (\<lambda>h. ho_run h cmd)) (\<lambda>r.
     retP (case r of Inl exc \<Rightarrow> lit ''<<FAILED: '' @ exc @ lit ''>>'' | Inr (out, err) \<Rightarrow> out @ err))"

text \<open>\<open>int(line.split()[1])\<close> of the first line that starts with \<open>Tgid:\<close>.\<close>

fun tgid_line :: "pystr list \<Rightarrow> int option result" where
  "tgid_line [] = Inr None"
| "tgid_line (line # lines) =
     (if startswith line (lit ''Tgid:'') then
        (case split_ws line of
           _ # w # _ \<Rightarrow> bindE (py_int w) (\<lambda>i. Inr (Some i))
         | _ \<Rightarrow> Inl IndexError)
      else tgid_line lines)"

definition proc_tgid :: "int \<Rightarrow> int option probe" where
  "proc_tgid task_id =
     bindP (read_file (proc_path (lit ''/proc'') task_id (lit ''status''))) (\<lambda>text.
     if startswith text (lit ''<<'') then retP None
     else liftP (tgid_line (splitlines text)))"

text \<open>\<open>str(exc)\<close> of an \<open>OSError\<close> for a path.\<close>

definition os_error_text :: "os_error \<Rightarrow> pystr \<Rightarrow> pystr" where
  "os_error_text exc path =
     lit ''[Errno '' @ str_int (fst exc) @ lit ''] '' @ snd exc @ lit '': '' @ py_repr path"

definition os_raise :: "os_error + 'a \<Rightarrow> 'a result" where
  "os_raise r = (case r of Inl exc \<Rightarrow> Inl (OSError (fst exc) (snd exc)) | Inr x \<Rightarrow> Inr x)"

definition listing_pids :: "int list probe" where
  "listing_pids =
     bindP (askE (\<lambda>h. os_raise (os_listdir (ho_os h) (lit ''/proc'')))) (\<lambda>names.
     liftP (numeric_names names))"

fun task_loop :: "int list \<Rightarrow> (int \<times> int) list \<Rightarrow> (int \<times> int) list probe" where
  "task_loop [] tasks = retP tasks"
| "task_loop (pid # pids) tasks =
     bindP (ask (\<lambda>h. os_listdir (ho_os h) (proc_path (lit ''/proc'') pid (lit ''task'')))) (\<lambda>r.
     case r of
       Inl _ \<Rightarrow> task_loop pids tasks
     | Inr names \<Rightarrow>
         bindP (liftP (mapE py_int (filter py_isdigit names))) (\<lambda>ids.
         task_loop pids (fold (\<lambda>i. AList.update i pid) ids tasks)))"

definition task_ids :: "int list \<Rightarrow> (int \<times> int) list probe" where
  "task_ids pids = task_loop pids []"

text \<open>\<open>os.kill(id, 0)\<close>: an id that is no C \<open>int\<close> raises \<open>OverflowError\<close>, which is no \<open>OSError\<close>.\<close>

definition kill0 :: "int \<Rightarrow> os_error option probe" where
  "kill0 task_id =
     (if - (2 ^ 31) \<le> task_id \<and> task_id < 2 ^ 31 then ask (\<lambda>h. os_kill (ho_os h) task_id)
      else liftP (Inl OverflowError))"

definition responded :: "os_error option \<Rightarrow> bool" where
  "responded r = (case r of None \<Rightarrow> True | Some exc \<Rightarrow> fst exc \<in> set denied_errnos)"

fun sweep_ids :: "int list \<Rightarrow> int list probe" where
  "sweep_ids [] = retP []"
| "sweep_ids (task_id # ids) =
     bindP (kill0 task_id) (\<lambda>r.
     bindP (sweep_ids ids) (\<lambda>alive.
     retP (if responded r then task_id # alive else alive)))"

definition sweep :: "int \<Rightarrow> (int list \<times> pystr) probe" where
  "sweep pid_max =
     bindP (sweep_ids [1..pid_max]) (\<lambda>alive.
     bindP (ask ho_seconds) (\<lambda>seconds. retP (alive, seconds)))"

definition noise_script :: "int \<Rightarrow> pystr" where
  "noise_script seconds =
     lit ''end=$(( $(date +%s) + '' @ str_int seconds @ lit '' )); '' @
     lit ''while [ $(date +%s) -lt $end ]; do '' @
     lit ''  for i in 1 2 3 4 5; do (sleep 0.05) & done; '' @
     lit ''  sleep 0.05; '' @
     lit ''done; wait''"

definition start_noise :: "int \<Rightarrow> int option probe" where
  "start_noise seconds =
     (if seconds \<le> 0 then retP None
      else bindP (askE (\<lambda>h. ho_popen h [lit ''sh'', lit ''-c'', noise_script seconds]))
             (\<lambda>pid. retP (Some pid)))"

text \<open>An \<open>OSError\<close> is ignored, a helper that does not end in time is killed.\<close>

definition stop_noise :: "int option \<Rightarrow> unit probe" where
  "stop_noise helper =
     (case helper of
        None \<Rightarrow> retP ()
      | Some pid \<Rightarrow>
          bindP (ask (\<lambda>h. ho_getpgid h pid)) (\<lambda>g.
          bindP (case g of Inl _ \<Rightarrow> retP None | Inr pgrp \<Rightarrow> ask (\<lambda>h. ho_killpg h pgrp 15)) (\<lambda>_.
          bindP (ask (\<lambda>h. ho_wait h pid)) (\<lambda>finished.
          if finished then retP () else ask (\<lambda>h. ho_kill h pid)))))"

section \<open>Formatting\<close>

text \<open>\<open>f"{s:<n}"\<close>, \<open>f"{i:>n}"\<close>, and \<open>lower()\<close> on ASCII, enough to search for ASCII words without k.\<close>

definition pad_left :: "nat \<Rightarrow> pystr \<Rightarrow> pystr" where
  "pad_left n s = s @ replicate (n - length s) 32"

definition pad_right :: "nat \<Rightarrow> pystr \<Rightarrow> pystr" where
  "pad_right n s = replicate (n - length s) 32 @ s"

definition lower_ascii :: "pystr \<Rightarrow> pystr" where
  "lower_ascii s = map (\<lambda>c. if 65 \<le> c \<and> c \<le> 90 then c + 32 else c) s"

definition yes_no :: "bool \<Rightarrow> pystr" where
  "yes_no b = (if b then lit ''yes'' else lit ''no'')"

definition count_text :: "'a list \<Rightarrow> pystr" where
  "count_text xs = str_int (int (length xs))"

definition count_set :: "'a list \<Rightarrow> pystr" where
  "count_set xs = str_int (set_size xs)"

text \<open>\<open>comm.strip() if comm else "?"\<close>.\<close>

definition strip_or_mark :: "pystr \<Rightarrow> pystr" where
  "strip_or_mark s = (if s = [] then lit ''?'' else strip s)"

section \<open>The evidence file\<close>

text \<open>The writer: three attributes that stay, the lines of the file that is open and its name.\<close>

record evidence =
  ev_outdir :: pystr
  ev_label :: pystr
  ev_header :: pystr
  ev_lines :: "pystr list"
  ev_name :: "pystr option"

definition open_lines :: "evidence \<Rightarrow> pystr \<Rightarrow> pystr \<Rightarrow> pystr list" where
  "open_lines ev title commands =
     [lit ''# '' @ title, [], ev_header ev, lit ''label: '' @ ev_label ev, [], lit ''Reproduce by hand:''] @
     map (\<lambda>line. lit ''    '' @ line) (splitlines (strip commands)) @
     [[], replicate 70 45, []]"

definition evidence_open :: "pystr \<Rightarrow> pystr \<Rightarrow> pystr \<Rightarrow> evidence \<Rightarrow> evidence" where
  "evidence_open name title commands ev =
     ev\<lparr>ev_name := Some name, ev_lines := open_lines ev title commands\<rparr>"

definition evidence_say :: "pystr \<Rightarrow> evidence \<Rightarrow> evidence" where
  "evidence_say line ev = ev\<lparr>ev_lines := ev_lines ev @ [line]\<rparr>"

text \<open>\<open>a / b\<close> for a path \<open>a\<close> in normal form.\<close>

definition path_div :: "pystr \<Rightarrow> pystr \<Rightarrow> pystr" where
  "path_div a b =
     (if startswith b [47] then path_text b
      else if endswith a [47] then path_text (a @ b)
      else path_text (a @ [47] @ b))"

text \<open>\<open>close\<close> writes the lines said so far; it asserts that a file is open, and forgets its name.\<close>

definition evidence_close :: "platform \<Rightarrow> evidence \<Rightarrow> evidence act" where
  "evidence_close pf ev =
     (case ev_name ev of
        None \<Rightarrow> lift (Inl AssertionError)
      | Some name \<Rightarrow>
          let path = path_div (ev_outdir ev) name in
          bindW (write_text pf path (join [10] (ev_lines ev) @ [10])) (\<lambda>_.
          bindW (print_line (lit ''  wrote '' @ path)) (\<lambda>_.
          lift (Inr (ev\<lparr>ev_name := None\<rparr>)))))"

text \<open>A file of the evidence: what it opens, and the lines it says as it asks the host.\<close>

record page =
  pg_name :: pystr
  pg_title :: pystr
  pg_commands :: pystr
  pg_lines :: "pystr list probe"

section \<open>File 00: host facts and taint\<close>

definition taint_bits :: "(nat \<times> string) list" where
  "taint_bits =
     [(0, ''G/P  proprietary module loaded''),
      (1, ''F    module force loaded''),
      (2, ''S    SMP kernel on unsupported CPU''),
      (3, ''R    module force unloaded''),
      (4, ''M    machine check exception''),
      (5, ''B    bad page referenced''),
      (6, ''U    taint requested by userspace''),
      (7, ''D    kernel died recently (oops/BUG)''),
      (8, ''A    ACPI table overridden''),
      (9, ''W    warning issued''),
      (10, ''C   staging driver loaded''),
      (11, ''I   workaround for firmware bug''),
      (12, ''O   OUT-OF-TREE MODULE LOADED''),
      (13, ''E   UNSIGNED MODULE LOADED''),
      (14, ''L   soft lockup''),
      (15, ''K   live patched''),
      (16, ''X   auxiliary taint''),
      (17, ''T   built with struct randomisation''),
      (18, ''N   test module loaded'')]"

definition int_or_zero :: "pystr \<Rightarrow> int" where
  "int_or_zero raw = (case py_int raw of Inl _ \<Rightarrow> 0 | Inr i \<Rightarrow> i)"

definition taint_lines :: "int \<Rightarrow> pystr list" where
  "taint_lines v =
     (let top = foldr (\<lambda>b m. max (fst b) m) taint_bits 0; unknown = drop_bit (top + 1) v in
      (if v = 0 then [lit ''  no taint bits set''] else []) @
      map (\<lambda>(b, meaning). lit ''  bit '' @ pad_right 2 (str_int (int b)) @ lit '' set: '' @ lit meaning)
        (filter (\<lambda>(b, meaning). v AND push_bit b 1 \<noteq> 0) taint_bits) @
      (if unknown \<noteq> 0
       then [lit ''  bits above '' @ str_int (int top) @ lit '' also set (raw >> shift = '' @
             str_int unknown @ lit '')''] else []))"

definition about_taint :: "pystr \<Rightarrow> bool" where
  "about_taint line =
     (let low = lower_ascii line in
      contains (lit ''taint'') low \<or> contains (lit ''module verification'') low \<or>
      contains (lit ''loading out-of-tree'') low)"

definition host_lines :: "int \<Rightarrow> pystr list probe" where
  "host_lines pid_max =
     bindP (run [lit ''uname'', lit ''-a'']) (\<lambda>uname.
     bindP (ask ho_euid) (\<lambda>euid.
     bindP (read_file (lit ''/proc/sys/kernel/random/boot_id'')) (\<lambda>boot_id.
     bindP (read_file (lit ''/proc/sys/kernel/kptr_restrict'')) (\<lambda>kptr.
     bindP (read_file (lit ''/proc/sys/kernel/perf_event_paranoid'')) (\<lambda>perf.
     bindP (read_file (lit ''/proc/sys/kernel/tainted'')) (\<lambda>tainted.
     bindP (run [lit ''dmesg'']) (\<lambda>dmesg.
     let raw = strip tainted in
     retP
       ([rstrip uname,
         lit ''pid_max          : '' @ str_int pid_max,
         lit ''euid             : '' @ str_int euid,
         lit ''boot_id          : '' @ strip boot_id,
         lit ''kptr_restrict    : '' @ strip kptr,
         lit ''perf_event_paranoid: '' @ strip perf,
         [],
         lit ''tainted (raw)    : '' @ raw] @
        taint_lines (int_or_zero raw) @
        [[], lit ''dmesg lines mentioning modules or taint:''] @
        map (\<lambda>line. lit ''  '' @ line) (filter about_taint (splitlines dmesg))))))))))"

definition file_00_host :: "int \<Rightarrow> page" where
  "file_00_host pid_max =
     \<lparr>pg_name = lit ''00-host-facts.txt'',
      pg_title = lit ''Host facts and kernel taint state'',
      pg_commands = lit ''uname -a; cat /proc/sys/kernel/pid_max; cat /proc/sys/kernel/tainted'',
      pg_lines = host_lines pid_max\<rparr>"

section \<open>File 01: the listing and the tasks\<close>

definition task_line :: "(int \<times> int) list \<Rightarrow> int \<Rightarrow> pystr probe" where
  "task_line tasks task_id =
     bindP (proc_tgid task_id) (\<lambda>directly.
     bindP (read_file (proc_path (lit ''/proc'') task_id (lit ''comm''))) (\<lambda>comm.
     retP
       (lit ''  tid '' @ pad_right 7 (str_int task_id) @ lit ''  in listing: no   '' @
        lit ''/proc/'' @ str_int task_id @ lit ''/status readable: '' @
        yes_no (directly \<noteq> None \<and> directly \<noteq> Some 0) @ lit ''   '' @
        lit ''Tgid: '' @ (case directly of None \<Rightarrow> lit ''None'' | Some i \<Rightarrow> str_int i) @
        lit ''  (leader '' @ (case map_of tasks task_id of None \<Rightarrow> [] | Some l \<Rightarrow> str_int l) @
        lit '')  comm: '' @ strip_or_mark comm)))"

definition unlisted_tasks :: "int list \<Rightarrow> (int \<times> int) list \<Rightarrow> int list" where
  "unlisted_tasks pids tasks = sorted_set (filter (\<lambda>i. i \<notin> set pids) (map fst tasks))"

definition tasks_lines :: "pystr list probe" where
  "tasks_lines =
     bindP listing_pids (\<lambda>pids.
     bindP (task_ids pids) (\<lambda>tasks.
     let unlisted = unlisted_tasks pids tasks in
     bindP (mapP (task_line tasks) (take 5 unlisted)) (\<lambda>proofs.
     retP
       ([lit ''/proc top-level numeric entries (thread group leaders): '' @ count_text pids,
         lit ''task ids under /proc/<pid>/task/                      : '' @ count_text tasks,
         lit ''task ids NOT present in the top-level listing         : '' @ count_text unlisted,
         [],
         lit ''Those unlisted task ids are ordinary threads of visible processes.'',
         lit ''A sweep compared naively against the /proc listing reports every one'',
         lit ''of them as a hidden process. On this machine that is the false-'',
         lit ''positive count above, on an idle system, with nothing malicious loaded.'',
         [],
         lit ''Proof that an unlisted task id is still directly reachable:''] @
        proofs @
        [[],
         lit ''Reading Tgid directly is what separates '' @ [39] @ lit ''a thread'' @ [39] @ lit '' from '' @ [39] @ lit ''a hidden'',
         lit ''process'' @ [39] @ lit '': a thread'' @ [39] @ lit ''s Tgid names a leader that IS in the listing.'']))))"

definition file_01_tasks :: page where
  "file_01_tasks =
     \<lparr>pg_name = lit ''01-listing-vs-tasks.txt'',
      pg_title = lit ''False-positive class #1: /proc lists processes, the sweep finds tasks'',
      pg_commands =
        lit ''ls /proc | grep '' @ [39] @ lit ''^[0-9]'' @ [39] @ lit '' | wc -l'' @ [10] @
        lit ''awk '' @ [39] @ lit ''/^Threads:/{s+=$2} END{print s}'' @ [39] @ lit '' /proc/[0-9]*/status'' @ [10] @
        lit ''ls -d /proc/<tid>   # a thread id absent from the listing above'',
      pg_lines = tasks_lines\<rparr>"

end
