(* ===== verification/Step0_Sweep.thy ===== *)
theory Step0_Sweep
  imports Step0
begin

text \<open>
  The evidence of \<open>tools/step0_phase2.py\<close> on processes: file 02 classifies what the sweep saw and the
  listing did not, file 03 puts a sweep between two listings, file 04 looks at single pids directly.
  Python iterates a set of ids in hash order; here the order is ascending, which only decides the
  instant at which an id is looked at.
\<close>

definition readlink_exe :: "int \<Rightarrow> pystr probe" where
  "readlink_exe pid = run [lit ''readlink'', proc_path (lit ''/proc'') pid (lit ''exe'')]"

text \<open>\<open>set(xs) - set(ys)\<close>.\<close>

definition minus_ids :: "int list \<Rightarrow> int list \<Rightarrow> int list" where
  "minus_ids xs ys = sorted_set (filter (\<lambda>i. i \<notin> set ys) xs)"

section \<open>File 02: the sweep against the listing\<close>

record sweep_view =
  sv_before :: "int list"
  sv_alive :: "int list"
  sv_seconds :: pystr
  sv_after :: "int list"
  sv_tasks :: "(int \<times> int) list"

definition take_view :: "int \<Rightarrow> sweep_view probe" where
  "take_view pid_max =
     bindP listing_pids (\<lambda>before.
     bindP (sweep pid_max) (\<lambda>(alive, seconds).
     bindP listing_pids (\<lambda>after.
     bindP (task_ids after) (\<lambda>tasks.
     retP \<lparr>sv_before = before, sv_alive = alive, sv_seconds = seconds, sv_after = after,
           sv_tasks = tasks\<rparr>))))"

definition only_sweep :: "sweep_view \<Rightarrow> int list" where
  "only_sweep v = minus_ids (sv_alive v) (sv_after v)"

definition only_listing :: "sweep_view \<Rightarrow> int list" where
  "only_listing v = minus_ids (sv_after v) (sv_alive v)"

record tally =
  ta_threads :: int
  ta_hidden :: int
  ta_gone :: int
  ta_unexplained :: "int list"

fun classify_ids :: "sweep_view \<Rightarrow> int list \<Rightarrow> tally \<Rightarrow> tally probe" where
  "classify_ids v [] ta = retP ta"
| "classify_ids v (task_id # ids) ta =
     bindP (proc_tgid task_id) (\<lambda>tgid.
     classify_ids v ids
       (case tgid of
          None \<Rightarrow> ta\<lparr>ta_gone := ta_gone ta + 1\<rparr>
        | Some g \<Rightarrow>
            if g \<in> set (sv_after v) \<or> g \<in> fst ` set (sv_tasks v)
            then ta\<lparr>ta_threads := ta_threads ta + 1\<rparr>
            else ta\<lparr>ta_hidden := ta_hidden ta + 1, ta_unexplained := ta_unexplained ta @ [task_id]\<rparr>))"

definition classify_view :: "sweep_view \<Rightarrow> tally probe" where
  "classify_view v =
     classify_ids v (only_sweep v) \<lparr>ta_threads = 0, ta_hidden = 0, ta_gone = 0, ta_unexplained = []\<rparr>"

definition unexplained_entry :: "int \<Rightarrow> pystr list probe" where
  "unexplained_entry task_id =
     bindP (read_file (proc_path (lit ''/proc'') task_id (lit ''comm''))) (\<lambda>comm.
     bindP (read_file (proc_path (lit ''/proc'') task_id (lit ''cmdline''))) (\<lambda>cmdline.
     bindP (readlink_exe task_id) (\<lambda>exe.
     retP
       [lit ''  id '' @ str_int task_id,
        lit ''    comm    : '' @ strip_or_mark comm,
        lit ''    cmdline : '' @ strip_or_mark (map (\<lambda>c. if c = 0 then 32 else c) cmdline),
        lit ''    exe     : '' @ strip exe])))"

definition sweep_summary :: "int \<Rightarrow> sweep_view \<Rightarrow> tally \<Rightarrow> pystr list" where
  "sweep_summary pid_max v ta =
     [lit ''pid_max swept          : '' @ str_int pid_max,
      lit ''sweep duration         : '' @ sv_seconds v @ lit '' s'',
      lit ''ids that responded     : '' @ count_text (sv_alive v),
      lit ''/proc listing before   : '' @ count_text (sv_before v),
      lit ''/proc listing after    : '' @ count_text (sv_after v),
      lit ''known task ids after   : '' @ count_text (sv_tasks v),
      [],
      lit ''in sweep, not in listing : '' @ count_text (only_sweep v),
      lit ''in listing, not in sweep : '' @ count_text (only_listing v),
      [],
      lit ''Classifying every id the sweep saw but the listing did not:'',
      lit ''  thread of a visible process (Tgid is listed): '' @ str_int (ta_threads ta),
      lit ''  vanished before we could resolve it         : '' @ str_int (ta_gone ta),
      lit ''  UNEXPLAINED - candidate hidden process      : '' @ str_int (ta_hidden ta),
      []]"

definition sweep_lines :: "int \<Rightarrow> pystr list probe" where
  "sweep_lines pid_max =
     bindP (take_view pid_max) (\<lambda>v.
     bindP (classify_view v) (\<lambda>ta.
     bindP (mapP unexplained_entry (take 20 (ta_unexplained ta))) (\<lambda>entries.
     retP
       (sweep_summary pid_max v ta @ concat entries @
        (if ta_unexplained ta = [] then [lit ''  (none)''] else [])))))"

definition file_02_sweep :: "int \<Rightarrow> page" where
  "file_02_sweep pid_max =
     \<lparr>pg_name = lit ''02-sweep-vs-listing.txt'',
      pg_title = lit ''Channel 2: full pid-space sweep with kill(id, 0)'',
      pg_commands =
        lit ''python3 -c '' @ [39] @ lit ''import os'' @ [92] @ lit ''nfor p in range(1, PID_MAX+1):'' @ [92] @
        lit ''n    try: os.kill(p, 0)'' @ [92] @ lit ''n    except OSError: pass'' @ [39],
      pg_lines = sweep_lines pid_max\<rparr>"

section \<open>File 03: a sweep between two listings\<close>

definition race_lines :: "int \<Rightarrow> int \<Rightarrow> string \<Rightarrow> bool \<Rightarrow> pystr list probe" where
  "race_lines pid_max noise run_label noisy =
     bindP (if noisy then start_noise noise else retP None) (\<lambda>helper.
     bindP listing_pids (\<lambda>pass_a.
     bindP (sweep pid_max) (\<lambda>(alive, seconds).
     bindP listing_pids (\<lambda>pass_b.
     bindP (stop_noise helper) (\<lambda>_.
     let missing_from_both = minus_ids (minus_ids alive pass_a) pass_b;
         missing_from_a_only = minus_ids (filter (\<lambda>i. i \<in> set pass_b) alive) pass_a;
         missing_from_b_only = minus_ids (filter (\<lambda>i. i \<in> set pass_a) alive) pass_b in
     bindP (mapP (\<lambda>t. bindP (proc_tgid t) (\<lambda>g. retP (t, g))) missing_from_both) (\<lambda>answers.
     let resolved = map fst (filter (\<lambda>(t, g). g \<noteq> None) answers) in
     bindP (mapP proc_tgid resolved) (\<lambda>leaders.
     let listed_leaders = filter (\<lambda>g. case g of None \<Rightarrow> False | Some i \<Rightarrow> i \<in> set pass_b) leaders in
     retP
       [lit ''--- '' @ lit run_label @ lit '' ---'',
        lit ''  sweep duration          : '' @ seconds @ lit '' s'',
        lit ''  walk A / walk B sizes   : '' @ count_set pass_a @ lit '' / '' @ count_set pass_b,
        lit ''  sweep saw               : '' @ count_set alive,
        lit ''  absent from A only      : '' @ count_text missing_from_a_only @ lit ''  (started mid-capture)'',
        lit ''  absent from B only      : '' @ count_text missing_from_b_only @ lit ''  (exited mid-capture)'',
        lit ''  absent from BOTH walks  : '' @ count_text missing_from_both @ lit ''  <- threads + anything hidden'',
        lit ''  in walk A, sweep missed : '' @ count_text (minus_ids pass_a alive),
        lit ''  in walk B, sweep missed : '' @ count_text (minus_ids pass_b alive),
        lit ''  of those, still resolvable: '' @ count_text resolved,
        lit ''  whose Tgid is a listed pid: '' @ count_set listed_leaders @ lit '' distinct leaders'',
        []])))))))"

definition race_file_lines :: "int \<Rightarrow> int \<Rightarrow> pystr list probe" where
  "race_file_lines pid_max noise =
     bindP (mapP (\<lambda>(run_label, noisy). race_lines pid_max noise run_label noisy)
              [(''idle'', False), (''under process churn'', True)]) (\<lambda>runs.
     retP
       ([lit ''A sweep takes seconds; a /proc walk takes milliseconds. Processes'',
         lit ''start and exit in between, so the two views disagree on a clean'',
         lit ''machine for reasons that have nothing to do with hiding.'',
         [],
         lit ''The sandwich distinguishes them: an id the sweep saw that is absent'',
         lit ''from BOTH walks, and still resolvable, cannot be explained by timing.'',
         []] @ concat runs))"

definition file_03_race :: "int \<Rightarrow> int \<Rightarrow> page" where
  "file_03_race pid_max noise =
     \<lparr>pg_name = lit ''03-sandwich-race.txt'',
      pg_title = lit ''Why the capture runs procfs -> sweep -> procfs'',
      pg_commands = lit ''read /proc listing (pass A); sweep the pid space; read it again (pass B)'',
      pg_lines = race_file_lines pid_max noise\<rparr>"

section \<open>File 04: direct access\<close>

text \<open>\<open>text.split(') ')[-1]\<close>.\<close>

fun last_after_close :: "pystr \<Rightarrow> pystr \<Rightarrow> pystr" where
  "last_after_close best (c # d # s) =
     last_after_close (if c = 41 \<and> d = 32 then s else best) (d # s)"
| "last_after_close best _ = best"

definition start_field :: "pystr \<Rightarrow> pystr result" where
  "start_field text =
     (case drop 19 (split_ws (last_after_close text text)) of
        w # _ \<Rightarrow> Inr w
      | [] \<Rightarrow> Inl IndexError)"

definition target_lines :: "string \<Rightarrow> int \<Rightarrow> pystr list probe" where
  "target_lines why pid =
     bindP listing_pids (\<lambda>pids.
     bindP (kill0 pid) (\<lambda>r.
     bindP (proc_tgid pid) (\<lambda>tgid.
     bindP (read_file (proc_path (lit ''/proc'') pid (lit ''comm''))) (\<lambda>comm.
     bindP (readlink_exe pid) (\<lambda>exe.
     bindP (if tgid \<noteq> None
            then bindP (read_file (proc_path (lit ''/proc'') pid (lit ''stat''))) (\<lambda>stat.
                 liftP (start_field stat))
            else retP (lit ''?'')) (\<lambda>start.
     retP
       [lit ''pid '' @ str_int pid @ lit ''  ('' @ lit why @ lit '')'',
        lit ''  appears in readdir(/proc) : '' @ (if pid \<in> set pids then lit ''yes'' else lit ''NO''),
        lit ''  kill(pid, 0) succeeds     : '' @
          (case r of None \<Rightarrow> lit ''yes'' | Some exc \<Rightarrow> lit ''no (errno '' @ str_int (fst exc) @ lit '')''),
        lit ''  /proc/<pid>/status readable: '' @ yes_no (tgid \<noteq> None),
        lit ''  comm                      : '' @ strip_or_mark comm,
        lit ''  exe                       : '' @ strip exe,
        lit ''  starttime (stat field 22) : '' @ start,
        []]))))))"

definition direct_lines :: "int option \<Rightarrow> pystr list probe" where
  "direct_lines hidden_pid =
     bindP (ask ho_pid) (\<lambda>self.
     bindP (mapP (\<lambda>(why, pid). target_lines why pid)
              ([(''self'', self)] @
               (case hidden_pid of None \<Rightarrow> [] | Some pid \<Rightarrow> [(''--hidden-pid'', pid)]))) (\<lambda>targets.
     retP
       ([lit ''Diamorphine hides processes by filtering the results of getdents64.'',
         lit ''A direct path lookup does not go through getdents64 at all, so the'',
         lit ''same kernel that refuses to list a pid will happily answer questions'',
         lit ''about it. Three channels, one filesystem.'',
         []] @ concat targets)))"

definition file_04_direct :: "int option \<Rightarrow> page" where
  "file_04_direct hidden_pid =
     \<lparr>pg_name = lit ''04-direct-access-channel.txt'',
      pg_title = lit ''Channel 3: reading /proc/<pid> without listing /proc'',
      pg_commands =
        lit ''ls /proc | grep '' @ [39] @ lit ''^<pid>$'' @ [39] @ lit ''   # readdir - hookable'' @ [10] @
        lit ''stat /proc/<pid>            # direct path lookup - different code path'' @ [10] @
        lit ''kill -0 <pid>               # existence via the signal path'',
      pg_lines = direct_lines hidden_pid\<rparr>"

end
