(* ===== verification/Step0_Modules.thy ===== *)
theory Step0_Modules
  imports Step0_Sweep
begin

text \<open>
  The evidence of \<open>tools/step0_phase2.py\<close> on modules, files 05 to 08, and the run of the whole script.
\<close>

section \<open>File 05: three lists of modules\<close>

text \<open>\<open>_proc_modules\<close>: the last line of a name counts.\<close>

definition module_dict :: "pystr \<Rightarrow> (pystr \<times> pystr) list" where
  "module_dict text =
     fold (\<lambda>line out. case split_ws line of [] \<Rightarrow> out | w # _ \<Rightarrow> AList.update w line out)
       (splitlines text) []"

definition proc_modules :: "(pystr \<times> pystr) list probe" where
  "proc_modules = bindP (read_file (lit ''/proc/modules'')) (\<lambda>text. retP (module_dict text))"

definition kallsyms_tag :: "pystr \<Rightarrow> pystr option" where
  "kallsyms_tag line =
     (case split_ws line of
        _ # _ # _ # tag # _ \<Rightarrow>
          if startswith tag [91] \<and> endswith tag [93] then Some (butlast (tl tag)) else None
      | _ \<Rightarrow> None)"

definition zero_address :: "pystr \<Rightarrow> bool" where
  "zero_address line = (case split_ws line of [] \<Rightarrow> False | w # _ \<Rightarrow> w = replicate 16 48)"

definition minus_names :: "pystr list \<Rightarrow> pystr list \<Rightarrow> pystr list" where
  "minus_names xs ys = sorted_set (filter (\<lambda>n. n \<notin> set ys) xs)"

definition indented :: "string \<Rightarrow> pystr list \<Rightarrow> pystr list" where
  "indented margin ns = map (\<lambda>n. lit margin @ n) ns"

definition initstate_line :: "pystr \<Rightarrow> pystr probe" where
  "initstate_line name =
     bindP (askE (\<lambda>h. ho_exists h (path_text (lit ''/sys/module/'' @ name @ lit ''/initstate'')))) (\<lambda>b.
     retP (lit ''    '' @ pad_left 32 name @ lit '' has initstate: '' @
           (if b then lit ''True'' else lit ''False'')))"

definition module_lists_lines :: "pystr list probe" where
  "module_lists_lines =
     bindP proc_modules (\<lambda>modules.
     bindP (ask (\<lambda>h. os_listdir (ho_os h) (lit ''/sys/module''))) (\<lambda>r.
     bindP (read_file (lit ''/proc/kallsyms'')) (\<lambda>kallsyms.
     let from_proc = map fst modules;
         from_sysfs = (case r of Inl _ \<Rightarrow> [] | Inr names \<Rightarrow> names);
         from_kallsyms = concat (map (\<lambda>l. case kallsyms_tag l of None \<Rightarrow> [] | Some n \<Rightarrow> [n])
           (splitlines kallsyms)) in
     bindP (mapP initstate_line (minus_names from_sysfs from_proc)) (\<lambda>builtin.
     retP
       ((case r of
           Inl exc \<Rightarrow> [lit ''<<could not list /sys/module: '' @ os_error_text exc (lit ''/sys/module'') @ lit ''>>'']
         | Inr _ \<Rightarrow> []) @
        [lit ''/proc/modules entries   : '' @ count_text from_proc,
         lit ''/sys/module entries     : '' @ count_set from_sysfs,
         lit ''modules named in kallsyms: '' @ count_set from_kallsyms,
         lit ''kallsyms symbols with a zeroed address: '' @
           count_text (filter zero_address (splitlines kallsyms)),
         lit ''  (a non-zero count means this capture cannot do address work - L4)'',
         [],
         lit ''In /sys/module but NOT in /proc/modules:'',
         lit ''  Expected on a clean system: built-in code registers a sysfs'',
         lit ''  directory for its parameters without ever being a loadable module.'',
         lit ''  This is false-positive class #2 for the module view.''] @
        builtin @
        [[], lit ''In /proc/modules but NOT in /sys/module:''] @
        indented ''    '' (minus_names from_proc from_sysfs) @
        [if minus_names from_proc from_sysfs = [] then lit ''    (none)'' else [],
         [],
         lit ''Named in kallsyms but absent from /proc/modules:'',
         lit ''  False-positive class #3: the fourth column of /proc/kallsyms is'',
         lit ''  not exclusively module names. JIT-compiled BPF programs are tagged'',
         lit ''  [bpf], and ftrace trampolines get tags of their own. A differ that'',
         lit ''  treats every bracketed tag as a module invents one on a clean host.''] @
        indented ''    '' (minus_names from_kallsyms from_proc) @
        (if minus_names from_kallsyms from_proc = [] then [lit ''    (none)''] else []))))))"

definition file_05_module_lists :: page where
  "file_05_module_lists =
     \<lparr>pg_name = lit ''05-module-three-lists.txt'',
      pg_title = lit ''Three module lists that share one source'',
      pg_commands =
        lit ''cat /proc/modules | awk '' @ [39] @ lit ''{print $1}'' @ [39] @ lit '' | sort'' @ [10] @
        lit ''ls /sys/module | sort'' @ [10] @
        lit ''awk '' @ [39] @ lit ''{print $4}'' @ [39] @ lit '' /proc/kallsyms | grep '' @ [39, 94, 92, 91, 39] @ lit '' | sort -u'',
      pg_lines = module_lists_lines\<rparr>"

section \<open>File 06: the records of ftrace\<close>

definition tracing_dirs :: "pystr list" where
  "tracing_dirs = [lit ''/sys/kernel/tracing'', lit ''/sys/kernel/debug/tracing'']"

fun first_dir :: "pystr list \<Rightarrow> pystr option probe" where
  "first_dir [] = retP None"
| "first_dir (d # ds) =
     bindP (askE (\<lambda>h. ho_isdir h d)) (\<lambda>b. if b then retP (Some d) else first_dir ds)"

definition record_tag :: "pystr \<Rightarrow> pystr option" where
  "record_tag line =
     (if endswith line [93]
      then map_option (\<lambda>i. butlast (drop (i + 1) line)) (rfind_char 91 line) else None)"

definition count_tag :: "pystr \<Rightarrow> (pystr \<times> int) list \<Rightarrow> (pystr \<times> int) list" where
  "count_tag name counts =
     AList.update name ((case map_of counts name of None \<Rightarrow> 0 | Some n \<Rightarrow> n) + 1) counts"

definition tag_counts :: "pystr list \<Rightarrow> (pystr \<times> int) list" where
  "tag_counts lines =
     fold (\<lambda>l counts. case record_tag l of None \<Rightarrow> counts | Some n \<Rightarrow> count_tag n counts) lines []"

definition ftrace_record_lines :: "pystr \<Rightarrow> pystr \<Rightarrow> pystr list probe" where
  "ftrace_record_lines tracing text =
     (let lines = splitlines text; counts = tag_counts lines;
          untagged = int (length (filter (\<lambda>l. record_tag l = None) lines)) in
      bindP proc_modules (\<lambda>modules.
      let from_proc = map fst modules in
      retP
        ([lit ''tracefs: '' @ tracing,
          lit ''total records            : '' @ str_int (untagged + sum_list (map snd counts)),
          lit ''untagged (core kernel)   : '' @ str_int untagged,
          lit ''distinct modules tagged  : '' @ count_text counts,
          [],
          lit ''Per module: traceable function count, and whether /proc/modules'',
          lit ''still admits the module exists.''] @
         map (\<lambda>(n, c). lit ''  '' @ pad_left 32 n @ lit '' '' @ pad_right 6 (str_int c) @
             (if n \<in> set from_proc then [] else lit ''   <-- NOT IN /proc/modules''))
           (sort_key fst counts) @
         [[], lit ''Modules in /proc/modules with no ftrace records:''] @
         indented ''  '' (minus_names from_proc (map fst counts)))))"

definition ftrace_lines :: "pystr list probe" where
  "ftrace_lines =
     (let intro =
        [lit ''ftrace records a module'' @ [39] @ lit ''s traceable functions when the module is'',
         lit ''LOADED, and drops them when it is UNLOADED. Unlinking a module from'',
         lit ''the kernel'' @ [39] @ lit ''s `modules` list is neither, so if these records survive'',
         lit ''hiding, this is a channel that does not share a source with'',
         lit ''/proc/modules. That is the whole question this file answers.'',
         []] in
      bindP (first_dir tracing_dirs) (\<lambda>tracing.
      case tracing of
        None \<Rightarrow>
          retP (intro @
            [lit ''<<no tracefs found at any of ('' @ join (lit '', '') (map py_repr tracing_dirs) @ lit '')>>'',
             lit ''Without tracefs this channel is unavailable on this host.''])
      | Some dir \<Rightarrow>
          bindP (read_file (dir @ lit ''/available_filter_functions'')) (\<lambda>text.
          if startswith text (lit ''<<'') then retP (intro @ [lit ''tracefs: '' @ dir, text])
          else bindP (ftrace_record_lines dir text) (\<lambda>lines. retP (intro @ lines)))))"

definition file_06_ftrace :: page where
  "file_06_ftrace =
     \<lparr>pg_name = lit ''06-ftrace-module-tags.txt'',
      pg_title = lit ''Candidate independent channel: ftrace'' @ [39] @ lit ''s function records'',
      pg_commands =
        lit ''cat /sys/kernel/tracing/available_filter_functions | grep '' @ [39, 92, 91, 39] @ lit '' | '' @
        lit ''sed '' @ [39] @ lit ''s/.*'' @ [92] @ lit ''[//;s/'' @ [92] @ lit '']//'' @ [39] @ lit '' | sort | uniq -c'',
      pg_lines = ftrace_lines\<rparr>"

section \<open>File 07: module memory\<close>

definition module_region :: "pystr \<Rightarrow> bool" where
  "module_region line \<longleftrightarrow> contains (lit ''module_alloc'') line \<or> contains (lit ''load_module'') line"

definition base_address :: "pystr \<Rightarrow> pystr" where
  "base_address line = (case drop 5 (split_ws line) of [] \<Rightarrow> lit ''?'' | a # _ \<Rightarrow> a)"

definition vmalloc_lines :: "pystr list probe" where
  "vmalloc_lines =
     (let intro =
        [lit ''Module code lives in a vmalloc region allocated at load time. The'',
         lit ''allocation is released on unload, not on unlinking, so a hidden'',
         lit ''module should still own a region here. Unlike ftrace this needs no'',
         lit ''tracing subsystem, but it gives an address range rather than a name.'',
         []] in
      bindP (read_file (lit ''/proc/vmallocinfo'')) (\<lambda>text.
      if startswith text (lit ''<<'')
      then retP (intro @ [text, lit ''This file is root-only (mode 0400). Re-run under sudo.''])
      else
        bindP proc_modules (\<lambda>modules.
        let module_lines = filter module_region (splitlines text) in
        retP
          (intro @
           [lit ''total vmallocinfo lines   : '' @ count_text (splitlines text),
            lit ''module-allocation lines   : '' @ count_text module_lines,
            []] @
           indented ''  '' module_lines @
           [[], lit ''Base addresses claimed by /proc/modules, for correlation:''] @
           map (\<lambda>(n, line). lit ''  '' @ pad_left 32 n @ lit '' '' @ base_address line)
             (sort_key fst modules)))))"

definition file_07_vmalloc :: page where
  "file_07_vmalloc =
     \<lparr>pg_name = lit ''07-vmallocinfo-modules.txt'',
      pg_title = lit ''Candidate independent channel: module memory in /proc/vmallocinfo'',
      pg_commands = lit ''grep -E '' @ [39] @ lit ''module_alloc|load_module'' @ [39] @ lit '' /proc/vmallocinfo'',
      pg_lines = vmalloc_lines\<rparr>"

section \<open>File 08: the taint word and the markers\<close>

definition trailing_marker :: "pystr \<Rightarrow> pystr" where
  "trailing_marker line =
     (if endswith line [41]
      then (case rfind_char 32 line of None \<Rightarrow> line | Some i \<Rightarrow> drop (i + 1) line) else [])"

definition set_or_clear :: "bool \<Rightarrow> pystr" where
  "set_or_clear b = (if b then lit ''SET'' else lit ''clear'')"

definition sysfs_taint_line :: "pystr \<Rightarrow> pystr list probe" where
  "sysfs_taint_line name =
     (let path = lit ''/sys/module/'' @ name @ lit ''/taint'' in
      bindP (read_file path) (\<lambda>taint.
      retP (if taint \<noteq> [] \<and> \<not> startswith taint (lit ''<<'') \<and> strip taint \<noteq> []
            then [lit ''  '' @ path @ lit '' = '' @ strip taint] else [])))"

definition sysfs_taint_lines :: "pystr list probe" where
  "sysfs_taint_lines =
     bindP (ask (\<lambda>h. os_listdir (ho_os h) (lit ''/sys/module''))) (\<lambda>r.
     case r of
       Inl exc \<Rightarrow> retP [lit ''  <<'' @ os_error_text exc (lit ''/sys/module'') @ lit ''>>'']
     | Inr names \<Rightarrow> bindP (mapP sysfs_taint_line (sort names)) (\<lambda>ls. retP (concat ls)))"

definition accounting_lines :: "pystr list probe" where
  "accounting_lines =
     bindP (read_file (lit ''/proc/sys/kernel/tainted'')) (\<lambda>text.
     let raw = strip (if text = [] then lit ''0'' else text); v = int_or_zero raw in
     bindP proc_modules (\<lambda>modules.
     let marked = filter (\<lambda>(n, line). trailing_marker line \<noteq> []) (sort_key fst modules) in
     bindP sysfs_taint_lines (\<lambda>sysfs.
     retP
       ([lit ''Loading an out-of-tree unsigned module sets taint bits 12 and 13.'',
         lit ''Unlinking the module from the list does not clear them. So a kernel'',
         lit ''that admits to an out-of-tree module while no listed module carries'',
         lit ''an (O) or (E) marker is accounting for something it will not name.'',
         lit ''This costs two file reads and needs no tracing and no addresses.'',
         [],
         lit ''/proc/sys/kernel/tainted : '' @ raw,
         lit ''  bit 12 (out-of-tree)   : '' @ set_or_clear (v AND push_bit 12 1 \<noteq> 0),
         lit ''  bit 13 (unsigned)      : '' @ set_or_clear (v AND push_bit 13 1 \<noteq> 0),
         [],
         lit ''Per-module taint, from the trailing parenthesis of /proc/modules:''] @
        map (\<lambda>(n, line). lit ''  '' @ pad_left 32 n @ lit '' '' @ trailing_marker line) marked @
        (if marked = [] then [lit ''  (no listed module carries a taint marker)''] else []) @
        [[], lit ''Per-module taint, from sysfs:''] @
        sysfs @
        [[],
         lit ''CONCLUSION FOR THIS RUN: taint bits 12/13 '' @
         set_or_clear (v AND push_bit 12 3 \<noteq> 0) @
         lit '', listed modules carrying a taint marker: '' @ count_text marked]))))"

definition file_08_taint :: page where
  "file_08_taint =
     \<lparr>pg_name = lit ''08-taint-accounting.txt'',
      pg_title = lit ''Candidate independent channel: taint set, but nothing to blame'',
      pg_commands =
        lit ''cat /proc/sys/kernel/tainted'' @ [10] @
        lit ''cat /proc/modules            # taint flags in the trailing (...)'' @ [10] @
        lit ''cat /sys/module/*/taint'',
      pg_lines = accounting_lines\<rparr>"

section \<open>The whole script\<close>

text \<open>The parsed arguments.\<close>

record lab_args =
  la_label :: pystr
  la_hidden_pid :: "int option"
  la_race_load :: int
  la_outdir :: pystr

text \<open>A probe from instant \<open>t\<close> as an action on the files, which returns the next instant.\<close>

definition probing :: "(nat \<Rightarrow> host) \<Rightarrow> 'a probe \<Rightarrow> nat \<Rightarrow> ('a \<times> nat) act" where
  "probing h m t = lift (case m h t of (Inl e, t') \<Rightarrow> Inl e | (Inr x, t') \<Rightarrow> Inr (x, t'))"

text \<open>
  One file: it is opened, asks the host, says its lines and is closed. The lines are said together,
  since nothing of them is on disk before the end.
\<close>

definition write_page :: "platform \<Rightarrow> (nat \<Rightarrow> host) \<Rightarrow> page \<Rightarrow> evidence \<Rightarrow> nat \<Rightarrow> (evidence \<times> nat) act" where
  "write_page pf h pg ev t =
     (let ev = evidence_open (pg_name pg) (pg_title pg) (pg_commands pg) ev in
      bindW (probing h (pg_lines pg) t) (\<lambda>(lines, t').
      bindW (evidence_close pf (fold evidence_say lines ev)) (\<lambda>ev. lift (Inr (ev, t')))))"

fun write_pages :: "platform \<Rightarrow> (nat \<Rightarrow> host) \<Rightarrow> evidence \<Rightarrow> page list \<Rightarrow> nat \<Rightarrow> unit act" where
  "write_pages pf h ev [] t = lift (Inr ())"
| "write_pages pf h ev (pg # pgs) t =
     bindW (write_page pf h pg ev t) (\<lambda>(ev, t'). write_pages pf h ev pgs t')"

definition lab_pages :: "int \<Rightarrow> lab_args \<Rightarrow> page list" where
  "lab_pages pid_max args =
     [file_00_host pid_max, file_01_tasks, file_02_sweep pid_max,
      file_03_race pid_max (la_race_load args), file_04_direct (la_hidden_pid args),
      file_05_module_lists, file_06_ftrace, file_07_vmalloc, file_08_taint]"

definition lab_pid_max :: "int probe" where
  "lab_pid_max =
     bindP (read_file (lit ''/proc/sys/kernel/pid_max'')) (\<lambda>text.
     liftP (py_int (strip (if text = [] then lit ''32768'' else text))))"

definition lab_header :: "pystr probe" where
  "lab_header =
     bindP (ask ho_stamp) (\<lambda>stamp.
     bindP (ask ho_release) (\<lambda>release.
     bindP (ask ho_euid) (\<lambda>euid.
     retP (lit ''captured: '' @ stamp @ [10] @ lit ''kernel:   '' @ release @ [10] @
           lit ''euid:     '' @ str_int euid))))"

definition root_warning :: pystr where
  "root_warning =
     lit ''warning: not running as root. /proc/vmallocinfo, the tracefs and '' @
     lit ''kallsyms addresses will be unreadable, and the module channels are '' @
     lit ''exactly what this pass exists to test.''"

definition lab_main :: "platform \<Rightarrow> (nat \<Rightarrow> host) \<Rightarrow> lab_args \<Rightarrow> int act" where
  "lab_main pf h args =
     bindW (probing h (ask ho_euid) 0) (\<lambda>(euid, t).
     bindW (if euid \<noteq> 0 then print_err root_warning else lift (Inr ())) (\<lambda>_.
     let outdir = path_div (path_text (la_outdir args)) (la_label args) in
     bindW (mkdir_parents pf outdir) (\<lambda>_.
     bindW (probing h lab_pid_max t) (\<lambda>(pid_max, t).
     bindW (probing h lab_header t) (\<lambda>(header, t).
     let ev = \<lparr>ev_outdir = outdir, ev_label = la_label args, ev_header = header, ev_lines = [],
                ev_name = None\<rparr> in
     bindW (print_line (lit ''writing evidence to '' @ outdir @ lit ''/'')) (\<lambda>_.
     bindW (write_pages pf h ev (lab_pages pid_max args) t) (\<lambda>_.
     bindW (print_line (lit ''done'')) (\<lambda>_. lift (Inr 0)))))))))"

end
