(* ===== verification/Step0_Agrees.thy ===== *)
theory Step0_Agrees
  imports Step0_Modules Capture
begin

text \<open>
  The laboratory script and the detector on the same host. While a capture and the script both look
  at a host that does not change, file 02 calls an id unexplained exactly when the analysis of the
  capture reports its process by the sweep; it counts the unexplained ids and lists the first
  twenty of them.
\<close>

section \<open>Probes of a host that does not change\<close>

text \<open>From every instant the probe ends as \<open>r\<close>.\<close>

definition yields :: "host \<Rightarrow> 'a probe \<Rightarrow> 'a result \<Rightarrow> bool" where
  "yields q m r \<longleftrightarrow> (\<forall>t. fst (m (\<lambda>_. q) t) = r)"

named_theorems yields_intros "what a probe of an unchanging host yields"

lemma yieldsD: "yields q m r \<Longrightarrow> fst (m (\<lambda>_. q) t) = r"
  by (simp add: yields_def)

lemma yields_basic [yields_intros]:
  "yields q (liftP r) r"
  "yields q (retP x) (Inr x)"
  "yields q (ask f) (Inr (f q))"
  "yields q (askE g) (g q)"
  by (simp_all add: yields_def)

lemma yields_bind [yields_intros]:
  assumes "yields q m r" and "\<And>x. yields q (f x) (g x)"
  shows "yields q (bindP m f) (bindE r g)"
  unfolding yields_def
proof
  fix t
  obtain y t' where m: "m (\<lambda>_. q) t = (y, t')" by (cases "m (\<lambda>_. q) t")
  with yieldsD [OF assms(1), of t] have "y = r" by simp
  then show "fst (bindP m f (\<lambda>_. q) t) = bindE r g"
    using m yieldsD [OF assms(2), of _ t'] by (cases y) (auto simp: bindE_def)
qed

lemma yields_eq: "yields q m r \<Longrightarrow> r = r' \<Longrightarrow> yields q m r'"
  by simp

text \<open>What \<open>proc_tgid\<close> gives while nothing changes.\<close>

definition tgid_now :: "os \<Rightarrow> int \<Rightarrow> int option result" where
  "tgid_now os i =
     (case os_read os (proc_path (lit ''/proc'') i (lit ''status'')) of
        Inl _ \<Rightarrow> Inr None
      | Inr text \<Rightarrow>
          if startswith text (lit ''<<'') then Inr None else tgid_line (splitlines text))"

lemma unreadable_marked: "startswith (lit ''<<UNREADABLE: '' @ s) (lit ''<<'')"
  by (simp add: startswith_def lit_def)

lemma yields_read [yields_intros]:
  "yields q (read_file path) (Inr (case os_read (ho_os q) path of
     Inr text \<Rightarrow> text
   | Inl exc \<Rightarrow> lit ''<<UNREADABLE: '' @ snd exc @ lit '' (errno '' @ str_int (fst exc) @ lit '')>>''))"
  by (simp add: yields_def read_file_def)

lemma yields_if [yields_intros]:
  "yields q m r \<Longrightarrow> yields q m' r' \<Longrightarrow> yields q (if b then m else m') (if b then r else r')"
  by simp

lemma yields_tgid [yields_intros]: "yields q (proc_tgid i) (tgid_now (ho_os q) i)"
  by (simp add: yields_def proc_tgid_def read_file_def tgid_now_def unreadable_marked split: sum.split)

lemma yields_listing [yields_intros]:
  "yields q listing_pids
     (bindE (os_raise (os_listdir (ho_os q) (lit ''/proc''))) numeric_names)"
  unfolding listing_pids_def by (intro yields_intros)

text \<open>The task ids under the pids, and the range that is swept.\<close>

definition tasks_now :: "os \<Rightarrow> int \<Rightarrow> int list result" where
  "tasks_now os pid =
     (case os_listdir os (proc_path (lit ''/proc'') pid (lit ''task'')) of
        Inl _ \<Rightarrow> Inr []
      | Inr names \<Rightarrow> mapE py_int (filter py_isdigit names))"

fun tasks_from :: "os \<Rightarrow> int list \<Rightarrow> (int \<times> int) list \<Rightarrow> (int \<times> int) list result" where
  "tasks_from os [] d = Inr d"
| "tasks_from os (pid # pids) d =
     bindE (tasks_now os pid) (\<lambda>ids. tasks_from os pids (fold (\<lambda>i. AList.update i pid) ids d))"

lemma yields_tasks [yields_intros]: "yields q (task_loop pids d) (tasks_from (ho_os q) pids d)"
proof (induction pids arbitrary: d)
  case Nil
  show ?case by (simp add: yields_def)
next
  case (Cons pid pids)
  have loop: "fst (task_loop pids d (\<lambda>_. q) t) = tasks_from (ho_os q) pids d" for d t
    by (rule yieldsD [OF Cons.IH])
  show ?case
    by (auto simp: yields_def tasks_now_def loop bindE_def split: sum.split)
qed

lemma answers_responded: "answers os i = responded (os_kill os i)"
  by (simp add: answers_def responded_def)

lemma yields_sweep_ids:
  assumes "list_all (\<lambda>i. - (2 ^ 31) \<le> i \<and> i < 2 ^ 31) ids"
  shows "yields q (sweep_ids ids) (Inr (filter (answers (ho_os q)) ids))"
  using assms
proof (induction ids)
  case (Cons i ids)
  then have ids: "yields q (sweep_ids ids) (Inr (filter (answers (ho_os q)) ids))"
    and kill: "yields q (kill0 i) (Inr (os_kill (ho_os q) i))"
    by (simp_all add: kill0_def yields_def)
  have "yields q (sweep_ids (i # ids)) (bindE (Inr (os_kill (ho_os q) i)) (\<lambda>r.
      bindE (Inr (filter (answers (ho_os q)) ids)) (\<lambda>alive.
      Inr (if responded r then i # alive else alive))))"
    unfolding sweep_ids.simps by (intro yields_bind ids kill yields_basic)
  then show ?case by (rule yields_eq) (simp add: answers_responded [symmetric])
qed (simp add: yields_def)

lemma yields_sweep:
  assumes "m < 2 ^ 31"
  shows "yields q (sweep m) (Inr (filter (answers (ho_os q)) [1..m], ho_seconds q))"
proof -
  have "list_all (\<lambda>i. - (2 ^ 31) \<le> i \<and> i < 2 ^ 31) [1..m]" using assms by (auto simp: list_all_iff)
  from yields_sweep_ids [OF this]
  have "yields q (sweep m) (bindE (Inr (filter (answers (ho_os q)) [1..m])) (\<lambda>alive.
      bindE (Inr (ho_seconds q)) (\<lambda>s. Inr (alive, s))))"
    unfolding sweep_def by (intro yields_bind yields_basic)
  then show ?thesis by simp
qed

section \<open>The view and its classification\<close>

definition view_now :: "host \<Rightarrow> int \<Rightarrow> int list \<Rightarrow> (int \<times> int) list \<Rightarrow> sweep_view" where
  "view_now q m pids tasks =
     \<lparr>sv_before = pids, sv_alive = filter (answers (ho_os q)) [1..m], sv_seconds = ho_seconds q,
      sv_after = pids, sv_tasks = tasks\<rparr>"

lemma yields_view:
  assumes "m < 2 ^ 31"
  shows "yields q (take_view m)
     (bindE (bindE (os_raise (os_listdir (ho_os q) (lit ''/proc''))) numeric_names) (\<lambda>pids.
      bindE (tasks_from (ho_os q) pids []) (\<lambda>tasks. Inr (view_now q m pids tasks))))"
    (is "yields _ _ (bindE ?l _)")
proof -
  have "yields q (take_view m)
     (bindE ?l (\<lambda>before. bindE (Inr (filter (answers (ho_os q)) [1..m], ho_seconds q)) (\<lambda>(alive, seconds).
      bindE ?l (\<lambda>after. bindE (tasks_from (ho_os q) after []) (\<lambda>tasks.
      Inr \<lparr>sv_before = before, sv_alive = alive, sv_seconds = seconds, sv_after = after,
           sv_tasks = tasks\<rparr>)))))"
    unfolding take_view_def task_ids_def
    by (intro yields_bind yields_listing yields_sweep [OF assms])
       (auto intro!: yields_intros split: prod.split)
  then show ?thesis by (cases ?l) (simp_all add: view_now_def)
qed

text \<open>The tally counts every id of the sweep under its kind, and lists the unexplained ones.\<close>

definition sound_tally :: "os \<Rightarrow> sweep_view \<Rightarrow> int list \<Rightarrow> tally \<Rightarrow> bool" where
  "sound_tally os v ids ta \<longleftrightarrow>
     ta_threads ta = int (length (filter (\<lambda>i. case tgid_now os i of
        Inr (Some g) \<Rightarrow> g \<in> set (sv_after v) \<or> g \<in> fst ` set (sv_tasks v) | _ \<Rightarrow> False) ids)) \<and>
     ta_gone ta = int (length (filter (\<lambda>i. tgid_now os i = Inr None) ids)) \<and>
     ta_hidden ta = int (length (ta_unexplained ta)) \<and>
     ta_unexplained ta = filter (\<lambda>i. case tgid_now os i of
        Inr (Some g) \<Rightarrow> g \<notin> set (sv_after v) \<and> g \<notin> fst ` set (sv_tasks v) | _ \<Rightarrow> False) ids"

lemma classify_sound:
  assumes "fst (classify_ids v ids ta (\<lambda>_. q) t) = Inr ta'" and "sound_tally (ho_os q) v done ta"
  shows "sound_tally (ho_os q) v (done @ ids) ta'"
  using assms
proof (induction ids arbitrary: ta t "done")
  case (Cons i ids)
  obtain t' where p: "proc_tgid i (\<lambda>_. q) t = (tgid_now (ho_os q) i, t')"
    using yieldsD [OF yields_tgid, of i q t] by (metis prod.collapse)
  obtain g where g: "tgid_now (ho_os q) i = Inr g"
    using Cons.prems(1) by (cases "tgid_now (ho_os q) i") (simp_all add: p)
  let ?ta = "case g of None \<Rightarrow> ta\<lparr>ta_gone := ta_gone ta + 1\<rparr>
    | Some g \<Rightarrow> if g \<in> set (sv_after v) \<or> g \<in> fst ` set (sv_tasks v)
        then ta\<lparr>ta_threads := ta_threads ta + 1\<rparr>
        else ta\<lparr>ta_hidden := ta_hidden ta + 1, ta_unexplained := ta_unexplained ta @ [i]\<rparr>"
  have "sound_tally (ho_os q) v (done @ [i]) ?ta"
    using Cons.prems(2) by (auto simp: sound_tally_def g algebra_simps split: option.split)
  from Cons.IH [OF _ this, of t'] Cons.prems(1) show ?case by (simp add: p g)
qed simp

section \<open>The file and the analysis of a capture\<close>

text \<open>
  A host whose answers fit together, for ids up to \<open>m\<close>: the listing names each pid once, names
  leaders only, and every process it names has a readable stat; a status names the same thread
  group to both readers; a listed task directory holds no leader of another process.
\<close>

definition readers_agree :: "os \<Rightarrow> int \<Rightarrow> bool" where
  "readers_agree os i \<longleftrightarrow>
     tgid_now os i = Inr (map_option fst (live_read_status os i))"

text \<open>The text that the kernel writes is read alike by both.\<close>

lemma tgid_line_skip:
  "list_all (\<lambda>l. \<not> startswith l (lit ''Tgid:'')) ls \<Longrightarrow> tgid_line (ls @ ls') = tgid_line ls'"
  by (induction ls) simp_all

lemma ignorable_not_tgid: "ignorable l \<Longrightarrow> \<not> startswith l (lit ''Tgid:'')"
  using split_once_append [of 58 "lit ''Tgid''"]
  by (auto simp: ignorable_def startswith_def prefix_def lit_def)

lemma kernel_status_agrees:
  assumes "list_all one_line (before @ between @ after @ [name])"
    and "list_all ignorable (before @ between @ after)"
    and "list_all printable_int (tgid # uid @ gid)"
    and "os_read os (proc_path (lit ''/proc'') i (lit ''status'')) =
       Inr (unlines (status_entry ''Name'' name # before @ [status_entry ''Tgid'' (str_int tgid)] @ between @
           [status_entry ''Uid'' (join [9] (map str_int uid)),
            status_entry ''Gid'' (join [9] (map str_int gid))] @ after))"
  shows "readers_agree os i"
proof -
  define lines where "lines = status_entry ''Name'' name # before @
     [status_entry ''Tgid'' (str_int tgid)] @ between @
     [status_entry ''Uid'' (join [9] (map str_int uid)),
      status_entry ''Gid'' (join [9] (map str_int gid))] @ after"
  note split = splitlines_status [OF assms(1) lines_def]
  have contents: "os_read os (proc_path (lit ''/proc'') i (lit ''status'')) = Inr (unlines lines)"
    using assms(4) by (simp add: lines_def)
  have "parse_status (unlines lines) =
      Inr \<lparr>st_uid = uid, st_gid = gid, st_tgid = tgid, st_name = Some (strip name)\<rparr>"
    using parse_status_fields [OF assms(1-3)] by (simp add: lines_def)
  then have live: "live_read_status os i = Some (tgid, Some (strip name))"
    by (simp add: live_read_status_def contents)
  have name: "\<not> startswith (status_entry ''Name'' name) (lit ''Tgid:'')"
    by (simp add: startswith_def status_entry_def lit_def)
  have "ws_field (lit ''Tgid:'')" by code_simp
  then have "split_ws (lit ''Tgid:'' @ 9 # str_int tgid) = [lit ''Tgid:'', str_int tgid]"
    by (simp add: split_ws_Cons split_ws_field)
  moreover have "status_entry ''Tgid'' (str_int tgid) = lit ''Tgid:'' @ 9 # str_int tgid"
    by (simp add: status_entry_def lit_def)
  ultimately have entry: "startswith (status_entry ''Tgid'' (str_int tgid)) (lit ''Tgid:'')"
    "split_ws (status_entry ''Tgid'' (str_int tgid)) = [lit ''Tgid:'', str_int tgid]"
    by (simp_all add: startswith_def)
  have "list_all (\<lambda>l. \<not> startswith l (lit ''Tgid:'')) before"
    using assms(2) ignorable_not_tgid by (auto simp: list_all_iff)
  then have "tgid_line lines = Inr (Some tgid)"
    using assms(3) by (simp add: lines_def name tgid_line_skip entry py_int_str_int)
  moreover have "\<not> startswith (unlines lines) (lit ''<<'')"
    by (simp add: lines_def unlines_def startswith_def status_entry_def lit_def)
  ultimately show ?thesis by (simp add: readers_agree_def tgid_now_def contents live split)
qed

definition leader_only :: "os \<Rightarrow> int \<Rightarrow> bool" where
  "leader_only os p \<longleftrightarrow>
     (case read_stat (live_proc_source os) p of Inl (Vanished _) \<Rightarrow> False | _ \<Rightarrow> True) \<and>
     tgid_now os p \<in> {Inr None, Inr (Some p)}"

definition task_placed :: "os \<Rightarrow> int list \<Rightarrow> (int \<times> int) list \<Rightarrow> int \<Rightarrow> bool" where
  "task_placed os pids tasks i \<longleftrightarrow>
     (case tgid_now os i of
        Inr (Some g) \<Rightarrow> g \<in> fst ` set tasks \<longrightarrow> g \<in> set pids
      | _ \<Rightarrow> True)"

definition coherent :: "os \<Rightarrow> int \<Rightarrow> bool" where
  "coherent os m \<longleftrightarrow>
     list_all (readers_agree os) [1..m] \<and>
     (case ps_list_pids (live_proc_source os) of
        Inl _ \<Rightarrow> False
      | Inr pids \<Rightarrow>
          distinct pids \<and> list_all (leader_only os) pids \<and>
          (case tasks_from os pids [] of
             Inl _ \<Rightarrow> False
           | Inr tasks \<Rightarrow> list_all (task_placed os pids tasks) [1..m]))"

text \<open>The parts of the file's computation, from the lines it says.\<close>

lemma bindP_InrE:
  assumes "fst (bindP m f h t) = Inr y"
  obtains x t' where "m h t = (Inr x, t')" and "fst (f x h t') = Inr y"
  using assms by (cases "m h t"; cases "fst (m h t)") auto

lemma mapP_InrD:
  "fst (mapP f xs h t) = Inr ys \<Longrightarrow> list_all2 (\<lambda>x y. \<exists>t. fst (f x h t) = Inr y) xs ys"
proof (induction xs arbitrary: ys t)
  case (Cons x xs)
  from Cons.prems obtain y t1 zs t2 where x: "f x h t = (Inr y, t1)"
    and xs: "mapP f xs h t1 = (Inr zs, t2)" and ys: "ys = y # zs"
    by (auto elim!: bindP_InrE simp del: probe_simps(5))
  from x have "\<exists>t. fst (f x h t) = Inr y" by (intro exI [of _ t]) simp
  with Cons.IH [of t1 zs] xs show ?case by (simp add: ys)
qed simp

lemma unexplained_entry_shape:
  assumes "fst (unexplained_entry i h t) = Inr ls"
  shows "length ls = 4 \<and> hd ls = lit ''  id '' @ str_int i"
  using assms by (auto simp: unexplained_entry_def elim!: bindP_InrE simp del: probe_simps(5))

lemma sweep_lines_parts:
  assumes "fst (sweep_lines m h t) = Inr lines"
  obtains v ta t1 t2 blocks where "take_view m h t = (Inr v, t1)" and "classify_view v h t1 = (Inr ta, t2)"
    and "lines = sweep_summary m v ta @ concat blocks @
       (if ta_unexplained ta = [] then [lit ''  (none)''] else [])"
    and "list_all2 (\<lambda>i b. length b = 4 \<and> hd b = lit ''  id '' @ str_int i)
       (take 20 (ta_unexplained ta)) blocks"
proof -
  let ?out = "\<lambda>v ta es. sweep_summary m v ta @ concat es @
      (if ta_unexplained ta = [] then [lit ''  (none)''] else [])"
  let ?es = "\<lambda>v ta. bindP (mapP unexplained_entry (take 20 (ta_unexplained ta))) (\<lambda>es. retP (?out v ta es))"
  obtain v t1 where v: "take_view m h t = (Inr v, t1)"
    and 1: "fst (bindP (classify_view v) (?es v) h t1) = Inr lines"
    using assms unfolding sweep_lines_def by (rule bindP_InrE)
  obtain ta t2 where ta: "classify_view v h t1 = (Inr ta, t2)" and 2: "fst (?es v ta h t2) = Inr lines"
    using 1 by (rule bindP_InrE)
  obtain es t3 where es: "mapP unexplained_entry (take 20 (ta_unexplained ta)) h t2 = (Inr es, t3)"
    and 3: "fst (retP (?out v ta es) h t3) = Inr lines"
    using 2 by (rule bindP_InrE)
  from 3 have lines: "lines = ?out v ta es" by simp
  have "list_all2 (\<lambda>i ls. \<exists>t. fst (unexplained_entry i h t) = Inr ls) (take 20 (ta_unexplained ta)) es"
    using mapP_InrD [of unexplained_entry _ h t2] es by simp
  then have "list_all2 (\<lambda>i b. length b = 4 \<and> hd b = lit ''  id '' @ str_int i)
      (take 20 (ta_unexplained ta)) es"
    by (rule list_all2_mono) (auto dest: unexplained_entry_shape)
  with v ta lines show thesis by (rule that)
qed

text \<open>Unexplained ids of a coherent host, and the processes its sweep shows a capture.\<close>

lemma coherent_lists:
  assumes "coherent os m"
  obtains pids tasks where "ps_list_pids (live_proc_source os) = Inr pids"
    and "tasks_from os pids [] = Inr tasks"
  using assms by (auto simp: coherent_def split: sum.splits)

lemma coherentD:
  assumes "coherent os m" and "ps_list_pids (live_proc_source os) = Inr pids"
  shows "distinct pids"
    and "i \<in> {1..m} \<Longrightarrow> readers_agree os i"
    and "p \<in> set pids \<Longrightarrow> leader_only os p"
    and "tasks_from os pids [] = Inr tasks \<Longrightarrow> i \<in> {1..m} \<Longrightarrow> tgid_now os i = Inr (Some g) \<Longrightarrow>
      g \<in> fst ` set tasks \<Longrightarrow> g \<in> set pids"
proof -
  show "distinct pids" "i \<in> {1..m} \<Longrightarrow> readers_agree os i" "p \<in> set pids \<Longrightarrow> leader_only os p"
    using assms by (auto simp: coherent_def list_all_iff)
  assume "tasks_from os pids [] = Inr tasks" and i: "i \<in> {1..m}"
  with assms have "task_placed os pids tasks i" by (auto simp: coherent_def list_all_iff)
  then show "tgid_now os i = Inr (Some g) \<Longrightarrow> g \<in> fst ` set tasks \<Longrightarrow> g \<in> set pids"
    by (simp add: task_placed_def)
qed

lemma listing_now:
  "ps_list_pids (live_proc_source os) = Inr pids \<Longrightarrow>
   bindE (os_raise (os_listdir os (lit ''/proc''))) numeric_names = Inr pids"
  by (auto simp: live_proc_source_def Let_def translated_def os_raise_def split: sum.splits)

lemma coherent_walk:
  assumes "coherent os m" and "ps_list_pids (live_proc_source os) = Inr pids"
  shows "walk_lists (live_proc_source os) n \<longleftrightarrow> n \<in> set pids"
proof -
  have "\<not> vanished (live_proc_source os) p" if "p \<in> set pids" for p
    using coherentD(3) [OF assms that] by (auto simp: vanished_def leader_only_def)
  then show ?thesis by (auto simp: walk_lists_def assms(2))
qed

lemma unexplained_iff:
  assumes "coherent os m" and "ss_pid_max (live_signal_source os) = Inr m"
    and "ps_list_pids (live_proc_source os) = Inr pids" and "tasks_from os pids [] = Inr tasks"
  shows "(\<exists>i. i \<in> {1..m} \<and> answers os i \<and> i \<notin> set pids \<and> tgid_now os i = Inr (Some n) \<and>
       n \<notin> set pids \<and> n \<notin> fst ` set tasks) \<longleftrightarrow>
     sweep_sees (live_signal_source os) n \<and> n \<notin> set pids"
proof -
  have sees: "sweep_sees (live_signal_source os) n \<longleftrightarrow>
      (\<exists>i. i \<in> {1..m} \<and> answers os i \<and> tgid_now os i = Inr (Some n))"
    unfolding sweep_sees_def assms(2)
    using coherentD(2) [OF assms(1,3)] by (force simp: live_signal_source_def readers_agree_def)
  have own: "i \<notin> set pids" if "tgid_now os i = Inr (Some n)" "n \<notin> set pids" for i
    using that coherentD(3) [OF assms(1,3), of i] by (auto simp: leader_only_def)
  show ?thesis unfolding sees using own coherentD(4) [OF assms(1,3,4)] by blast
qed

text \<open>
  The ids up to \<open>m\<close> that answer and are not listed, by what their status says: it names a listed
  process, it names one that is not listed, or it cannot be read.
\<close>

definition unlisted :: "os \<Rightarrow> int \<Rightarrow> int list \<Rightarrow> (int option \<Rightarrow> bool) \<Rightarrow> int list" where
  "unlisted os m pids kind =
     filter (\<lambda>i. answers os i \<and> i \<notin> set pids \<and>
       (case tgid_now os i of Inr g \<Rightarrow> kind g | Inl _ \<Rightarrow> False)) [1..m]"

definition thread_ids :: "os \<Rightarrow> int \<Rightarrow> int list \<Rightarrow> int list" where
  "thread_ids os m pids = unlisted os m pids (\<lambda>g. case g of None \<Rightarrow> False | Some n \<Rightarrow> n \<in> set pids)"

definition hidden_ids :: "os \<Rightarrow> int \<Rightarrow> int list \<Rightarrow> int list" where
  "hidden_ids os m pids = unlisted os m pids (\<lambda>g. case g of None \<Rightarrow> False | Some n \<Rightarrow> n \<notin> set pids)"

definition gone_ids :: "os \<Rightarrow> int \<Rightarrow> int list \<Rightarrow> int list" where
  "gone_ids os m pids = unlisted os m pids (\<lambda>g. g = None)"

text \<open>The tally of file 02 on an unchanging, coherent host.\<close>

lemma file_tally:
  assumes "coherent (ho_os q) m" and "m < 2 ^ 31"
    and "ps_list_pids (live_proc_source (ho_os q)) = Inr pids"
    and "take_view m (\<lambda>_. q) t = (Inr v, t1)" and "classify_view v (\<lambda>_. q) t1 = (Inr ta, t2)"
  shows "ta_unexplained ta = hidden_ids (ho_os q) m pids"
    and "ta_hidden ta = int (length (hidden_ids (ho_os q) m pids))"
    and "ta_threads ta = int (length (thread_ids (ho_os q) m pids))"
    and "ta_gone ta = int (length (gone_ids (ho_os q) m pids))"
proof -
  let ?start = "\<lparr>ta_threads = 0, ta_hidden = 0, ta_gone = 0, ta_unexplained = []\<rparr>"
  have "sound_tally (ho_os q) v [] ?start" by (simp add: sound_tally_def)
  moreover have "fst (classify_ids v (only_sweep v) ?start (\<lambda>_. q) t1) = Inr ta"
    using assms(5) by (simp add: classify_view_def)
  ultimately have sound: "sound_tally (ho_os q) v (only_sweep v) ta"
    using classify_sound [of v "only_sweep v" ?start q t1 ta "[]"] by simp
  obtain tasks where tasks: "tasks_from (ho_os q) pids [] = Inr tasks"
    using coherent_lists [OF assms(1)] assms(3) by (metis Inr_inject)
  have v: "v = view_now q m pids tasks"
    using yieldsD [OF yields_view [OF assms(2)], of q t] assms(4)
    by (simp add: listing_now [OF assms(3)] tasks)
  have "sorted_set (filter f [1..m]) = filter f [1..m]" for f
    by (intro sorted_set_id sorted_wrt_filter distinct_filter) simp_all
  then have only: "only_sweep v = filter (\<lambda>i. i \<notin> set pids) (filter (answers (ho_os q)) [1..m])"
    by (simp add: only_sweep_def minus_ids_def v view_now_def conj_commute)
  have placed: "g \<in> fst ` set tasks \<Longrightarrow> g \<in> set pids"
    if "i \<in> {1..m}" "tgid_now (ho_os q) i = Inr (Some g)" for i g
    using coherentD(4) [OF assms(1,3) tasks] that by blast
  have sv: "sv_after v = pids" "sv_tasks v = tasks" by (simp_all add: v view_now_def)
  note s = sound [unfolded sound_tally_def only sv filter_filter]
  have h: "filter (\<lambda>i. (answers (ho_os q) i \<and> i \<notin> set pids) \<and> (case tgid_now (ho_os q) i of
      Inr (Some g) \<Rightarrow> g \<notin> set pids \<and> g \<notin> fst ` set tasks | _ \<Rightarrow> False)) [1..m] = hidden_ids (ho_os q) m pids"
    unfolding hidden_ids_def unlisted_def using placed
    by (intro filter_cong refl) (auto split: sum.splits option.splits)
  show u: "ta_unexplained ta = hidden_ids (ho_os q) m pids" using s h by simp
  then show "ta_hidden ta = int (length (hidden_ids (ho_os q) m pids))" using s by simp
  have "filter (\<lambda>i. (answers (ho_os q) i \<and> i \<notin> set pids) \<and> (case tgid_now (ho_os q) i of
      Inr (Some g) \<Rightarrow> g \<in> set pids \<or> g \<in> fst ` set tasks | _ \<Rightarrow> False)) [1..m] = thread_ids (ho_os q) m pids"
    unfolding thread_ids_def unlisted_def using placed
    by (intro filter_cong refl) (auto split: sum.splits option.splits)
  with s show "ta_threads ta = int (length (thread_ids (ho_os q) m pids))" by simp
  have "filter (\<lambda>i. (answers (ho_os q) i \<and> i \<notin> set pids) \<and> tgid_now (ho_os q) i = Inr None) [1..m] =
      gone_ids (ho_os q) m pids"
    unfolding gone_ids_def unlisted_def by (intro filter_cong refl) (auto split: sum.splits)
  with s show "ta_gone ta = int (length (gone_ids (ho_os q) m pids))" by simp
qed

lemma hidden_id:
  "i \<in> set (hidden_ids os m pids) \<and> tgid_now os i = Inr (Some n) \<longleftrightarrow>
     i \<in> {1..m} \<and> answers os i \<and> i \<notin> set pids \<and> tgid_now os i = Inr (Some n) \<and> n \<notin> set pids"
  by (auto simp: hidden_ids_def unlisted_def)

lemma hidden_ids_sweep:
  assumes "coherent os m" and "ss_pid_max (live_signal_source os) = Inr m"
    and "ps_list_pids (live_proc_source os) = Inr pids"
  shows "(\<exists>i \<in> set (hidden_ids os m pids). tgid_now os i = Inr (Some n)) \<longleftrightarrow>
     sweep_sees (live_signal_source os) n \<and> n \<notin> set pids"
proof -
  obtain tasks where tasks: "tasks_from os pids [] = Inr tasks"
    using coherent_lists [OF assms(1)] assms(3) by (metis Inr_inject)
  show ?thesis
    unfolding unexplained_iff [OF assms tasks, symmetric] Bex_def hidden_id
    using coherentD(4) [OF assms(1,3) tasks] by blast
qed

text \<open>The findings name process \<open>n\<close> as hidden on the evidence of the sweep.\<close>

definition sweep_reports :: "finding list \<Rightarrow> int \<Rightarrow> bool" where
  "sweep_reports fs n \<longleftrightarrow>
     (\<exists>f \<in> set fs. fi_kind f = HIDDEN_PROCESS \<and> fi_subject f = lit ''pid '' @ str_int n \<and>
        {lit ''syscall_kill'', lit ''direct_status''} \<subseteq> set (fi_channels_agree f) \<and>
        C_MEDIUM \<le> fi_confidence f)"

text \<open>
  C21: The laboratory and the product agree on a host that does not change and whose answers fit
  together. File 02 counts, of the ids that answer the sweep and are not listed, those of listed
  processes, those whose status cannot be read and the unexplained ones, whose status names a
  process that is not listed; under the counts it has a block of four lines for each of the first
  twenty unexplained ids, in ascending order, and "(none)" when there is no such id. The analysis
  of a capture of that host reports process n by both channels of the sweep exactly when the status
  of some unexplained id names n, so it reports none exactly when the file ends with "(none)".
\<close>

theorem laboratory_agrees:
  assumes "coherent (ho_os q) m" and "ss_pid_max (live_signal_source (ho_os q)) = Inr m" and "m < 2 ^ 31"
    and "fst (sweep_lines m (\<lambda>_. q) t) = Inr lines"
    and "ps_list_pids (live_proc_source (ho_os q)) = Inr pids"
    and "capture sid at host euid tv ms h = Inr s" and "analyze s baseline = Inr fs"
    and "hx_procs_a h = live_proc_source (ho_os q)" and "hx_procs_b h = live_proc_source (ho_os q)"
    and "hx_signals h = live_signal_source (ho_os q)"
  shows "let unexplained = hidden_ids (ho_os q) m pids in
     (\<exists>front blocks. lines = front @
       [lit ''  thread of a visible process (Tgid is listed): '' @
          str_int (int (length (thread_ids (ho_os q) m pids))),
        lit ''  vanished before we could resolve it         : '' @
          str_int (int (length (gone_ids (ho_os q) m pids))),
        lit ''  UNEXPLAINED - candidate hidden process      : '' @ str_int (int (length unexplained)),
        []] @ concat blocks @ (if unexplained = [] then [lit ''  (none)''] else []) \<and>
       list_all2 (\<lambda>i b. length b = 4 \<and> hd b = lit ''  id '' @ str_int i) (take 20 unexplained) blocks) \<and>
     (\<forall>n. sweep_reports fs n \<longleftrightarrow> (\<exists>i \<in> set unexplained. tgid_now (ho_os q) i = Inr (Some n))) \<and>
     (unexplained = [] \<longleftrightarrow> \<not> (\<exists>n. sweep_reports fs n))"
proof -
  let ?hid = "hidden_ids (ho_os q) m pids"
  obtain v ta t1 t2 blocks where v: "take_view m (\<lambda>_. q) t = (Inr v, t1)"
    and ta: "classify_view v (\<lambda>_. q) t1 = (Inr ta, t2)"
    and lines: "lines = sweep_summary m v ta @ concat blocks @
       (if ta_unexplained ta = [] then [lit ''  (none)''] else [])"
    and blocks: "list_all2 (\<lambda>i b. length b = 4 \<and> hd b = lit ''  id '' @ str_int i)
       (take 20 (ta_unexplained ta)) blocks"
    using assms(4) by (rule sweep_lines_parts)
  note tally = file_tally [OF assms(1,3,5) v ta]
  obtain sigs where all: "all_signals s baseline = Inr sigs" and fs: "fs = score sigs"
    using assms(7) by (rule analyzeE)
  have d: "distinct ps" if "ps_list_pids (live_proc_source (ho_os q)) = Inr ps" for ps
    using coherentD(1) [OF assms(1) that] .
  have "swept_hidden s n \<longleftrightarrow> sweep_sees (live_signal_source (ho_os q)) n \<and> n \<notin> set pids" for n
    using capture_swept_hidden [OF assms(6,8,9) d d, of n]
    by (auto simp: assms(8-10) coherent_walk [OF assms(1,5)])
  then have reports: "sweep_reports fs n \<longleftrightarrow> (\<exists>i \<in> set ?hid. tgid_now (ho_os q) i = Inr (Some n))" for n
    using sweep_finding_channels [OF all, of sweep_channels n]
    by (simp add: sweep_reports_def fs sweep_channels_def hidden_ids_sweep [OF assms(1,2,5)])
  have "\<exists>n. tgid_now (ho_os q) i = Inr (Some n)" if "i \<in> set ?hid" for i
    using that by (auto simp: hidden_ids_def unlisted_def split: sum.splits option.splits)
  then have "?hid = [] \<longleftrightarrow> \<not> (\<exists>n. sweep_reports fs n)"
    unfolding reports by (metis empty_iff list.set(1) list.set_intros(1) neq_Nil_conv)
  moreover have "\<exists>front. sweep_summary m v ta = front @
       [lit ''  thread of a visible process (Tgid is listed): '' @
          str_int (int (length (thread_ids (ho_os q) m pids))),
        lit ''  vanished before we could resolve it         : '' @
          str_int (int (length (gone_ids (ho_os q) m pids))),
        lit ''  UNEXPLAINED - candidate hidden process      : '' @ str_int (int (length ?hid)), []]"
    by (intro exI [of _ "take 11 (sweep_summary m v ta)"]) (simp add: sweep_summary_def tally)
  ultimately show ?thesis
    using reports lines blocks unfolding Let_def tally(1) by fastforce
qed

section \<open>A host on which the theorem applies\<close>

text \<open>Process 1 has a second thread 3; pid 5 is hidden.\<close>

definition twin_os :: os where
  "twin_os =
     \<lparr>os_listdir = (\<lambda>path.
        if path = lit ''/proc'' then Inr [lit ''1'', lit ''self'']
        else if path = lit ''/proc/1/task'' then Inr [lit ''1'', lit ''3'']
        else Inl (2, lit ''No such file'')),
      os_read = (\<lambda>path.
        if path = lit ''/proc/1/status'' \<or> path = lit ''/proc/3/status''
        then Inr (unlines [lit ''Name: i'', lit ''Tgid: 1'', lit ''Uid: 0'', lit ''Gid: 0''])
        else os_read rootkit_os path),
      os_readlink = (\<lambda>path. Inl (2, lit ''No such file'')),
      os_kill = (\<lambda>i. if i \<in> {1, 3, 5} then None else Some (3, lit ''No such process''))\<rparr>"

definition twin_host :: host where
  "twin_host =
     \<lparr>ho_os = twin_os, ho_run = (\<lambda>cmd. Inr (Inr ([], []))), ho_isdir = (\<lambda>p. Inr False),
      ho_exists = (\<lambda>p. Inr False), ho_euid = 0, ho_pid = 1, ho_stamp = [], ho_release = [],
      ho_seconds = lit ''0.00'', ho_popen = (\<lambda>c. Inr 9), ho_getpgid = (\<lambda>i. Inr i),
      ho_killpg = (\<lambda>g s. None), ho_wait = (\<lambda>i. True), ho_kill = (\<lambda>i. ())\<rparr>"

lemma lab_answers:
  "ss_pid_max (live_signal_source twin_os) = Inr 8"
  "ps_list_pids (live_proc_source twin_os) = Inr [1]"
  "tasks_from twin_os [1] [] = Inr [(1, 1), (3, 1)]"
  "leader_only twin_os 1"
  by code_simp+

lemma lab_coherent: "coherent twin_os 8"
proof -
  have "list_all (readers_agree twin_os) [1..8]" by code_simp
  moreover have "list_all (task_placed twin_os [1] [(1, 1), (3, 1)]) [1..8]" by code_simp
  ultimately show ?thesis by (simp add: coherent_def lab_answers del: tasks_from.simps)
qed

lemma lab_page: "\<exists>lines. fst (sweep_lines 8 (\<lambda>_. twin_host) 0) = Inr lines"
proof -
  have "\<not> isl (fst (sweep_lines 8 (\<lambda>_. twin_host) 0))" by code_simp
  then show ?thesis by (cases "fst (sweep_lines 8 (\<lambda>_. twin_host) 0)") auto
qed

definition twin_sources :: host_sources where
  "twin_sources = rootkit_host\<lparr>hx_procs_a := live_proc_source twin_os,
     hx_signals := live_signal_source twin_os, hx_procs_b := live_proc_source twin_os\<rparr>"

lemma lab_captured:
  "\<exists>s sigs. capture [] [] sample_host 0 [] 0 twin_sources = Inr s \<and> all_signals s None = Inr sigs"
proof -
  have "\<not> isl (bindE (capture [] [] sample_host 0 [] 0 twin_sources) (\<lambda>s. all_signals s None))"
    by code_simp
  then obtain sigs where
    "bindE (capture [] [] sample_host 0 [] 0 twin_sources) (\<lambda>s. all_signals s None) = Inr sigs"
    by (cases "bindE (capture [] [] sample_host 0 [] 0 twin_sources) (\<lambda>s. all_signals s None)") auto
  then show ?thesis by (auto simp: bindE_eq_Inr_iff)
qed

theorem laboratory_agrees_witness:
  "\<exists>lines s fs. fst (sweep_lines 8 (\<lambda>_. twin_host) 0) = Inr lines \<and>
     capture [] [] sample_host 0 [] 0 twin_sources = Inr s \<and> analyze s None = Inr fs \<and>
     sweep_reports fs 5 \<and> lit ''  UNEXPLAINED - candidate hidden process      : 1'' \<in> set lines"
proof -
  obtain lines where l: "fst (sweep_lines 8 (\<lambda>_. twin_host) 0) = Inr lines" using lab_page by blast
  obtain s sigs where s: "capture [] [] sample_host 0 [] 0 twin_sources = Inr s"
    and "all_signals s None = Inr sigs" using lab_captured by blast
  then have fs: "analyze s None = Inr (score sigs)" by (simp add: analyze_def)
  have src: "hx_procs_a twin_sources = live_proc_source (ho_os twin_host)"
    "hx_procs_b twin_sources = live_proc_source (ho_os twin_host)"
    "hx_signals twin_sources = live_signal_source (ho_os twin_host)"
    by (simp_all add: twin_sources_def twin_host_def)
  have os: "coherent (ho_os twin_host) 8" "ss_pid_max (live_signal_source (ho_os twin_host)) = Inr 8"
    by (simp_all add: twin_host_def lab_coherent lab_answers)
  have m: "(8::int) < 2 ^ 31" by simp
  have pids: "ps_list_pids (live_proc_source (ho_os twin_host)) = Inr [1]"
    by (simp add: twin_host_def lab_answers)
  have hid: "hidden_ids (ho_os twin_host) 8 [1] = [5]" and tg: "tgid_now (ho_os twin_host) 5 = Inr (Some 5)"
    by code_simp+
  have one: "lit ''  UNEXPLAINED - candidate hidden process      : '' @ str_int (int (length [5::int])) =
      lit ''  UNEXPLAINED - candidate hidden process      : 1''" by code_simp
  from laboratory_agrees [OF os m l pids s fs src]
  have "lit ''  UNEXPLAINED - candidate hidden process      : '' @ str_int (int (length [5::int])) \<in> set lines"
    and "sweep_reports (score sigs) 5"
    unfolding Let_def hid using tg by (elim conjE exE, simp)+
  with l s fs show ?thesis unfolding one by blast
qed

end
