(* ===== verification/Step0_Run.thy ===== *)
theory Step0_Run
  imports Step0_Modules
begin

text \<open>
  What a run of \<open>tools/step0_phase2.py\<close> leaves on disk: complete files in the order they are taken, up
  to the one at which it stops, and nothing else. The files on modules never stop it, and file 06
  counts every record once.
\<close>

section \<open>The name of a file in a directory\<close>

lemma split_by_append:
  "P x \<Longrightarrow> split_by P (a @ x # s) = split_by P a @ split_by P s"
  by (induction a) (auto split: list.split)

lemma split_on_sep: "split_on c (a @ c # s) = split_on c a @ split_on c s"
  by (simp add: split_on_def split_by_append)

text \<open>A component: not empty, not a dot, without a slash.\<close>

definition component :: "pystr \<Rightarrow> bool" where
  "component p \<longleftrightarrow> p \<noteq> [] \<and> p \<noteq> [46] \<and> 47 \<notin> set p"

lemma path_parts_components: "list_all component (path_parts s)"
  using split_by_pieces [of "\<lambda>c. c = 47" s]
  by (auto simp: path_parts_def split_on_def list_all_iff component_def)

lemma split_join_parts:
  assumes "list_all component ps"
  shows "path_parts (join [47] ps) = ps"
proof (cases "ps = []")
  case False
  have "split_by (\<lambda>c. c = 47) (join [47] ps) = ps"
    using assms False by (intro split_by_join) (auto simp: list_all_iff component_def)
  then show ?thesis
    using assms by (simp add: path_parts_def split_on_def list_all_iff component_def)
qed (simp add: path_parts_def)

lemma path_parts_slash [simp]: "path_parts (47 # s) = path_parts s"
  by (simp add: path_parts_def split_on_def)

lemma path_parts_text [simp]: "path_parts (path_text s) = path_parts s"
proof -
  have "path_parts (path_root s @ join [47] (path_parts s)) = path_parts s"
    using split_join_parts [OF path_parts_components, of s] by (simp add: path_root_def)
  then show ?thesis by (auto simp: path_text_def) (simp add: path_parts_def split_on_def)
qed

lemma path_name_div:
  assumes "component b"
  shows "path_name (path_div a b) = b"
proof -
  have b: "path_parts b = [b]"
    using assms split_on_single [of 47 b] by (simp add: path_parts_def component_def)
  have "\<not> startswith b [47]" using assms by (cases b) (auto simp: startswith_def component_def)
  moreover have "last (path_parts (a @ [47] @ b)) = b" "path_parts (a @ [47] @ b) \<noteq> []"
    using b by (simp_all add: path_parts_def split_on_sep)
  moreover have "last (path_parts (a @ b)) = b \<and> path_parts (a @ b) \<noteq> []" if "endswith a [47]"
  proof -
    obtain x where "a = x @ [47]" using \<open>endswith a [47]\<close> by (auto simp: endswith_def suffix_def)
    with b show ?thesis by (simp add: path_parts_def split_on_sep)
  qed
  ultimately show ?thesis by (auto simp: path_div_def path_name_def)
qed

section \<open>Files that are complete\<close>

definition page_path :: "evidence \<Rightarrow> page \<Rightarrow> pystr" where
  "page_path ev pg = path_div (ev_outdir ev) (pg_name pg)"

definition page_text :: "evidence \<Rightarrow> page \<Rightarrow> pystr list \<Rightarrow> pystr" where
  "page_text ev pg lines =
     join [10] (open_lines ev (pg_title pg) (pg_commands pg) @ lines) @ [10]"

text \<open>
  The files hold what the pages say, each from the instant at which the page before it ended.
\<close>

fun filed :: "(nat \<Rightarrow> host) \<Rightarrow> evidence \<Rightarrow> (pystr \<Rightarrow> int list option) \<Rightarrow> page list \<Rightarrow> nat \<Rightarrow> bool" where
  "filed h ev files [] t = True"
| "filed h ev files (pg # pgs) t =
     (case pg_lines pg h t of
        (Inl e, t') \<Rightarrow> False
      | (Inr lines, t') \<Rightarrow>
          (case files (page_path ev pg) of
             None \<Rightarrow> False
           | Some bs \<Rightarrow> utf8_encode (page_text ev pg lines) = Inr bs) \<and>
          filed h ev files pgs t')"

lemma filed_cong:
  "(\<And>pg. pg \<in> set pgs \<Longrightarrow> files (page_path ev pg) = files' (page_path ev pg)) \<Longrightarrow>
   filed h ev files pgs t = filed h ev files' pgs t"
  by (induction pgs arbitrary: t) (auto split: prod.split sum.split)

lemma print_line_act [simp]: "print_line t w = (Inr (), w\<lparr>wd_out := wd_out w @ t @ [10]\<rparr>)"
  by (simp add: print_line_def)

text \<open>What is open does not matter to the files that are complete.\<close>

lemma open_file [simp]:
  "open_lines (ev\<lparr>ev_lines := ls\<rparr>) = open_lines ev" "open_lines (ev\<lparr>ev_name := n\<rparr>) = open_lines ev"
  by (simp_all add: open_lines_def fun_eq_iff)

lemma same_page [simp]:
  "page_path (ev\<lparr>ev_lines := ls\<rparr>) = page_path ev" "page_path (ev\<lparr>ev_name := n\<rparr>) = page_path ev"
  "page_text (ev\<lparr>ev_lines := ls\<rparr>) = page_text ev" "page_text (ev\<lparr>ev_name := n\<rparr>) = page_text ev"
  by (simp_all add: page_path_def page_text_def fun_eq_iff)

lemma same_filed [simp]:
  "filed h (ev\<lparr>ev_lines := ls\<rparr>) files pgs t = filed h ev files pgs t"
  "filed h (ev\<lparr>ev_name := n\<rparr>) files pgs t = filed h ev files pgs t"
  by (induction pgs arbitrary: t) (auto split: prod.split sum.split option.split)

lemma said_lines: "fold evidence_say ls ev = ev\<lparr>ev_lines := ev_lines ev @ ls\<rparr>"
  by (induction ls arbitrary: ev) (simp_all add: evidence_say_def)

text \<open>One file is written whole, or the page raises and no other file changes.\<close>

lemma write_page_files:
  assumes "write_page pf h pg ev t w = (r, w')"
  shows "p \<noteq> page_path ev pg \<Longrightarrow> wd_files w' p = wd_files w p"
    and "r = Inr (ev', t') \<Longrightarrow> (\<exists>ls n. ev' = ev\<lparr>ev_lines := ls, ev_name := n\<rparr>) \<and>
      (\<exists>lines bs. pg_lines pg h t = (Inr lines, t') \<and> wd_files w' (page_path ev pg) = Some bs \<and>
        utf8_encode (page_text ev pg lines) = Inr bs)"
proof -
  note defs = write_page_def evidence_open_def said_lines evidence_close_def page_path_def
    page_text_def write_text_def write_bytes_def store_def probing_def Let_def
  show "p \<noteq> page_path ev pg \<Longrightarrow> wd_files w' p = wd_files w p"
    using assms by (auto simp: defs split: option.splits sum.splits prod.splits)
  assume "r = Inr (ev', t')"
  with assms show "(\<exists>ls n. ev' = ev\<lparr>ev_lines := ls, ev_name := n\<rparr>) \<and>
      (\<exists>lines bs. pg_lines pg h t = (Inr lines, t') \<and> wd_files w' (page_path ev pg) = Some bs \<and>
        utf8_encode (page_text ev pg lines) = Inr bs)"
    by (auto simp: defs split: option.splits sum.splits prod.splits)
qed

lemma write_pages_filed:
  assumes "distinct (map (page_path ev) pgs)" and "write_pages pf h ev pgs t w = (r, w')"
  shows "\<exists>k. filed h ev (wd_files w') (take k pgs) t \<and>
     (\<forall>p. p \<in> page_path ev ` set (take (Suc k) pgs) \<or> wd_files w' p = wd_files w p) \<and>
     (r = Inr () \<and> k = length pgs \<or> (\<exists>e. r = Inl e) \<and> k < length pgs)"
  using assms
proof (induction pgs arbitrary: ev t w)
  case (Cons pg pgs)
  obtain x w1 where page: "write_page pf h pg ev t w = (x, w1)" by (cases "write_page pf h pg ev t w")
  note files = write_page_files [OF page]
  show ?case
  proof (cases x)
    case (Inl e)
    with Cons.prems(2) page have "r = Inl e" "w' = w1" by simp_all
    with files(1) show ?thesis by (intro exI [of _ 0]) auto
  next
    case (Inr y)
    then obtain ev' t' where x: "x = Inr (ev', t')" by (cases y) auto
    with Cons.prems(2) page have rest: "write_pages pf h ev' pgs t' w1 = (r, w')" by simp
    obtain ls n lines bs where ev': "ev' = ev\<lparr>ev_lines := ls, ev_name := n\<rparr>"
      and lines: "pg_lines pg h t = (Inr lines, t')"
      and bs: "wd_files w1 (page_path ev pg) = Some bs" "utf8_encode (page_text ev pg lines) = Inr bs"
      using files(2) [OF x] by blast
    from Cons.IH [OF _ rest] Cons.prems(1) obtain k where
      k: "filed h ev (wd_files w') (take k pgs) t'"
        "\<forall>p. p \<in> page_path ev ` set (take (Suc k) pgs) \<or> wd_files w' p = wd_files w1 p"
        "r = Inr () \<and> k = length pgs \<or> (\<exists>e. r = Inl e) \<and> k < length pgs" by (auto simp: ev')
    have "page_path ev pg \<notin> page_path ev ` set (take (Suc k) pgs)"
      using Cons.prems(1) set_take_subset [of "Suc k" pgs] by auto
    with k(2) have "wd_files w' (page_path ev pg) = wd_files w1 (page_path ev pg)" by blast
    with bs lines k(1) have "filed h ev (wd_files w') (take (Suc k) (pg # pgs)) t" by simp
    moreover have "p \<in> page_path ev ` set (take (Suc (Suc k)) (pg # pgs)) \<or> wd_files w' p = wd_files w p" for p
      using k(2) files(1) [of p] by auto
    ultimately show ?thesis using k(3) by (intro exI [of _ "Suc k"]) auto
  qed
qed simp

section \<open>The run\<close>

lemma lab_names:
  "map pg_name (lab_pages pid_max args) =
     map lit [''00-host-facts.txt'', ''01-listing-vs-tasks.txt'', ''02-sweep-vs-listing.txt'',
       ''03-sandwich-race.txt'', ''04-direct-access-channel.txt'', ''05-module-three-lists.txt'',
       ''06-ftrace-module-tags.txt'', ''07-vmallocinfo-modules.txt'', ''08-taint-accounting.txt'']"
  by (simp add: lab_pages_def file_00_host_def file_01_tasks_def file_02_sweep_def file_03_race_def
      file_04_direct_def file_05_module_lists_def file_06_ftrace_def file_07_vmalloc_def file_08_taint_def)

lemma lab_pages_distinct: "distinct (map (page_path ev) (lab_pages pid_max args))"
proof -
  have "list_all component (map pg_name (lab_pages pid_max args))" unfolding lab_names by code_simp
  then have "map path_name (map (page_path ev) (lab_pages pid_max args)) = map pg_name (lab_pages pid_max args)"
    by (auto simp: page_path_def path_name_div list_all_iff)
  moreover have "distinct (map pg_name (lab_pages pid_max args))" unfolding lab_names by code_simp
  ultimately show ?thesis by (metis distinct_map)
qed

lemma length_lab_pages [simp]: "length (lab_pages pid_max args) = 9"
  by (simp add: lab_pages_def)

definition lab_dir :: "lab_args \<Rightarrow> pystr" where
  "lab_dir args = path_div (path_text (la_outdir args)) (la_label args)"

text \<open>
  However the host changes during a run of the script, and whatever goes wrong: for some k, the
  first k of the nine files are complete, for the pid_max and the header read at the start, each
  holding its head and the lines said from the instant the one before ended; no file but these and the one it stopped at is touched; the script returns 0
  exactly if all nine are complete, and raises otherwise.
\<close>

theorem evidence_run:
  "\<exists>ev pid_max t k. ev_outdir ev = lab_dir args \<and> ev_label ev = la_label args \<and>
     (k = 0 \<or> fst (lab_pid_max h 1) = Inr pid_max \<and>
        fst (lab_header h (snd (lab_pid_max h 1))) = Inr (ev_header ev)) \<and>
     filed h ev (wd_files (snd (lab_main pf h args w))) (take k (lab_pages pid_max args)) t \<and>
     (\<forall>p. p \<in> page_path ev ` set (take (Suc k) (lab_pages pid_max args)) \<or>
        wd_files (snd (lab_main pf h args w)) p = wd_files w p) \<and>
     (fst (lab_main pf h args w) = Inr 0 \<and> k = 9 \<or> (\<exists>e. fst (lab_main pf h args w) = Inl e) \<and> k < 9)"
proof -
  let ?w1 = "snd ((if ho_euid (h 0) \<noteq> 0 then print_err root_warning else lift (Inr ())) w)"
  obtain x t2 where pid_max: "lab_pid_max h (Suc 0) = (x, t2)" by (cases "lab_pid_max h (Suc 0)")
  have w1: "wd_files ?w1 = wd_files w" by simp
  have stop: ?thesis if "lab_main pf h args w = (Inl e, ?w1)" for e
    using that w1
    by (intro exI [of _ "\<lparr>ev_outdir = lab_dir args, ev_label = la_label args, ev_header = [], ev_lines = [],
          ev_name = None\<rparr>"]
        exI [of _ 0]) auto
  show ?thesis
  proof (cases "pf_mkdir pf (lab_dir args)")
    case (Some e)
    then show ?thesis
      by (intro stop [of e]) (simp add: lab_main_def lab_dir_def mkdir_parents_def probing_def Let_def)
  next
    case mkdir: None
    show ?thesis
    proof (cases x)
      case (Inl e)
      with mkdir pid_max show ?thesis
        by (intro stop [of e]) (simp add: lab_main_def lab_dir_def mkdir_parents_def probing_def Let_def)
    next
      case (Inr m)
      obtain header t3 where header: "lab_header h t2 = (Inr header, t3)" by (simp add: lab_header_def)
      let ?ev = "\<lparr>ev_outdir = lab_dir args, ev_label = la_label args, ev_header = header, ev_lines = [],
        ev_name = None\<rparr>"
      let ?w2 = "snd (print_line (lit ''writing evidence to '' @ lab_dir args @ lit ''/'') ?w1)"
      obtain r w' where pages: "write_pages pf h ?ev (lab_pages m args) t3 ?w2 = (r, w')"
        by (cases "write_pages pf h ?ev (lab_pages m args) t3 ?w2")
      have main: "lab_main pf h args w =
          (case r of Inl e \<Rightarrow> (Inl e, w') | Inr _ \<Rightarrow> (Inr 0, snd (print_line (lit ''done'') w')))"
        using mkdir pid_max Inr header pages
        by (auto simp: lab_main_def lab_dir_def [symmetric] mkdir_parents_def probing_def Let_def
            split: sum.split)
      then have files: "wd_files (snd (lab_main pf h args w)) = wd_files w'"
        by (simp split: sum.split)
      have "wd_files ?w2 = wd_files w" by simp
      with write_pages_filed [OF lab_pages_distinct pages] obtain k where
        "filed h ?ev (wd_files w') (take k (lab_pages m args)) t3"
        "\<forall>p. p \<in> page_path ?ev ` set (take (Suc k) (lab_pages m args)) \<or> wd_files w' p = wd_files w p"
        "r = Inr () \<and> k = 9 \<or> (\<exists>e. r = Inl e) \<and> k < 9" by auto
      with main header pid_max Inr show ?thesis
        unfolding files
        by - (rule exI [of _ ?ev], rule exI [of _ m], rule exI [of _ t3], rule exI [of _ k], auto)
    qed
  qed
qed

section \<open>The files on modules always end\<close>

text \<open>From every instant the probe returns.\<close>

definition ends :: "(nat \<Rightarrow> host) \<Rightarrow> 'a probe \<Rightarrow> bool" where
  "ends h m \<longleftrightarrow> (\<forall>t. \<not> isl (fst (m h t)))"

named_theorems ends_intros "probes that return"

lemma ends_basic [ends_intros]:
  "ends h (retP x)"
  "ends h (ask f)"
  "(\<And>t. \<not> isl (g (h t))) \<Longrightarrow> ends h (askE g)"
  "ends h (read_file path)"
  "ends h proc_modules"
  by (simp_all add: ends_def read_file_def proc_modules_def)

lemma ends_bind [ends_intros]:
  assumes "ends h m" and "\<And>x. ends h (f x)"
  shows "ends h (bindP m f)"
  unfolding ends_def
proof
  fix t
  obtain r t' where m: "m h t = (r, t')" by (cases "m h t")
  moreover have "\<not> isl r" using assms(1) m by (auto simp: ends_def dest: spec [of _ t])
  ultimately show "\<not> isl (fst (bindP m f h t))"
    using assms(2) by (cases r) (simp_all add: ends_def)
qed

lemma ends_if [ends_intros]: "ends h m \<Longrightarrow> ends h m' \<Longrightarrow> ends h (if b then m else m')"
  by simp

lemma ends_mapP [ends_intros]: "(\<And>x. ends h (f x)) \<Longrightarrow> ends h (mapP f xs)"
  by (induction xs) (simp_all only: mapP.simps ends_intros)

lemma ends_let [ends_intros]: "ends h (f x) \<Longrightarrow> ends h (let y = x in f y)"
  by simp

text \<open>
  Whatever the host answers to reads and listings, the four files on modules are completed, as long
  as \<open>is_dir\<close> and \<open>exists\<close> answer.
\<close>

theorem module_files_end:
  assumes "\<And>t p. \<not> isl (ho_isdir (h t) p)" and "\<And>t p. \<not> isl (ho_exists (h t) p)"
    and "pg \<in> {file_05_module_lists, file_06_ftrace, file_07_vmalloc, file_08_taint}"
  shows "\<exists>lines t'. pg_lines pg h t = (Inr lines, t')"
proof -
  have "ends h (first_dir ds)" for ds
    by (induction ds) (unfold first_dir.simps, (intro ends_intros assms | assumption)+)
  moreover have "ends h (initstate_line n)" for n
    unfolding initstate_line_def by (intro ends_intros assms)
  moreover have "ends h sysfs_taint_lines"
    unfolding sysfs_taint_lines_def sysfs_taint_line_def Let_def
    by (intro ends_intros) (auto intro!: ends_intros split: sum.split)
  moreover have "ends h (ftrace_record_lines dir s)" for dir s
    unfolding ftrace_record_lines_def Let_def by (intro ends_intros)
  ultimately have "ends h (pg_lines pg)"
    using assms(3)
    by (auto simp: file_05_module_lists_def module_lists_lines_def file_06_ftrace_def ftrace_lines_def
        file_07_vmalloc_def vmalloc_lines_def file_08_taint_def accounting_lines_def Let_def
        intro!: ends_intros split: option.split)
  then show ?thesis by (cases "pg_lines pg h t"; cases "fst (pg_lines pg h t)") (auto simp: ends_def dest: spec [of _ t])
qed

section \<open>The counts of file 06\<close>

lemma tag_counts_snoc:
  "tag_counts (ls @ [l]) = (case record_tag l of None \<Rightarrow> tag_counts ls | Some n \<Rightarrow> count_tag n (tag_counts ls))"
  by (simp add: tag_counts_def split: option.split)

lemma sum_update:
  "distinct (map fst d) \<Longrightarrow> sum_list (map snd (AList.update k v d)) =
     sum_list (map snd d) - (case map_of d k of None \<Rightarrow> 0 | Some u \<Rightarrow> u) + (v :: int)"
proof (induction d)
  case (Cons e d)
  moreover have "map_of d (fst e) = None" using Cons.prems by (simp add: map_of_eq_None_iff)
  ultimately show ?case by (cases e) auto
qed simp

text \<open>A name is counted once for each line tagged with it, and every line is counted once.\<close>

theorem ftrace_file_counts:
  "map_of (tag_counts ls) n =
     (let c = length (filter (\<lambda>l. record_tag l = Some n) ls) in if c = 0 then None else Some (int c))"
  "sum_list (map snd (tag_counts ls)) + int (length (filter (\<lambda>l. record_tag l = None) ls)) = int (length ls)"
proof -
  have keys: "distinct (map fst (tag_counts ls))" for ls
    by (induction ls rule: rev_induct)
      (simp_all add: tag_counts_snoc count_tag_def distinct_update split: option.split, simp add: tag_counts_def)
  show "map_of (tag_counts ls) n =
     (let c = length (filter (\<lambda>l. record_tag l = Some n) ls) in if c = 0 then None else Some (int c))"
  proof (induction ls rule: rev_induct)
    case Nil
    then show ?case by (simp add: tag_counts_def)
  next
    case (snoc l ls)
    then show ?case
      by (auto simp: tag_counts_snoc count_tag_def update_conv' Let_def split: option.split)
  qed
  show "sum_list (map snd (tag_counts ls)) + int (length (filter (\<lambda>l. record_tag l = None) ls)) = int (length ls)"
  proof (induction ls rule: rev_induct)
    case Nil
    then show ?case by (simp add: tag_counts_def)
  next
    case (snoc l ls)
    then show ?case
      by (auto simp: tag_counts_snoc count_tag_def sum_update [OF keys] split: option.split)
  qed
qed

end
