(* ===== verification/Step0_Args.thy ===== *)
theory Step0_Args
  imports Cli_Line Step0_Run
begin

text \<open>
  The command line of \<open>tools/step0_phase2.py\<close>, with the parser of Cli_Args, and a whole run of the
  script from its words to the evidence on disk.
\<close>

section \<open>The parser of the script\<close>

definition lab_arguments :: "argument list" where
  "lab_arguments =
     [help_option,
      (value_option ''--label'')\<lparr>ar_required := True\<rparr>,
      (value_option ''--hidden-pid'')\<lparr>ar_int := True\<rparr>,
      (value_option ''--race-load'')\<lparr>ar_int := True, ar_default := Number 8\<rparr>,
      (value_option ''--outdir'')\<lparr>ar_default := Text (lit ''docs/step0-phase2'')\<rparr>]"

text \<open>\<open>parse_args\<close> of a parser without subcommands.\<close>

definition parse_all :: "pystr \<Rightarrow> argument list \<Rightarrow> pystr list \<Rightarrow> halt + namespace" where
  "parse_all prog args argv =
     bindH (parse_known prog args argv) (\<lambda>st.
     if ps_extras st \<noteq> [] then Inl (UsageError prog (UnrecognizedArguments (ps_extras st)))
     else Inr (ps_space st))"

definition number_of :: "namespace \<Rightarrow> string \<Rightarrow> int result" where
  "number_of ns k =
     (case ns (lit k) of
        None \<Rightarrow> Inl AttributeError
      | Some (Number i) \<Rightarrow> Inr i
      | Some _ \<Rightarrow> Inl TypeError)"

definition optional_number_of :: "namespace \<Rightarrow> string \<Rightarrow> int option result" where
  "optional_number_of ns k =
     (case ns (lit k) of
        None \<Rightarrow> Inl AttributeError
      | Some NoValue \<Rightarrow> Inr None
      | Some (Number i) \<Rightarrow> Inr (Some i)
      | Some _ \<Rightarrow> Inl TypeError)"

definition lab_args_of :: "namespace \<Rightarrow> lab_args result" where
  "lab_args_of ns =
     bindE (text_of ns ''label'') (\<lambda>label.
     bindE (number_of ns ''race_load'') (\<lambda>load.
     bindE (optional_number_of ns ''hidden_pid'') (\<lambda>hidden_pid.
     bindE (text_of ns ''outdir'') (\<lambda>outdir.
     Inr \<lparr>la_label = label, la_hidden_pid = hidden_pid, la_race_load = load, la_outdir = outdir\<rparr>))))"

text \<open>\<open>main\<close>; \<open>help\<close> and \<open>usage\<close> are the texts that argparse prints.\<close>

definition lab_program ::
  "platform \<Rightarrow> (nat \<Rightarrow> host) \<Rightarrow> pystr \<Rightarrow> pystr \<Rightarrow> (usage_error \<Rightarrow> pystr) \<Rightarrow> pystr list \<Rightarrow> outcome act" where
  "lab_program pf h prog help usage argv =
     (case parse_all prog lab_arguments argv of
        Inl (HelpShown _) \<Rightarrow> bindW (print_out help) (\<lambda>_. lift (Inr (Exits 0)))
      | Inl (UsageError _ e) \<Rightarrow> bindW (print_err (usage e)) (\<lambda>_. lift (Inr (Exits 2)))
      | Inr ns \<Rightarrow>
          bindW (lift (lab_args_of ns)) (\<lambda>args.
          bindW (lab_main pf h args) (\<lambda>n. lift (Inr (Returns n)))))"

section \<open>Accepted command lines\<close>

lemma lab_dests [simp]:
  "dest_of (lit ''--label'') = lit ''label''" "dest_of (lit ''--hidden-pid'') = lit ''hidden_pid''"
  "dest_of (lit ''--race-load'') = lit ''race_load''" "dest_of (lit ''--outdir'') = lit ''outdir''"
  by (simp_all add: dest_of_def lit_def)

lemma lab_parser_ok: "parser_ok lab_arguments"
  by (simp add: parser_ok_def lab_arguments_def argument_defs)

lemma lab_args_total:
  assumes "parse_all prog lab_arguments argv = Inr ns"
  shows "\<exists>args. lab_args_of ns = Inr args"
proof -
  from assms obtain st where run: "parse_known prog lab_arguments argv = Inr st" and ns: "ns = ps_space st"
    by (auto simp: parse_all_def split: if_splits)
  note required = parse_known_typed(3) [OF lab_parser_ok run]
    and optional = parse_known_typed(2) [OF lab_parser_ok run]
  have "\<exists>s. text_of ns ''label'' = Inr s"
    using required [of "(value_option ''--label'')\<lparr>ar_required := True\<rparr>"]
    by (auto simp: lab_arguments_def argument_defs read_value_def text_of_def ns)
  moreover have "\<exists>i. number_of ns ''race_load'' = Inr i"
    using optional [of "(value_option ''--race-load'')\<lparr>ar_int := True, ar_default := Number 8\<rparr>"]
    by (auto simp: lab_arguments_def argument_defs read_value_def number_of_def ns)
  moreover have "\<exists>p. optional_number_of ns ''hidden_pid'' = Inr p"
    using optional [of "(value_option ''--hidden-pid'')\<lparr>ar_int := True\<rparr>"]
    by (auto simp: lab_arguments_def argument_defs read_value_def optional_number_of_def ns)
  moreover have "\<exists>s. text_of ns ''outdir'' = Inr s"
    using optional [of "(value_option ''--outdir'')\<lparr>ar_default := Text (lit ''docs/step0-phase2'')\<rparr>"]
    by (auto simp: lab_arguments_def argument_defs read_value_def text_of_def ns)
  ultimately show ?thesis by (auto simp: lab_args_of_def)
qed

section \<open>A whole run\<close>

text \<open>
  C22: A run of the script from its command line. After help (exit 0) or a usage error (exit 2) no
  file has changed. Otherwise, however the host changes during the run and whatever goes wrong: for
  some k, the first k of the nine files are complete, for the pid_max and the header read at the
  start, each holding its head and the lines said from the instant the one before ended; no file but
  these and the one it stopped at is touched; the script returns 0 exactly if all nine are complete,
  and raises otherwise.
\<close>

theorem evidence_run_of_line:
  "case lab_program pf h prog help usage argv w of (r, v) \<Rightarrow>
     (case parse_all prog lab_arguments argv of
        Inl (HelpShown _) \<Rightarrow> r = Inr (Exits 0) \<and> wd_files v = wd_files w
      | Inl (UsageError _ _) \<Rightarrow> r = Inr (Exits 2) \<and> wd_files v = wd_files w
      | Inr ns \<Rightarrow>
          (\<exists>args ev pid_max t k.
             lab_args_of ns = Inr args \<and> ev_outdir ev = lab_dir args \<and> ev_label ev = la_label args \<and>
             (k = 0 \<or> fst (lab_pid_max h 1) = Inr pid_max \<and>
                fst (lab_header h (snd (lab_pid_max h 1))) = Inr (ev_header ev)) \<and>
             filed h ev (wd_files v) (take k (lab_pages pid_max args)) t \<and>
             (\<forall>p. p \<in> page_path ev ` set (take (Suc k) (lab_pages pid_max args)) \<or>
                wd_files v p = wd_files w p) \<and>
             (r = Inr (Returns 0) \<and> k = 9 \<or> (\<exists>e. r = Inl e) \<and> k < 9)))"
proof (cases "parse_all prog lab_arguments argv")
  case (Inl x)
  then show ?thesis by (cases x) (simp_all add: lab_program_def print_out_def print_err_def bindW_def lift_def)
next
  case (Inr ns)
  then obtain args where args: "lab_args_of ns = Inr args" using lab_args_total by blast
  obtain q v where m: "lab_main pf h args w = (q, v)" by (cases "lab_main pf h args w")
  with Inr args have run: "lab_program pf h prog help usage argv w = (map_sum id Returns q, v)"
    by (cases q) (simp_all add: lab_program_def bindW_def lift_def)
  from evidence_run [where pf = pf and h = h and args = args and w = w] m obtain ev pid_max t k where
    "ev_outdir ev = lab_dir args" "ev_label ev = la_label args"
    "k = 0 \<or> fst (lab_pid_max h 1) = Inr pid_max \<and>
       fst (lab_header h (snd (lab_pid_max h 1))) = Inr (ev_header ev)"
    "filed h ev (wd_files v) (take k (lab_pages pid_max args)) t"
    "\<forall>p. p \<in> page_path ev ` set (take (Suc k) (lab_pages pid_max args)) \<or> wd_files v p = wd_files w p"
    and r: "q = Inr 0 \<and> k = 9 \<or> (\<exists>e. q = Inl e) \<and> k < 9"
    unfolding m fst_conv snd_conv by blast
  moreover from r have "map_sum id Returns q = Inr (Returns 0) \<and> k = 9 \<or>
      (\<exists>e. map_sum id Returns q = Inl e) \<and> k < 9" by auto
  ultimately show ?thesis unfolding run Inr prod.case sum.case using args by blast
qed

end
