(* ===== verification/Spec2Isabelle.thy ===== *)
theory Spec2Isabelle
  imports Snapshot_Props Ioc_Props Notes Redact Escape Report_Props Baseline Cli_Line File_Props
    End_To_End Fixture_Tool Step0_Agrees Step0_Args
begin

text \<open>
  A model of kdetect, the cross-view detector of kernel rootkits in \<open>src/src/kdetect\<close>.

  The program. \<open>capture\<close> asks a Linux host the same question through several channels and stores the
  answers, seven observations, as a snapshot (JSON). \<open>analyze\<close> and \<open>report\<close> load a snapshot, compare
  its observations, turn every disagreement into a signal, group the signals by suspect into findings
  with a confidence, and print them or render a report with indicators. \<open>baseline\<close> signs a snapshot,
  against which later snapshots are compared; \<open>redact\<close> removes the command lines of a snapshot.

  Conventions. A Python string is a list of code points (\<open>pystr\<close>; \<open>lit\<close> embeds a literal), a Python
  integer is an \<open>int\<close>, a dictionary is an association list in insertion order (Py_Dict), and a
  function that can raise returns \<open>py_error + 'a\<close>: every exception that the code raises or catches is
  a constructor of \<open>py_error\<close>, and what the code does not catch is the result. \<open>OutOfContract\<close> is
  no exception of the code: it marks a JSON value that leaves the declared type of its field. Python
  stores such a value and fails, if at all, where it is used, so nothing is claimed about such files:
  the properties of whole commands on arbitrary files name this as a hypothesis. The effective user id
  and the duration of a collector are kept as raw JSON values, since they are printed as they are. Names are those of the code, with \<open>_of\<close>, \<open>_line\<close> or
  \<open>_loop\<close> for the pieces of a longer function.

  The language. Py_Base (errors, the error monad, traversal, sorting), Py_Unicode (tables of decimal
  digits, white space and invisible characters), Py_Str (split, strip, find and the others), Py_Num
  (printing and reading of integers, with the limit of 4300 digits), Py_Dict (the interfaces
  \<open>ordered_dict\<close> and \<open>grouping\<close>, interpreted on association lists), Py_Json (values), Json_Text
  (\<open>json.dumps\<close> with sorted keys and \<open>json.loads\<close>), Host_Files (UTF-8, paths, files, output streams and
  actions on them).

  The program, by file under \<open>src/src/kdetect\<close>.
  \<open>models.py\<close>: Snapshot_Model (enumerations and entities; the interface \<open>json_codec\<close> of a class with
  \<open>to_dict\<close> and \<open>from_dict\<close>), Snapshot_File (observation, host facts, snapshot, the gate on schema
  versions), Snapshot_Text (\<open>to_json\<close>, and what a stored snapshot loads as; \<open>text_codec\<close> extends
  \<open>json_codec\<close>).
  \<open>parsers\<close>: Parse_Procfs, Parse_Modules, Parse_Hooks, Parse_Sockets.
  \<open>collectors\<close>: Sources (the operating system as a record of calls; live and fixture sources; the
  interfaces \<open>proc_contract\<close> and \<open>signal_contract\<close>, interpreted on both), Collect_Procfs (the walk of
  /proc), Collect_Kernel (modules, hooks, sweep, sockets).
  \<open>analysis\<close>: Taint, Signals (detectors and channel notes), Scoring.
  \<open>reporting\<close>: Escape, Redact, Iocs, Report.
  \<open>baseline/store.py\<close>: Baseline. \<open>hostfacts.py\<close> and \<open>cli.py\<close>: Capture (the observations of a capture),
  Cli (the commands), Cli_Args (the parsers of the command line, with the part of the library module
  argparse that they use), Cli_Main (\<open>main\<close> and \<open>cli_entry\<close>).
  \<open>src/tools/redact_snapshot.py\<close>: in Cli. \<open>src/tools/capture_fixture.py\<close>: Fixture_Capture
  (one process), Fixture_Tool (the run, and the constructors of the fixture sources).
  \<open>src/tools/step0_phase2.py\<close>, the laboratory script behind the design: Step0 (questions to a host that
  changes with every question, helpers, files 00 and 01), Step0_Sweep (files 02 to 04), Step0_Modules
  (files 05 to 08 and the run), Step0_Args (the command line).

  What is shown.
  Verdicts, over Detector_Facts and Score_Facts: which condition on the snapshot each finding stands
  for, in both directions, and that no evidence is lost or invented. Notes: when a channel reports,
  is silent or excuses itself. Ioc_Props: which indicators are exported.
  Snapshot_Props, Snapshot_Text: round trips through JSON trees and through text.
  The theories of the parsers: round trips with the text of the kernel, and the exceptions they raise.
  The theories of the collectors: what an observation holds in terms of the answers of the system.
  Escape, Report_Props, Cli_Props: no escaped value of a snapshot can forge a heading, close a code
  span, or send a control character to the terminal; the effective user id and the durations are not
  escaped and can, which \<open>report_forged_heading\<close> and \<open>raw_values_printed\<close> show. The reports hold every
  finding, count and note; the commands agree on the exit code and on the files that the gate on
  schema versions refuses.
  Baseline: a changed baseline is refused before anything of it is decoded.
  Capture, Capture_Files, Analysis_Total, End_To_End: a capture of a live host can be stored and
  loaded, its analysis never raises, and \<open>capture\<close> followed by \<open>analyze\<close> reports by the sweep exactly
  the processes that answered it and were in neither listing. File_Props: \<open>redact\<close> followed by
  \<open>analyze\<close>. Cli_Typed, over the interface \<open>word_consumer\<close> of the parsing loop, and
  Cli_Main: the types of the parsed attributes, the exit status of every command line, and the files
  it can change. Cli_Line: every command can be given on a command line, whatever its file names.
  Fixture_Tool: a run of the tool ends, its tree opens, and every copied process replays as it answered.
  Step0_Agrees: on a host that stands still, the ids that the laboratory file on the sweep calls
  unexplained are those from which the analysis of a capture derives its hidden processes. Step0_Run, Step0_Args:
  what a run of the script leaves on disk, for every command line, however the host changes and
  wherever the run stops.

  Recursion and bounds. All functions are total; loops over lists are structural. The JSON scanner
  counts down a fuel of twice the length of the text plus one; \<open>scan_value_fuel\<close> in Json_Text shows
  that more fuel never changes its result. The UTF-8 decoder, the decimal printer and the loop that
  parses the command line have termination proofs. Addresses are packed into 32 bits with the range
  check of \<open>struct.pack\<close> written out; taint words are integers read bit by bit. An integer is
  \<open>printable_int\<close> if it has at most 4300 digits.

  Parameters. The operating system (\<open>os\<close>), refusals of the file system and the text of exceptions
  (\<open>platform\<close>), Ed25519 keys and signatures, \<open>uname\<close> and \<open>sysconf\<close>, the clock and the identifier of a
  snapshot. Hypotheses on them are named: a signature verifies exactly the message it was made for,
  the kernel lists each pid once.

  Not modelled. Floating-point numbers and JSON documents in UTF-16 or UTF-32 (outside the contract);
  the recursion limit; a failure of printing itself; the wording of help, usage errors and
  tracebacks, which are parameters, and of argparse what no parser of the program uses; the time the
  collectors take, given as a parameter; the sample processes that \<open>capture_fixture.py\<close> starts and
  stops, given by their pids; the directories of the module and hook fixtures, given as their files
  by name; in \<open>step0_phase2.py\<close> the number of elapsed seconds, which comes as formatted text.
  Files such as /proc/stat are decoded as a whole, although the code stops reading at the line it
  looks for.
\<close>

end
